theory Spec2Isabelle
  imports Complex_Main "HOL-Library.Char_ord" "HOL-Library.List_Lexorder" "HOL-Library.Multiset"
begin

section \<open>Python values, exceptions and strings\<close>

text \<open>
  The model follows the advisory scrapers (\<^verbatim>\<open>*_scraper.py\<close>), the NVD client
  (\<^verbatim>\<open>utils.py\<close>) and the rule-based query bots (\<^verbatim>\<open>*_queries.py\<close>).
  Everything the Python code obtains from the outside (the browser, the parsed page, the NVD
  service, \<^verbatim>\<open>float\<close>, the pandas sort and date parser) is an explicit argument of the
  model; every exception is a value \<open>Inl e\<close> of a sum type.

  Text is the UTF-8 encoding of a Python string, a list of bytes; a character is a lead
  byte with the continuation bytes (0x80 to 0xBF) that follow it. The order of texts by
  bytes is the order of Python strings by code points, and a search for a text inside a
  text finds the same places on the bytes as on the characters.
\<close>

datatype exn =
    TimeoutException
  | StaleElementReferenceException
  | WebDriverException
  | KeyError
  | IndexError
  | TypeError
  | AttributeError
  | RequestException
  | HTTPError
  | JSONDecodeError
  | PyException

text \<open>
  \<open>WebDriverException\<close> stands for every Selenium exception other than the two named
  ones (\<^verbatim>\<open>NoSuchElementException\<close> among them); \<open>PyException\<close> for the plain
  \<^verbatim>\<open>Exception("...")\<close> the Palo Alto scraper raises itself. In Selenium the time-out
  and the stale-element exception are subclasses of \<^verbatim>\<open>WebDriverException\<close>, which is
  what an \<^verbatim>\<open>except (TimeoutException, WebDriverException)\<close> clause catches.
\<close>

definition is_webdriver :: "exn \<Rightarrow> bool" where
  "is_webdriver e =
     (e = TimeoutException \<or> e = StaleElementReferenceException \<or> e = WebDriverException)"

definition bind_exn :: "exn + 'a \<Rightarrow> ('a \<Rightarrow> exn + 'b) \<Rightarrow> exn + 'b" where
  "bind_exn m f = (case m of Inl e \<Rightarrow> Inl e | Inr x \<Rightarrow> f x)"

text \<open>
  The characters of a text, each as the list of its bytes.
\<close>

definition is_cont :: "char \<Rightarrow> bool" where
  "is_cont c = (let n = (of_char c :: nat) in 128 \<le> n \<and> n < 192)"

function code_points :: "string \<Rightarrow> string list" where
  "code_points [] = []"
| "code_points (c # cs) = (c # takeWhile is_cont cs) # code_points (dropWhile is_cont cs)"
  by pat_completeness auto
termination
  by (relation "measure length") (simp_all add: less_Suc_eq_le length_dropWhile_le)

text \<open>
  The characters \<^verbatim>\<open>str.isspace()\<close> accepts, which are those \<^verbatim>\<open>str.strip()\<close> and
  \<^verbatim>\<open>str.split()\<close> take as white space: U+0009 to U+000D, U+001C to U+0020, U+0085,
  U+00A0 (the no-break space of \<^verbatim>\<open>&nbsp;\<close>), U+1680, U+2000 to U+200A, U+2028, U+2029,
  U+202F, U+205F and U+3000.
\<close>

definition unicode_spaces :: "string list" where
  "unicode_spaces =
     [[CHR 0x09], [CHR 0x0A], [CHR 0x0B], [CHR 0x0C], [CHR 0x0D],
      [CHR 0x1C], [CHR 0x1D], [CHR 0x1E], [CHR 0x1F], [CHR 0x20],
      [CHR 0xC2, CHR 0x85], [CHR 0xC2, CHR 0xA0],
      [CHR 0xE1, CHR 0x9A, CHR 0x80],
      [CHR 0xE2, CHR 0x80, CHR 0x80], [CHR 0xE2, CHR 0x80, CHR 0x81],
      [CHR 0xE2, CHR 0x80, CHR 0x82], [CHR 0xE2, CHR 0x80, CHR 0x83],
      [CHR 0xE2, CHR 0x80, CHR 0x84], [CHR 0xE2, CHR 0x80, CHR 0x85],
      [CHR 0xE2, CHR 0x80, CHR 0x86], [CHR 0xE2, CHR 0x80, CHR 0x87],
      [CHR 0xE2, CHR 0x80, CHR 0x88], [CHR 0xE2, CHR 0x80, CHR 0x89],
      [CHR 0xE2, CHR 0x80, CHR 0x8A],
      [CHR 0xE2, CHR 0x80, CHR 0xA8], [CHR 0xE2, CHR 0x80, CHR 0xA9],
      [CHR 0xE2, CHR 0x80, CHR 0xAF],
      [CHR 0xE2, CHR 0x81, CHR 0x9F],
      [CHR 0xE3, CHR 0x80, CHR 0x80]]"

definition is_space :: "string \<Rightarrow> bool" where
  "is_space p = (p \<in> set unicode_spaces)"

text \<open>\<^verbatim>\<open>s.strip()\<close>: without the white space at either end.\<close>

definition py_strip :: "string \<Rightarrow> string" where
  "py_strip s = concat (rev (dropWhile is_space (rev (dropWhile is_space (code_points s)))))"

text \<open>
  \<^verbatim>\<open>s.lower()\<close> and \<^verbatim>\<open>s.capitalize()\<close>, which map the letters A to Z and a to z;
  a byte outside these is left as it is.
\<close>

definition lower_char :: "char \<Rightarrow> char" where
  "lower_char c =
     (case map_of (zip ''ABCDEFGHIJKLMNOPQRSTUVWXYZ'' ''abcdefghijklmnopqrstuvwxyz'') c of
        None \<Rightarrow> c
      | Some d \<Rightarrow> d)"

definition upper_char :: "char \<Rightarrow> char" where
  "upper_char c =
     (case map_of (zip ''abcdefghijklmnopqrstuvwxyz'' ''ABCDEFGHIJKLMNOPQRSTUVWXYZ'') c of
        None \<Rightarrow> c
      | Some d \<Rightarrow> d)"

definition py_lower :: "string \<Rightarrow> string" where
  "py_lower s = map lower_char s"

definition py_capitalize :: "string \<Rightarrow> string" where
  "py_capitalize s = (case s of [] \<Rightarrow> [] | c # cs \<Rightarrow> upper_char c # map lower_char cs)"

definition startswith :: "string \<Rightarrow> string \<Rightarrow> bool" where
  "startswith s p = (take (length p) s = p)"

text \<open>\<open>py_in p s\<close> is the substring test \<^verbatim>\<open>p in s\<close>.\<close>

fun py_in :: "string \<Rightarrow> string \<Rightarrow> bool" where
  "py_in p [] = (p = [])"
| "py_in p (c # cs) = (startswith (c # cs) p \<or> py_in p cs)"

text \<open>\<^verbatim>\<open>s.split()\<close>: the maximal runs of characters that are not white space.\<close>

fun split_ws :: "string \<Rightarrow> string list \<Rightarrow> string list" where
  "split_ws cur [] = (if cur = [] then [] else [cur])"
| "split_ws cur (p # ps) =
     (if is_space p then (if cur = [] then split_ws [] ps else cur # split_ws [] ps)
      else split_ws (cur @ p) ps)"

definition py_split :: "string \<Rightarrow> string list" where
  "py_split s = split_ws [] (code_points s)"

text \<open>\<^verbatim>\<open>s.split(",")\<close>: the pieces between the separators, empty ones included.\<close>

fun split_sep :: "char \<Rightarrow> string \<Rightarrow> string \<Rightarrow> string list" where
  "split_sep sep cur [] = [cur]"
| "split_sep sep cur (c # cs) =
     (if c = sep then cur # split_sep sep [] cs else split_sep sep (cur @ [c]) cs)"

definition py_split_on :: "char \<Rightarrow> string \<Rightarrow> string list" where
  "py_split_on sep s = split_sep sep [] s"

fun py_join :: "string \<Rightarrow> string list \<Rightarrow> string" where
  "py_join sep [] = []"
| "py_join sep [x] = x"
| "py_join sep (x # y # ys) = x @ sep @ py_join sep (y # ys)"

section \<open>The NVD client (utils.py)\<close>

text \<open>
  The body of an HTTP answer after \<^verbatim>\<open>response.json()\<close> is a JSON value; the client
  walks it with subscripts, \<^verbatim>\<open>.get\<close> and \<^verbatim>\<open>in\<close>, each of which raises on a
  value of the wrong shape. A JSON object is its list of members (keys distinct, as in the
  \<^verbatim>\<open>dict\<close> Python builds).
\<close>

datatype json =
    JNull
  | JBool bool
  | JNum rat
  | JStr string
  | JList "json list"
  | JDict "(string \<times> json) list"

fun py_truthy :: "json \<Rightarrow> bool" where
  "py_truthy JNull = False"
| "py_truthy (JBool b) = b"
| "py_truthy (JNum x) = (x \<noteq> 0)"
| "py_truthy (JStr s) = (s \<noteq> [])"
| "py_truthy (JList xs) = (xs \<noteq> [])"
| "py_truthy (JDict kvs) = (kvs \<noteq> [])"

text \<open>\<^verbatim>\<open>k in x\<close> for a string \<open>k\<close>.\<close>

fun py_contains :: "string \<Rightarrow> json \<Rightarrow> exn + bool" where
  "py_contains k (JDict kvs) = Inr (k \<in> set (map fst kvs))"
| "py_contains k (JList xs) = Inr (JStr k \<in> set xs)"
| "py_contains k (JStr s) = Inr (py_in k s)"
| "py_contains k JNull = Inl TypeError"
| "py_contains k (JBool b) = Inl TypeError"
| "py_contains k (JNum x) = Inl TypeError"

text \<open>\<^verbatim>\<open>x[k]\<close> for a string \<open>k\<close>.\<close>

fun py_getitem :: "json \<Rightarrow> string \<Rightarrow> exn + json" where
  "py_getitem (JDict kvs) k = (case map_of kvs k of None \<Rightarrow> Inl KeyError | Some v \<Rightarrow> Inr v)"
| "py_getitem (JList xs) k = Inl TypeError"
| "py_getitem (JStr s) k = Inl TypeError"
| "py_getitem JNull k = Inl TypeError"
| "py_getitem (JBool b) k = Inl TypeError"
| "py_getitem (JNum x) k = Inl TypeError"

text \<open>\<^verbatim>\<open>x[0]\<close>. The keys of a JSON object are strings, so 0 is never one of them.\<close>

fun py_getitem0 :: "json \<Rightarrow> exn + json" where
  "py_getitem0 (JList []) = Inl IndexError"
| "py_getitem0 (JList (x # xs)) = Inr x"
| "py_getitem0 (JStr []) = Inl IndexError"
| "py_getitem0 (JStr (c # cs)) = Inr (JStr [c])"
| "py_getitem0 (JDict kvs) = Inl KeyError"
| "py_getitem0 JNull = Inl TypeError"
| "py_getitem0 (JBool b) = Inl TypeError"
| "py_getitem0 (JNum x) = Inl TypeError"

text \<open>\<^verbatim>\<open>x.get(k, d)\<close>: only a \<^verbatim>\<open>dict\<close> has the method.\<close>

fun py_get :: "json \<Rightarrow> string \<Rightarrow> json \<Rightarrow> exn + json" where
  "py_get (JDict kvs) k d = Inr (case map_of kvs k of None \<Rightarrow> d | Some v \<Rightarrow> v)"
| "py_get (JList xs) k d = Inl AttributeError"
| "py_get (JStr s) k d = Inl AttributeError"
| "py_get JNull k d = Inl AttributeError"
| "py_get (JBool b) k d = Inl AttributeError"
| "py_get (JNum x) k d = Inl AttributeError"

text \<open>The values a \<^verbatim>\<open>for\<close> loop over \<open>x\<close> visits.\<close>

fun py_iter :: "json \<Rightarrow> exn + json list" where
  "py_iter (JList xs) = Inr xs"
| "py_iter (JStr s) = Inr (map (\<lambda>c. JStr [c]) s)"
| "py_iter (JDict kvs) = Inr (map (\<lambda>kv. JStr (fst kv)) kvs)"
| "py_iter JNull = Inl TypeError"
| "py_iter (JBool b) = Inl TypeError"
| "py_iter (JNum x) = Inl TypeError"

record nvd =
  nvd_cvss_score :: json
  nvd_severity_level :: json
  nvd_mitigation_strategy :: json

definition na_triple :: nvd where
  "na_triple =
     \<lparr>nvd_cvss_score = JStr ''N/A'', nvd_severity_level = JStr ''N/A'',
      nvd_mitigation_strategy = JStr ''N/A''\<rparr>"

text \<open>
  \<^verbatim>\<open>cve["metrics"].get("cvssMetricV31", [{}])[0].get("cvssData", {}).get(field, "N/A")\<close>
\<close>

definition cvss_field :: "json \<Rightarrow> string \<Rightarrow> exn + json" where
  "cvss_field cve field =
     bind_exn (py_getitem cve ''metrics'') (\<lambda>m.
     bind_exn (py_get m ''cvssMetricV31'' (JList [JDict []])) (\<lambda>l.
     bind_exn (py_getitem0 l) (\<lambda>f.
     bind_exn (py_get f ''cvssData'' (JDict [])) (\<lambda>d.
     py_get d field (JStr ''N/A'')))))"

text \<open>
  \<^verbatim>\<open>next((desc["value"] for desc in ... if "mitigation" in desc["value"].lower()), "N/A")\<close>:
  the generator is lazy, so the descriptions after the first match are never read.
\<close>

fun find_mitigation :: "json list \<Rightarrow> exn + json" where
  "find_mitigation [] = Inr (JStr ''N/A'')"
| "find_mitigation (d # ds) =
     (case py_getitem d ''value'' of
        Inl e \<Rightarrow> Inl e
      | Inr (JStr s) \<Rightarrow>
          if py_in ''mitigation'' (py_lower s) then Inr (JStr s) else find_mitigation ds
      | Inr _ \<Rightarrow> Inl AttributeError)"

text \<open>The statements of the \<^verbatim>\<open>try\<close> block from \<^verbatim>\<open>data = response.json()\<close> on.\<close>

definition nvd_parse :: "json \<Rightarrow> exn + nvd" where
  "nvd_parse data =
     bind_exn (py_contains ''vulnerabilities'' data) (\<lambda>has.
       if \<not> has then Inr na_triple
       else bind_exn (py_getitem data ''vulnerabilities'') (\<lambda>vs.
         if \<not> py_truthy vs then Inr na_triple
         else
           bind_exn (py_getitem0 vs) (\<lambda>v0.
           bind_exn (py_getitem v0 ''cve'') (\<lambda>cve.
           bind_exn (cvss_field cve ''baseScore'') (\<lambda>score.
           bind_exn (cvss_field cve ''baseSeverity'') (\<lambda>sev.
           bind_exn (py_getitem cve ''descriptions'') (\<lambda>ds.
           bind_exn (py_iter ds) (\<lambda>items.
           bind_exn (find_mitigation items) (\<lambda>mit.
           Inr \<lparr>nvd_cvss_score = score, nvd_severity_level = sev,
                nvd_mitigation_strategy = mit\<rparr>)))))))))"

text \<open>
  What \<^verbatim>\<open>requests.get\<close> brings back: no answer at all (a connection error or the
  10 second time-out), or a status code with a body that is JSON or not.
\<close>

datatype http_result = RequestFailed | Response nat "json option"

definition nvd_request :: "http_result \<Rightarrow> exn + nvd" where
  "nvd_request r =
     (case r of
        RequestFailed \<Rightarrow> Inl RequestException
      | Response st body \<Rightarrow>
          if 400 \<le> st \<and> st < 600 then Inl HTTPError
          else (case body of None \<Rightarrow> Inl JSONDecodeError | Some data \<Rightarrow> nvd_parse data))"

definition nvd_url :: "string \<Rightarrow> string" where
  "nvd_url cve_id = ''https://services.nvd.nist.gov/rest/json/cves/2.0?cveId='' @ cve_id"

text \<open>
  The service answers a request in the light of the requests made before it (a rate limit
  counts them), so the network is a function of the log of requested URLs and the URL.
  \<open>fetch_nvd_data key net cve_id reqs\<close> returns the result and the log after the call;
  \<open>key\<close> is the module's \<^verbatim>\<open>NVD_API_KEY\<close>.
\<close>

type_synonym network = "string list \<Rightarrow> string \<Rightarrow> http_result"

definition fetch_nvd_data ::
  "string \<Rightarrow> network \<Rightarrow> string \<Rightarrow> string list \<Rightarrow> (exn + nvd) \<times> string list" where
  "fetch_nvd_data key net cve_id reqs =
     (if key = [] then (Inr na_triple, reqs)
      else
        (case nvd_request (net reqs (nvd_url cve_id)) of
           Inl e \<Rightarrow> (Inr na_triple, reqs @ [nvd_url cve_id])
         | Inr r \<Rightarrow> (Inr r, reqs @ [nvd_url cve_id])))"


section \<open>Tables and pages\<close>

text \<open>
  A cell of a table is a text, a time stamp (what \<^verbatim>\<open>pd.to_datetime\<close> makes of a date
  it can read), \<^verbatim>\<open>NaT\<close> (what it makes of any other text) or \<^verbatim>\<open>None\<close>.
  A scraper collects one \<^verbatim>\<open>dict\<close> per advisory in the list \<^verbatim>\<open>data\<close>;
  \<^verbatim>\<open>pd.DataFrame(data)\<close> is represented by that list of records, in order, and
  \<^verbatim>\<open>pd.DataFrame()\<close> by the empty list.
\<close>

datatype cell = Str string | Timestamp int | NaT | PyNone

type_synonym row = "(string \<times> cell) list"

text \<open>
  A cell of the page as the parser hands it over: its text, the first link inside it (the
  link's text and its \<^verbatim>\<open>href\<close> attribute, if it has one), the texts of the
  \<^verbatim>\<open><div>\<close>s inside it, and its attribute \<^verbatim>\<open>data\<close>.
\<close>

record td =
  td_text :: string
  td_a :: "(string \<times> string option) option"
  td_divs :: "string list"
  td_data :: "string option"

text \<open>
  The handlers of a scraper: \<^verbatim>\<open>except (TimeoutException, WebDriverException)\<close>
  returns an empty table and lets every other exception pass.
  Writing the diagnostic files (page dumps, screen shots) and closing the browser in the
  \<^verbatim>\<open>finally\<close> block are taken to succeed.
\<close>

definition except_webdriver :: "(exn + row list) \<times> 's \<Rightarrow> (exn + row list) \<times> 's" where
  "except_webdriver r =
     (case r of
        (Inl e, s) \<Rightarrow> if is_webdriver e then (Inr [], s) else (Inl e, s)
      | (Inr t, s) \<Rightarrow> (Inr t, s))"

section \<open>Enrichment in the Cisco, Intel and Dell scrapers\<close>

text \<open>
  \<^verbatim>\<open>cve_ids = [cve.strip() for cve in pieces if cve.strip().startswith("CVE-")]\<close> and
  \<^verbatim>\<open>cve_id = cve_ids[0] if cve_ids else "N/A"\<close>, for the pieces of the CVE text.
\<close>

definition first_cve :: "string list \<Rightarrow> string" where
  "first_cve pieces =
     (case filter (\<lambda>c. startswith c ''CVE-'') (map py_strip pieces) of
        [] \<Rightarrow> ''N/A''
      | c # cs \<Rightarrow> c)"

text \<open>
  \<^verbatim>\<open>nvd = fetch_nvd_data(cve_id) if cve_id != "N/A" else {... "N/A" ...}\<close>
\<close>

definition enrich ::
  "string \<Rightarrow> network \<Rightarrow> string \<Rightarrow> string list \<Rightarrow> (exn + nvd) \<times> string list" where
  "enrich key net cve_id reqs =
     (if cve_id \<noteq> ''N/A'' then fetch_nvd_data key net cve_id reqs else (Inr na_triple, reqs))"

text \<open>
  \<^verbatim>\<open>nvd["Severity Level"].capitalize() if nvd["Severity Level"] != "N/A" else fallback\<close>:
  a severity that is not a string has no \<^verbatim>\<open>capitalize\<close>.
\<close>

definition nvd_severity_text :: "nvd \<Rightarrow> string \<Rightarrow> exn + string" where
  "nvd_severity_text r fallback =
     (case nvd_severity_level r of
        JStr s \<Rightarrow> if s \<noteq> ''N/A'' then Inr (py_capitalize s) else Inr fallback
      | _ \<Rightarrow> Inl AttributeError)"

definition enrich_severity ::
  "string \<Rightarrow> network \<Rightarrow> string \<Rightarrow> string \<Rightarrow> string list \<Rightarrow> (exn + string) \<times> string list" where
  "enrich_severity key net cve_id fallback reqs =
     (case enrich key net cve_id reqs of
        (res, reqs') \<Rightarrow> (bind_exn res (\<lambda>r. nvd_severity_text r fallback), reqs'))"

section \<open>The Cisco scraper (cisco_scraper.py)\<close>

text \<open>
  A row of the Cisco listing, as the five guarded look-ups see it: \<open>None\<close> where the
  look-up raises (the \<^verbatim>\<open>except Exception\<close> of the field then writes \<open>N/A\<close>). The
  advisory link gives its text and \<^verbatim>\<open>href\<close>; the last-updated span its text and what
  the \<^verbatim>\<open>innerText\<close> script returns (\<open>None\<close>: the script raises).
\<close>

record cisco_tr =
  ctr_advisory :: "(string \<times> string option) option"
  ctr_impact :: "string option"
  ctr_cve :: "string option"
  ctr_updated :: "(string \<times> string option) option"
  ctr_version :: "string option"

definition text_or_na :: "string option \<Rightarrow> string" where
  "text_or_na t = (case t of None \<Rightarrow> ''N/A'' | Some s \<Rightarrow> py_strip s)"

definition cisco_last_updated :: "(string \<times> string option) option \<Rightarrow> string" where
  "cisco_last_updated u =
     (case u of
        None \<Rightarrow> ''N/A''
      | Some (t, inner) \<Rightarrow>
          if py_strip t \<noteq> [] then py_strip t
          else (case inner of None \<Rightarrow> ''N/A'' | Some i \<Rightarrow> py_strip i))"

definition cisco_dict :: "cisco_tr \<Rightarrow> row" where
  "cisco_dict tr =
     [(''OEM Name'', Str ''Cisco''),
      (''Vulnerability'',
         Str (case ctr_advisory tr of None \<Rightarrow> ''N/A'' | Some (t, h) \<Rightarrow> py_strip t)),
      (''Description'', Str (text_or_na (ctr_impact tr))),
      (''URL'',
         (case ctr_advisory tr of
            None \<Rightarrow> Str ''#''
          | Some (t, None) \<Rightarrow> PyNone
          | Some (t, Some h) \<Rightarrow> Str h)),
      (''Last Updated'', Str (cisco_last_updated (ctr_updated tr)))]"

definition cisco_cve_id :: "cisco_tr \<Rightarrow> string" where
  "cisco_cve_id tr = first_cve (py_split (text_or_na (ctr_cve tr)))"

text \<open>
  The loop over the rows: \<open>data\<close> is the list built so far, \<open>reqs\<close> the log of
  requests. The severity is computed for every row and then left out of the record.
\<close>

fun cisco_rows ::
  "string \<Rightarrow> network \<Rightarrow> cisco_tr list \<Rightarrow> row list \<Rightarrow> string list
     \<Rightarrow> (exn + row list) \<times> string list" where
  "cisco_rows key net [] data reqs = (Inr data, reqs)"
| "cisco_rows key net (tr # trs) data reqs =
     (case enrich_severity key net (cisco_cve_id tr) ''N/A'' reqs of
        (Inl e, reqs') \<Rightarrow> (Inl e, reqs')
      | (Inr severity, reqs') \<Rightarrow> cisco_rows key net trs (data @ [cisco_dict tr]) reqs')"

text \<open>
  What the browser does during a run: \<open>cp_setup\<close> is \<^verbatim>\<open>setup_driver()\<close> and the
  user-agent override, both before the \<^verbatim>\<open>try\<close>; \<open>cp_get\<close> the navigation;
  \<open>cp_wait\<close> the wait of 120 seconds for a \<^verbatim>\<open>tr.rowRepeat\<close>, whose handler writes
  the page and raises the time-out again; \<open>cp_rows\<close> the rows found.
\<close>

record cisco_page =
  cp_setup :: "exn option"
  cp_get :: "exn option"
  cp_wait :: "exn option"
  cp_rows :: "exn + cisco_tr list"

definition cisco_try ::
  "string \<Rightarrow> network \<Rightarrow> cisco_page \<Rightarrow> string list \<Rightarrow> (exn + row list) \<times> string list" where
  "cisco_try key net page reqs =
     (case cp_get page of
        Some e \<Rightarrow> (Inl e, reqs)
      | None \<Rightarrow>
          (case cp_wait page of
             Some e \<Rightarrow> (Inl e, reqs)
           | None \<Rightarrow>
               (case cp_rows page of
                  Inl e \<Rightarrow> (Inl e, reqs)
                | Inr trs \<Rightarrow>
                    if trs = [] then (Inr [], reqs) else cisco_rows key net trs [] reqs)))"

definition scrape_cisco ::
  "string \<Rightarrow> network \<Rightarrow> cisco_page \<Rightarrow> string list \<Rightarrow> (exn + row list) \<times> string list" where
  "scrape_cisco key net page reqs =
     (case cp_setup page of
        Some e \<Rightarrow> (Inl e, reqs)
      | None \<Rightarrow> except_webdriver (cisco_try key net page reqs))"

section \<open>The Intel scraper (intel_scraper.py)\<close>

text \<open>
  \<^verbatim>\<open>columns[0].find("a")["href"] if columns[0].find("a") else "#"\<close>, then the site's
  prefix before a link that starts with a slash. A link without \<^verbatim>\<open>href\<close> is a
  \<^verbatim>\<open>KeyError\<close>.
\<close>

definition intel_url :: "td \<Rightarrow> exn + string" where
  "intel_url c =
     (case td_a c of
        None \<Rightarrow> Inr ''#''
      | Some (t, None) \<Rightarrow> Inl KeyError
      | Some (t, Some h) \<Rightarrow>
          Inr (if startswith h ''/'' then ''https://www.intel.com'' @ h else h))"

definition intel_dict :: "td list \<Rightarrow> string \<Rightarrow> row" where
  "intel_dict columns full_url =
     [(''OEM Name'', Str ''Intel''),
      (''Vulnerability'', Str (py_strip (td_text (columns ! 0)))),
      (''Published Date'', Str (py_strip (td_text (columns ! 3)))),
      (''URL'', Str full_url),
      (''Last Updated'', Str (py_strip (td_text (columns ! 2))))]"

definition intel_cve_id :: "td list \<Rightarrow> string" where
  "intel_cve_id columns = first_cve (py_split (py_strip (td_text (columns ! 1))))"

fun intel_rows ::
  "string \<Rightarrow> network \<Rightarrow> td list list \<Rightarrow> row list \<Rightarrow> string list
     \<Rightarrow> (exn + row list) \<times> string list" where
  "intel_rows key net [] data reqs = (Inr data, reqs)"
| "intel_rows key net (columns # trs) data reqs =
     (if length columns < 4 then intel_rows key net trs data reqs
      else
        (case intel_url (columns ! 0) of
           Inl e \<Rightarrow> (Inl e, reqs)
         | Inr full_url \<Rightarrow>
             (case enrich_severity key net (intel_cve_id columns) ''N/A'' reqs of
                (Inl e, reqs') \<Rightarrow> (Inl e, reqs')
              | (Inr severity, reqs') \<Rightarrow>
                  intel_rows key net trs (data @ [intel_dict columns full_url]) reqs')))"

text \<open>
  \<open>ip_setup\<close> is the part before the \<^verbatim>\<open>try\<close>; \<open>ip_view_all\<close> the wait for the
  "View all" link and the click, whose time-out alone is caught on the spot; \<open>ip_ready\<close>
  the wait for \<^verbatim>\<open>document.readyState\<close>; \<open>ip_rows\<close> the \<^verbatim>\<open>tr.data\<close> rows
  of the parsed page, each the list of its cells.
\<close>

record intel_page =
  ip_setup :: "exn option"
  ip_get :: "exn option"
  ip_wait_body :: "exn option"
  ip_view_all :: "exn option"
  ip_ready :: "exn option"
  ip_rows :: "td list list"

definition intel_try ::
  "string \<Rightarrow> network \<Rightarrow> intel_page \<Rightarrow> string list \<Rightarrow> (exn + row list) \<times> string list" where
  "intel_try key net page reqs =
     (case ip_get page of
        Some e \<Rightarrow> (Inl e, reqs)
      | None \<Rightarrow>
          (case ip_wait_body page of
             Some e \<Rightarrow> (Inl e, reqs)
           | None \<Rightarrow>
               (case (case ip_view_all page of
                        Some e \<Rightarrow> if e = TimeoutException then None else Some e
                      | None \<Rightarrow> None) of
                  Some e \<Rightarrow> (Inl e, reqs)
                | None \<Rightarrow>
                    (case ip_ready page of
                       Some e \<Rightarrow> (Inl e, reqs)
                     | None \<Rightarrow>
                         if ip_rows page = [] then (Inr [], reqs)
                         else intel_rows key net (take 100 (ip_rows page)) [] reqs))))"

definition scrape_intel ::
  "string \<Rightarrow> network \<Rightarrow> intel_page \<Rightarrow> string list \<Rightarrow> (exn + row list) \<times> string list" where
  "scrape_intel key net page reqs =
     (case ip_setup page of
        Some e \<Rightarrow> (Inl e, reqs)
      | None \<Rightarrow> except_webdriver (intel_try key net page reqs))"

section \<open>The Dell scraper (dell_scraper.py)\<close>

text \<open>
  A cell of the Dell grid, as the five \<^verbatim>\<open>find\<close> calls of the loop see it: the text
  of its badge label, its \<^verbatim>\<open>a.dds__link\<close> (text and \<^verbatim>\<open>href\<close>), the text of its
  ellipsis span and of its \<^verbatim>\<open>div\<close> with a name; \<open>None\<close> where there is none.
  (The type span of the third cell is read and not used.)
\<close>

record dell_td =
  dtd_badge :: "string option"
  dtd_link :: "(string \<times> string option) option"
  dtd_ellipses :: "string option"
  dtd_named :: "string option"

definition dell_url :: "dell_td \<Rightarrow> exn + string" where
  "dell_url c =
     (case dtd_link c of
        None \<Rightarrow> Inr ''#''
      | Some (t, None) \<Rightarrow> Inl KeyError
      | Some (t, Some h) \<Rightarrow>
          Inr (if startswith h ''/'' then ''https://www.dell.com'' @ h else h))"

definition dell_cve_id :: "dell_td list \<Rightarrow> string" where
  "dell_cve_id cells =
     first_cve (py_split_on CHR '','' (text_or_na (dtd_ellipses (cells ! 3))))"

definition dell_dict :: "dell_td list \<Rightarrow> string \<Rightarrow> string \<Rightarrow> row" where
  "dell_dict cells full_url severity =
     [(''OEM Name'', Str ''Dell''),
      (''Vulnerability'',
         Str (case dtd_link (cells ! 1) of None \<Rightarrow> ''Unknown'' | Some (t, h) \<Rightarrow> py_strip t)),
      (''Description'', Str severity),
      (''Published Date'', Str (text_or_na (dtd_named (cells ! 4)))),
      (''Unique ID'', Str (dell_cve_id cells)),
      (''URL'', Str full_url),
      (''Last Updated'', Str (text_or_na (dtd_named (cells ! 5))))]"

fun dell_rows ::
  "string \<Rightarrow> network \<Rightarrow> dell_td list list \<Rightarrow> row list \<Rightarrow> string list
     \<Rightarrow> (exn + row list) \<times> string list" where
  "dell_rows key net [] data reqs = (Inr data, reqs)"
| "dell_rows key net (cells # trs) data reqs =
     (if length cells < 6 then dell_rows key net trs data reqs
      else
        (case dell_url (cells ! 1) of
           Inl e \<Rightarrow> (Inl e, reqs)
         | Inr full_url \<Rightarrow>
             (case enrich_severity key net (dell_cve_id cells)
                     (text_or_na (dtd_badge (cells ! 0))) reqs of
                (Inl e, reqs') \<Rightarrow> (Inl e, reqs')
              | (Inr severity, reqs') \<Rightarrow>
                  dell_rows key net trs (data @ [dell_dict cells full_url severity]) reqs')))"

text \<open>
  \<open>dp_start\<close> is the start of the browser, before the \<^verbatim>\<open>try\<close>; \<open>dp_get\<close> the
  navigation; \<open>dp_select\<close> finding the page-size selector and choosing 100; \<open>dp_rows\<close>
  the \<^verbatim>\<open>div.dds__tr\<close> rows of the parsed page. The handler is
  \<^verbatim>\<open>except Exception\<close>: every exception of the \<^verbatim>\<open>try\<close> block ends in an empty table.
\<close>

record dell_page =
  dp_start :: "exn option"
  dp_get :: "exn option"
  dp_select :: "exn option"
  dp_rows :: "dell_td list list"

definition dell_try ::
  "string \<Rightarrow> network \<Rightarrow> dell_page \<Rightarrow> string list \<Rightarrow> (exn + row list) \<times> string list" where
  "dell_try key net page reqs =
     (case dp_get page of
        Some e \<Rightarrow> (Inl e, reqs)
      | None \<Rightarrow>
          (case dp_select page of
             Some e \<Rightarrow> (Inl e, reqs)
           | None \<Rightarrow>
               if dp_rows page = [] then (Inr [], reqs)
               else dell_rows key net (take 100 (dp_rows page)) [] reqs))"

definition scrape_dell ::
  "string \<Rightarrow> network \<Rightarrow> dell_page \<Rightarrow> string list \<Rightarrow> (exn + row list) \<times> string list" where
  "scrape_dell key net page reqs =
     (case dp_start page of
        Some e \<Rightarrow> (Inl e, reqs)
      | None \<Rightarrow>
          (case dell_try key net page reqs of
             (Inl e, reqs') \<Rightarrow> (Inr [], reqs')
           | (Inr t, reqs') \<Rightarrow> (Inr t, reqs')))"

section \<open>The Adobe scraper (adobe_scraper.py)\<close>

text \<open>
  A table row of the bulletin page is the list of the texts of its cells, or the exception
  reading it raises. A section under an \<^verbatim>\<open>h4\<close> heading has the heading's text and the
  rows of the table that follows it (without the header row), or the exception that finding
  them raises.
\<close>

record adobe_section =
  as_name :: "exn + string"
  as_rows :: "exn + (exn + string list) list"

definition adobe_dict :: "string \<Rightarrow> string list \<Rightarrow> row" where
  "adobe_dict section_name cols =
     [(''Section'', Str section_name),
      (''Title'', Str (py_strip (cols ! 0))),
      (''Posted'', Str (py_strip (cols ! 1))),
      (''Updated'', Str (py_strip (cols ! 2))),
      (''Severity Level'', Str ''N/A'')]"

text \<open>
  The rows of one section, inside the section's own \<^verbatim>\<open>try\<close>: an exception ends the
  section and keeps what was appended.
\<close>

fun adobe_rows :: "string \<Rightarrow> (exn + string list) list \<Rightarrow> row list \<Rightarrow> row list" where
  "adobe_rows section_name [] data = data"
| "adobe_rows section_name (Inl e # rs) data = data"
| "adobe_rows section_name (Inr cols # rs) data =
     adobe_rows section_name rs
       (if 3 \<le> length cols then data @ [adobe_dict section_name cols] else data)"

text \<open>
  The loop over the \<^verbatim>\<open>h4\<close> headings. Reading a heading's text is outside the section's
  \<^verbatim>\<open>try\<close>: if it raises, the general handler ends the loop.
\<close>

fun adobe_sections :: "adobe_section list \<Rightarrow> row list \<Rightarrow> row list" where
  "adobe_sections [] data = data"
| "adobe_sections (s # ss) data =
     (case as_name s of
        Inl e \<Rightarrow> data
      | Inr name \<Rightarrow>
          adobe_sections ss
            (case as_rows s of
               Inl e \<Rightarrow> data
             | Inr rs \<Rightarrow> adobe_rows (py_strip name) rs data))"

text \<open>
  \<open>ap_start\<close> is the start of the browser, before the \<^verbatim>\<open>try\<close>; \<open>ap_get\<close> the
  navigation; \<open>ap_wait\<close> the wait of 60 seconds for the headings (and the dump of the
  page after it); \<open>ap_acrobat\<close> the rows of the Acrobat table; \<open>ap_h4\<close> the sections.
  Every handler is \<^verbatim>\<open>except Exception\<close>, and the table is built after the
  \<^verbatim>\<open>try\<close> from whatever \<^verbatim>\<open>data\<close> holds.
\<close>

record adobe_page =
  ap_start :: "exn option"
  ap_get :: "exn option"
  ap_wait :: "exn option"
  ap_acrobat :: "exn + (exn + string list) list"
  ap_h4 :: "exn + adobe_section list"

definition scrape_adobe :: "adobe_page \<Rightarrow> exn + row list" where
  "scrape_adobe page =
     (case ap_start page of
        Some e \<Rightarrow> Inl e
      | None \<Rightarrow>
          Inr (case ap_get page of
                 Some e \<Rightarrow> []
               | None \<Rightarrow>
                   (case ap_wait page of
                      Some e \<Rightarrow> []
                    | None \<Rightarrow>
                        (let data = (case ap_acrobat page of
                                       Inl e \<Rightarrow> []
                                     | Inr rs \<Rightarrow> adobe_rows ''Adobe Acrobat'' rs [])
                         in case ap_h4 page of
                              Inl e \<Rightarrow> data
                            | Inr ss \<Rightarrow> adobe_sections ss data))))"

section \<open>The NVIDIA scraper (nvidia_scraper.py)\<close>

definition valid_severities :: "string list" where
  "valid_severities =
     [''N/A'', ''None'', ''NVIDIA products are not affected'', ''Low'', ''Medium'', ''High'',
      ''Critical'']"

text \<open>
  The severity of a row: the attribute \<^verbatim>\<open>data\<close> of the third cell if it is not empty,
  else the cell's text; a value outside \<open>valid_severities\<close> becomes \<open>N/A\<close>.
\<close>

definition nvidia_severity :: "td \<Rightarrow> string" where
  "nvidia_severity c =
     (let severity = (case td_data c of
                        Some d \<Rightarrow> if d \<noteq> [] then d else py_strip (td_text c)
                      | None \<Rightarrow> py_strip (td_text c))
      in if severity \<notin> set valid_severities then ''N/A'' else severity)"

text \<open>
  \<^verbatim>\<open>re.sub(r'<.*?>', '', s)\<close>: from a \<open><\<close>, the shortest stretch up to a \<open>>\<close>
  on the same line is removed.
\<close>

fun close_tag :: "string \<Rightarrow> string option" where
  "close_tag [] = None"
| "close_tag (c # cs) =
     (if c = CHR ''>'' then Some cs else if c = CHR 0x0A then None else close_tag cs)"

function remove_tags :: "string \<Rightarrow> string" where
  "remove_tags [] = []"
| "remove_tags (c # cs) =
     (if c = CHR ''<'' then
        (case close_tag cs of Some rest \<Rightarrow> remove_tags rest | None \<Rightarrow> c # remove_tags cs)
      else c # remove_tags cs)"
  by pat_completeness auto
termination
proof (relation "measure length")
  show "wf (measure length)" by simp
next
  fix c :: char and cs rest :: string
  assume "close_tag cs = Some rest"
  then have "length rest < length cs"
    by (induction cs arbitrary: rest) (auto split: if_splits)
  then show "(rest, c # cs) \<in> measure length" by simp
qed simp_all

text \<open>\<^verbatim>\<open>re.split(r' - | \(', s)[0]\<close>: the text before the first \<open> - \<close> or \<open> (\<close>.\<close>

fun before_note :: "string \<Rightarrow> string" where
  "before_note [] = []"
| "before_note (c # cs) =
     (if startswith (c # cs) '' - '' \<or> startswith (c # cs) '' ('' then []
      else c # before_note cs)"

definition clean_publish_date :: "string \<Rightarrow> string" where
  "clean_publish_date t = py_strip (before_note (remove_tags (py_strip t)))"

definition nvidia_dict :: "td list \<Rightarrow> string \<Rightarrow> string option \<Rightarrow> row" where
  "nvidia_dict cols title href =
     [(''Title'', Str (py_strip title)),
      (''Bulletin ID'', Str (py_strip (td_text (cols ! 1)))),
      (''Severity'', Str (nvidia_severity (cols ! 2))),
      (''CVE Identifier(s)'',
         Str (map (\<lambda>c. if c = CHR 0x0A then CHR '' '' else c) (py_strip (td_text (cols ! 3))))),
      (''Publish Date'', Str (clean_publish_date (td_text (cols ! 4)))),
      (''Last Updated'', Str (py_strip (td_text (cols ! 5)))),
      (''URL'', (case href of None \<Rightarrow> PyNone | Some h \<Rightarrow> Str h))]"

text \<open>
  One pass over the rows of the table (without the header row). A row is the list of its
  cells, or the exception that reading it raises. A stale row ends the pass with
  \<^verbatim>\<open>break\<close> (the flag of the result is \<open>False\<close>); a first cell without a link is
  Selenium's \<^verbatim>\<open>NoSuchElementException\<close>; any other exception leaves the pass too.
  \<open>data\<close> is never reset, so a second pass appends to what the first one collected.
\<close>

fun nvidia_pass :: "(exn + td list) list \<Rightarrow> row list \<Rightarrow> exn + (row list \<times> bool)" where
  "nvidia_pass [] data = Inr (data, True)"
| "nvidia_pass (Inl e # rs) data =
     (if e = StaleElementReferenceException then Inr (data, False) else Inl e)"
| "nvidia_pass (Inr cols # rs) data =
     (if 6 \<le> length cols then
        (case td_a (cols ! 0) of
           None \<Rightarrow> Inl WebDriverException
         | Some (title, href) \<Rightarrow> nvidia_pass rs (data @ [nvidia_dict cols title href]))
      else nvidia_pass rs data)"

text \<open>
  \<^verbatim>\<open>for attempt in range(max_attempts)\<close>: \<open>n\<close> attempts are left, the next one is
  attempt \<open>i\<close>, and \<open>attempt i\<close> is what the browser shows then: the exception that finding
  the table or its rows raises, or the rows.
\<close>

fun nvidia_attempts ::
  "(nat \<Rightarrow> exn + (exn + td list) list) \<Rightarrow> nat \<Rightarrow> nat \<Rightarrow> row list \<Rightarrow> exn + row list" where
  "nvidia_attempts attempt 0 i data = Inr data"
| "nvidia_attempts attempt (Suc n) i data =
     (case attempt i of
        Inl e \<Rightarrow>
          if e = StaleElementReferenceException then nvidia_attempts attempt n (Suc i) data
          else Inl e
      | Inr rs \<Rightarrow>
          (case nvidia_pass rs data of
             Inl e \<Rightarrow> Inl e
           | Inr (data', finished) \<Rightarrow>
               if finished then Inr data' else nvidia_attempts attempt n (Suc i) data'))"

text \<open>
  \<open>np_setup\<close> is \<^verbatim>\<open>setup_driver()\<close>, before the \<^verbatim>\<open>try\<close>; \<open>np_wait_body\<close> and
  \<open>np_wait_table\<close> are the waits of 20 and 30 seconds.
\<close>

record nvidia_page =
  np_setup :: "exn option"
  np_get :: "exn option"
  np_wait_body :: "exn option"
  np_wait_table :: "exn option"
  np_attempt :: "nat \<Rightarrow> exn + (exn + td list) list"

definition nvidia_try :: "nvidia_page \<Rightarrow> exn + row list" where
  "nvidia_try page =
     (case np_get page of
        Some e \<Rightarrow> Inl e
      | None \<Rightarrow>
          (case np_wait_body page of
             Some e \<Rightarrow> Inl e
           | None \<Rightarrow>
               (case np_wait_table page of
                  Some e \<Rightarrow> Inl e
                | None \<Rightarrow> nvidia_attempts (np_attempt page) 3 0 [])))"

definition scrape_nvidia :: "nvidia_page \<Rightarrow> exn + row list" where
  "scrape_nvidia page =
     (case np_setup page of
        Some e \<Rightarrow> Inl e
      | None \<Rightarrow> fst (except_webdriver (nvidia_try page, ())))"

section \<open>The Palo Alto scraper (paloalto_scraper.py)\<close>

text \<open>
  What \<^verbatim>\<open>float(s)\<close> returns: a finite value, an infinity or not-a-number; \<open>None\<close>
  stands for its \<^verbatim>\<open>ValueError\<close>. The conversion itself is an argument of the model.
  \<open>float_ge x c\<close> is the comparison \<^verbatim>\<open>x >= c\<close> with a finite constant.
\<close>

datatype pyfloat = Finite rat | PosInf | NegInf | NotANumber

fun float_ge :: "pyfloat \<Rightarrow> rat \<Rightarrow> bool" where
  "float_ge (Finite x) c = (c \<le> x)"
| "float_ge PosInf c = True"
| "float_ge NegInf c = False"
| "float_ge NotANumber c = False"

definition palo_severity :: "(string \<Rightarrow> pyfloat option) \<Rightarrow> string \<Rightarrow> string" where
  "palo_severity float_of cvss_score =
     (if py_lower cvss_score = ''i'' then ''Informational''
      else
        (case float_of cvss_score of
           None \<Rightarrow> ''N/A''
         | Some score \<Rightarrow>
             if float_ge score 9 then ''Critical''
             else if float_ge score 7 then ''High''
             else if float_ge score 4 then ''Medium''
             else ''Low''))"

definition div_texts :: "td \<Rightarrow> string list" where
  "div_texts c = filter (\<lambda>t. t \<noteq> []) (map py_strip (td_divs c))"

definition palo_summary :: "td \<Rightarrow> string" where
  "palo_summary c = (case td_a c of None \<Rightarrow> ''N/A'' | Some (t, h) \<Rightarrow> py_strip t)"

text \<open>
  \<^verbatim>\<open>summary_cell["href"] if summary_cell else "N/A"\<close>, then the site's prefix before a
  link that is not \<open>N/A\<close> and does not start with \<open>http\<close>.
\<close>

definition palo_url :: "td \<Rightarrow> exn + string" where
  "palo_url c =
     (case td_a c of
        None \<Rightarrow> Inr ''N/A''
      | Some (t, None) \<Rightarrow> Inl KeyError
      | Some (t, Some h) \<Rightarrow>
          Inr (if h \<noteq> ''N/A'' \<and> \<not> startswith h ''http''
               then ''https://security.paloaltonetworks.com'' @ h else h))"

text \<open>
  \<^verbatim>\<open>summary.split()[0] if summary.startswith("CVE-") or summary.startswith("PAN-SA-")
  else "N/A"\<close>
\<close>

definition palo_cve_id :: "string \<Rightarrow> exn + string" where
  "palo_cve_id summary =
     (if startswith summary ''CVE-'' \<or> startswith summary ''PAN-SA-'' then
        (case py_split summary of [] \<Rightarrow> Inl IndexError | x # xs \<Rightarrow> Inr x)
      else Inr ''N/A'')"

definition palo_dict ::
  "(string \<Rightarrow> pyfloat option) \<Rightarrow> td list \<Rightarrow> string \<Rightarrow> string \<Rightarrow> row" where
  "palo_dict float_of cols url cve_id =
     (let versions = div_texts (cols ! 2) in
      [(''Product Name'', Str (case versions of [] \<Rightarrow> ''Unknown'' | v # vs \<Rightarrow> v)),
       (''Product Version'',
          Str (if 1 < length versions then py_join '', '' (tl versions) else ''N/A'')),
       (''OEM Name'', Str ''Palo Alto Networks''),
       (''Vulnerability'', Str (palo_summary (cols ! 1))),
       (''Description'', Str cve_id),
       (''Published Date'', Str (py_strip (td_text (cols ! 5)))),
       (''Last Updated'', Str (py_strip (td_text (cols ! 6)))),
       (''Unique ID'', Str cve_id),
       (''URL'', Str url),
       (''Severity Level'', Str (palo_severity float_of (py_strip (td_text (cols ! 0))))),
       (''Affected Versions'', Str (py_join ''; '' (div_texts (cols ! 3)))),
       (''Unaffected Versions'', Str (py_join ''; '' (div_texts (cols ! 4))))])"

text \<open>
  The loop over the rows of the parsed table. The handler of the scraper returns
  \<^verbatim>\<open>pd.DataFrame(data)\<close>, so an exception comes with the records appended before it.
\<close>

fun palo_rows ::
  "(string \<Rightarrow> pyfloat option) \<Rightarrow> td list list \<Rightarrow> row list \<Rightarrow> exn option \<times> row list" where
  "palo_rows float_of [] data = (None, data)"
| "palo_rows float_of (cols # trs) data =
     (if length cols \<noteq> 7 then palo_rows float_of trs data
      else
        (case palo_url (cols ! 1) of
           Inl e \<Rightarrow> (Some e, data)
         | Inr url \<Rightarrow>
             (case palo_cve_id (palo_summary (cols ! 1)) of
                Inl e \<Rightarrow> (Some e, data)
              | Inr cve_id \<Rightarrow>
                  palo_rows float_of trs (data @ [palo_dict float_of cols url cve_id]))))"

section \<open>Sorting, duplicates and dates (the pandas calls)\<close>

text \<open>
  \<^verbatim>\<open>sort_values\<close> is taken as an argument: a sorter gets the key of a record and the
  records. What pandas promises of it is \<open>sorts_ascending\<close> (or \<open>sorts_descending\<close>): the
  result holds the same records and its keys are in order. \<open>stable\<close> is the extra
  property that records with equal keys keep their order, which pandas documents for
  \<^verbatim>\<open>kind='mergesort'\<close> and \<^verbatim>\<open>kind='stable'\<close> and not for the default.
\<close>

type_synonym 'k sorter = "(row \<Rightarrow> 'k) \<Rightarrow> row list \<Rightarrow> row list"

definition sorts_ascending :: "('k::linorder) sorter \<Rightarrow> bool" where
  "sorts_ascending srt = (\<forall>f xs. mset (srt f xs) = mset xs \<and> sorted (map f (srt f xs)))"

definition sorts_descending :: "('k::linorder) sorter \<Rightarrow> bool" where
  "sorts_descending srt =
     (\<forall>f xs. mset (srt f xs) = mset xs \<and> sorted (rev (map f (srt f xs))))"

definition stable :: "'k sorter \<Rightarrow> bool" where
  "stable srt = (\<forall>f xs k. filter (\<lambda>x. f x = k) (srt f xs) = filter (\<lambda>x. f x = k) xs)"

text \<open>
  Two sorters for concrete runs: insertion by key, which is stable, and its mirror image
  for descending order (reverse, sort, reverse: pandas' own way to sort downwards).
\<close>

definition stable_asc :: "('k::linorder) sorter" where
  "stable_asc f xs = sort_key f xs"

definition stable_desc :: "('k::linorder) sorter" where
  "stable_desc f xs = rev (sort_key f (rev xs))"

text \<open>
  What pandas runs by default: \<^verbatim>\<open>sort_values\<close> has \<^verbatim>\<open>kind='quicksort'\<close>, which on a
  column of Python objects is numpy's generic index sort (\<^verbatim>\<open>npy_aquicksort\<close>). The
  model moves the records where numpy moves their indices; \<open>lo\<close> and \<open>hi\<close> are the
  first and the last position of the stretch at work.

  A stretch of more than 16 elements is partitioned: the median of its first, middle and
  last element becomes the pivot and is parked next to the right end, two scans run towards
  each other and swap what stands on the wrong side, and the pivot is put between the parts.
  The smaller part is treated next and the larger one is kept on a stack. A shorter stretch
  is sorted by insertion. A stretch taken from the stack after the depth budget of
  \<open>2 * \<lfloor>log\<^sub>2 n\<rfloor>\<close> partitions is used up goes to heap sort, which is an argument
  of the model.
\<close>

definition swap :: "nat \<Rightarrow> nat \<Rightarrow> 'a list \<Rightarrow> 'a list" where
  "swap i j xs = xs[i := xs ! j, j := xs ! i]"

text \<open>
  The insertion sort of a stretch: \<^verbatim>\<open>while (pj > pl && LT(vp, v[*pk])) *pj-- = *pk--;\<close>
  moves the elements greater than the one taken out one place up, and \<^verbatim>\<open>*pj = vi\<close> puts
  it into the gap.
\<close>

function insert_at :: "('a \<Rightarrow> 'k::linorder) \<Rightarrow> nat \<Rightarrow> nat \<Rightarrow> 'a \<Rightarrow> 'a list \<Rightarrow> 'a list" where
  "insert_at f lo j x xs =
     (if lo < j \<and> f x < f (xs ! (j - 1)) then insert_at f lo (j - 1) x (xs[j := xs ! (j - 1)])
      else xs[j := x])"
  by pat_completeness auto
termination
  by (relation "measure (\<lambda>(f, lo, j, x, xs). j)") auto

declare insert_at.simps [simp del]

function insertion_sort ::
  "('a \<Rightarrow> 'k::linorder) \<Rightarrow> nat \<Rightarrow> nat \<Rightarrow> nat \<Rightarrow> 'a list \<Rightarrow> 'a list" where
  "insertion_sort f lo hi i xs =
     (if i \<le> hi then insertion_sort f lo hi (i + 1) (insert_at f lo i (xs ! i) xs) else xs)"
  by pat_completeness auto
termination
  by (relation "measure (\<lambda>(f, lo, hi, i, xs). hi + 1 - i)") auto

declare insertion_sort.simps [simp del]

text \<open>
  The two scans of the partition, \<^verbatim>\<open>do ++pi; while (LT(v[*pi], vp) && pi < pj);\<close> and
  \<^verbatim>\<open>do --pj; while (LT(vp, v[*pj]) && pi < pj);\<close>, and the loop around them, which ends
  when they have met: \<^verbatim>\<open>if (pi >= pj) break; INTP_SWAP(*pi, *pj);\<close>
\<close>

function scan_up :: "('a \<Rightarrow> 'k::linorder) \<Rightarrow> 'k \<Rightarrow> 'a list \<Rightarrow> nat \<Rightarrow> nat \<Rightarrow> nat" where
  "scan_up f vp xs i j =
     (if f (xs ! (i + 1)) < vp \<and> i + 1 < j then scan_up f vp xs (i + 1) j else i + 1)"
  by pat_completeness auto
termination
  by (relation "measure (\<lambda>(f, vp, xs, i, j). j - i)") auto

declare scan_up.simps [simp del]

function scan_down :: "('a \<Rightarrow> 'k::linorder) \<Rightarrow> 'k \<Rightarrow> 'a list \<Rightarrow> nat \<Rightarrow> nat \<Rightarrow> nat" where
  "scan_down f vp xs i j =
     (if vp < f (xs ! (j - 1)) \<and> i < j - 1 then scan_down f vp xs i (j - 1) else j - 1)"
  by pat_completeness auto
termination
  by (relation "measure (\<lambda>(f, vp, xs, i, j). j)") auto

declare scan_down.simps [simp del]

function hoare ::
  "('a \<Rightarrow> 'k::linorder) \<Rightarrow> 'k \<Rightarrow> 'a list \<Rightarrow> nat \<Rightarrow> nat \<Rightarrow> 'a list \<times> nat" where
  "hoare f vp xs i j =
     (let i' = scan_up f vp xs i j; j' = scan_down f vp xs i' j
      in if j' \<le> i' then (xs, i') else hoare f vp (swap i' j' xs) i' j')"
  by pat_completeness auto
termination
proof (relation "measure (\<lambda>(f, vp, xs, i, j). j - i)")
  show "wf (measure (\<lambda>(f, vp, xs, i, j). j - i))" by simp
next
  fix f :: "'a \<Rightarrow> 'k::linorder" and vp :: 'k and xs :: "'a list" and i j i' j' :: nat
  assume i': "i' = scan_up f vp xs i j" and j': "j' = scan_down f vp xs i' j"
    and lt: "\<not> j' \<le> i'"
  have up: "i < scan_up f vp xs i j"
    by (induction f vp xs i j rule: scan_up.induct) (subst scan_up.simps, auto)
  have down: "scan_down f vp xs i' j \<le> j - 1"
    by (induction f vp xs i' j rule: scan_down.induct) (subst scan_down.simps, auto)
  from up down i' j' lt show "((f, vp, swap i' j' xs, i', j'), (f, vp, xs, i, j))
      \<in> measure (\<lambda>(f, vp, xs, i, j). j - i)"
    by simp
qed


declare hoare.simps [simp del]

text \<open>
  The median of three: three comparisons with a swap each, after which the middle position
  holds the pivot. The pivot is parked at \<open>hi - 1\<close>, the loop runs from \<open>lo\<close> and
  \<open>hi - 1\<close>, and the pivot is swapped to where the upward scan ended.
\<close>

definition median3 :: "('a \<Rightarrow> 'k::linorder) \<Rightarrow> nat \<Rightarrow> nat \<Rightarrow> nat \<Rightarrow> 'a list \<Rightarrow> 'a list" where
  "median3 f lo m hi xs =
     (let xs1 = (if f (xs ! m) < f (xs ! lo) then swap m lo xs else xs);
          xs2 = (if f (xs1 ! hi) < f (xs1 ! m) then swap hi m xs1 else xs1)
      in if f (xs2 ! m) < f (xs2 ! lo) then swap m lo xs2 else xs2)"

definition qs_partition ::
  "('a \<Rightarrow> 'k::linorder) \<Rightarrow> nat \<Rightarrow> nat \<Rightarrow> 'a list \<Rightarrow> 'a list \<times> nat" where
  "qs_partition f lo hi xs =
     (let m = lo + (hi - lo) div 2;
          ys = median3 f lo m hi xs;
          vp = f (ys ! m)
      in case hoare f vp (swap m (hi - 1) ys) lo (hi - 1) of
           (zs, i) \<Rightarrow> (swap i (hi - 1) zs, i))"

text \<open>
  The outer loop with its stack, as a recursion on the two parts. \<open>popped\<close> says that the
  stretch comes from the stack, where \<^verbatim>\<open>if (cdepth < 0)\<close> is tested; the part treated
  next does not pass that test. \<open>msb\<close> is \<^verbatim>\<open>npy_get_msb\<close>.
\<close>

type_synonym ('a, 'k) range_sorter = "('a \<Rightarrow> 'k) \<Rightarrow> nat \<Rightarrow> nat \<Rightarrow> 'a list \<Rightarrow> 'a list"

function quick_range ::
  "('a, 'k::linorder) range_sorter \<Rightarrow> ('a \<Rightarrow> 'k) \<Rightarrow> bool \<Rightarrow> int \<Rightarrow> nat \<Rightarrow> nat \<Rightarrow> 'a list
     \<Rightarrow> 'a list" where
  "quick_range heap f popped depth lo hi xs =
     (if popped \<and> depth < 0 then heap f lo hi xs
      else if 15 < hi - lo then
        (case qs_partition f lo hi xs of
           (ys, i) \<Rightarrow>
             if i - lo < hi - i then
               quick_range heap f True (depth - 1) (i + 1) hi
                 (quick_range heap f False (depth - 1) lo (i - 1) ys)
             else
               quick_range heap f True (depth - 1) lo (i - 1)
                 (quick_range heap f False (depth - 1) (i + 1) hi ys))
      else insertion_sort f lo hi (lo + 1) xs)"
  by pat_completeness auto
termination
proof -
  have up_lo: "i < scan_up f vp xs i j" for f :: "'a \<Rightarrow> 'k::linorder" and vp xs i j
    by (induction f vp xs i j rule: scan_up.induct) (subst scan_up.simps, auto)
  have up_hi: "i < j \<Longrightarrow> scan_up f vp xs i j \<le> j"
    for f :: "'a \<Rightarrow> 'k::linorder" and vp xs i j
    by (induction f vp xs i j rule: scan_up.induct) (subst scan_up.simps, auto)
  have down_hi: "scan_down f vp xs i j \<le> j - 1"
    for f :: "'a \<Rightarrow> 'k::linorder" and vp xs i j
    by (induction f vp xs i j rule: scan_down.induct) (subst scan_down.simps, auto)
  have bounds: "i < j \<Longrightarrow> i < snd (hoare f vp xs i j) \<and> snd (hoare f vp xs i j) \<le> j"
    for f :: "'a \<Rightarrow> 'k::linorder" and vp xs i j
  proof (induction f vp xs i j rule: hoare.induct)
    case (1 f vp xs i j)
    let ?i = "scan_up f vp xs i j"
    let ?j = "scan_down f vp xs ?i j"
    show ?case
    proof (cases "?j \<le> ?i")
      case True
      then have "hoare f vp xs i j = (xs, ?i)"
        using hoare.simps [of f vp xs i j] by (simp add: Let_def)
      with up_lo [of i f vp xs j] up_hi [OF "1.prems", of f vp xs] show ?thesis by simp
    next
      case False
      then have h: "hoare f vp xs i j = hoare f vp (swap ?i ?j xs) ?i ?j"
        using hoare.simps [of f vp xs i j] by (simp add: Let_def)
      from False have lt: "?i < ?j" by simp
      from "1.IH" [OF refl refl False lt]
      have r: "?i < snd (hoare f vp (swap ?i ?j xs) ?i ?j)"
          "snd (hoare f vp (swap ?i ?j xs) ?i ?j) \<le> ?j"
        by simp_all
      from down_hi [of f vp xs ?i j] have "?j \<le> j" by simp
      with r(2) have "snd (hoare f vp (swap ?i ?j xs) ?i ?j) \<le> j" by (rule order_trans)
      moreover from up_lo [of i f vp xs j] r(1)
      have "i < snd (hoare f vp (swap ?i ?j xs) ?i ?j)" by (rule less_trans)
      ultimately show ?thesis by (simp only: h)
    qed
  qed
  have part: "hi - Suc y < hi - lo \<and> y - Suc lo < hi - lo"
    if "15 < hi - lo" and "(x, y) = qs_partition f lo hi xs"
    for f :: "'a \<Rightarrow> 'k::linorder" and lo hi xs x y
  proof -
    let ?m = "lo + (hi - lo) div 2"
    let ?ys = "median3 f lo ?m hi xs"
    let ?r = "snd (hoare f (f (?ys ! ?m)) (swap ?m (hi - 1) ?ys) lo (hi - 1))"
    from that(1) have lt: "lo < hi - 1" by simp
    have "snd (qs_partition f lo hi xs) = ?r"
      by (simp add: qs_partition_def Let_def split: prod.split)
    with that(2) [symmetric] have y: "y = ?r" by simp
    from bounds [OF lt, of f "f (?ys ! ?m)" "swap ?m (hi - 1) ?ys"]
    have "lo < ?r" "?r \<le> hi - 1" by simp_all
    with y have "lo < y" "y \<le> hi - 1" by simp_all
    with that(1) show ?thesis by arith
  qed
  note p1 = part [THEN conjunct1] and p2 = part [THEN conjunct2]
  show ?thesis
    by (relation "measure (\<lambda>(heap, f, popped, depth, lo, hi, xs). hi - lo)")
       (auto intro: p1 p2)
qed

declare quick_range.simps [simp del]

fun msb :: "nat \<Rightarrow> nat" where
  "msb n = (if n < 2 then 0 else Suc (msb (n div 2)))"

definition np_quicksort :: "('a, 'k::linorder) range_sorter \<Rightarrow> ('a \<Rightarrow> 'k) \<Rightarrow> 'a list \<Rightarrow> 'a list" where
  "np_quicksort heap f xs =
     (if xs = [] then []
      else quick_range heap f False (2 * int (msb (length xs))) 0 (length xs - 1) xs)"

text \<open>
  \<^verbatim>\<open>pd.to_datetime(column, errors='coerce')\<close>: the parser is an argument too. It sees
  the whole column, since pandas may settle on one format for all of it, and reads a text
  as a point in time or not at all.
\<close>

type_synonym date_parser = "cell list \<Rightarrow> string \<Rightarrow> int option"

record pylib =
  lib_float :: "string \<Rightarrow> pyfloat option"
  lib_sort_text :: "string sorter"
  lib_sort_text_desc :: "string sorter"
  lib_sort_time_desc :: "int sorter"
  lib_parse :: date_parser

definition col :: "string \<Rightarrow> row \<Rightarrow> cell" where
  "col k r = (case map_of r k of None \<Rightarrow> PyNone | Some c \<Rightarrow> c)"

definition text_key :: "string \<Rightarrow> row \<Rightarrow> string" where
  "text_key k r = (case col k r of Str s \<Rightarrow> s | _ \<Rightarrow> [])"

definition time_key :: "string \<Rightarrow> row \<Rightarrow> int" where
  "time_key k r = (case col k r of Timestamp t \<Rightarrow> t | _ \<Rightarrow> 0)"

fun is_text :: "cell \<Rightarrow> bool" where
  "is_text (Str s) = True"
| "is_text c = False"

fun is_time :: "cell \<Rightarrow> bool" where
  "is_time (Timestamp t) = True"
| "is_time c = False"

fun is_null :: "cell \<Rightarrow> bool" where
  "is_null NaT = True"
| "is_null PyNone = True"
| "is_null c = False"

text \<open>
  \<^verbatim>\<open>drop_duplicates(subset=[k], keep="first")\<close>: a record is kept when no record before
  it has its key.
\<close>

fun drop_duplicates_seen :: "('a \<Rightarrow> 'k) \<Rightarrow> 'k list \<Rightarrow> 'a list \<Rightarrow> 'a list" where
  "drop_duplicates_seen key seen [] = []"
| "drop_duplicates_seen key seen (x # xs) =
     (if key x \<in> set seen then drop_duplicates_seen key seen xs
      else x # drop_duplicates_seen key (key x # seen) xs)"

definition drop_duplicates :: "('a \<Rightarrow> 'k) \<Rightarrow> 'a list \<Rightarrow> 'a list" where
  "drop_duplicates key xs = drop_duplicates_seen key [] xs"

definition to_datetime :: "date_parser \<Rightarrow> cell list \<Rightarrow> cell list" where
  "to_datetime parse column =
     map (\<lambda>c. case c of
                 Str s \<Rightarrow> (case parse column s of None \<Rightarrow> NaT | Some t \<Rightarrow> Timestamp t)
               | Timestamp t \<Rightarrow> Timestamp t
               | NaT \<Rightarrow> NaT
               | PyNone \<Rightarrow> NaT) column"

text \<open>\<open>set_col k v r\<close> is the record \<open>r\<close> after its cell in column \<open>k\<close> is set to \<open>v\<close>.\<close>

definition set_col :: "string \<Rightarrow> cell \<Rightarrow> row \<Rightarrow> row" where
  "set_col k v r =
     (if k \<in> set (map fst r) then map (\<lambda>kc. if fst kc = k then (k, v) else kc) r
      else r @ [(k, v)])"

text \<open>\<^verbatim>\<open>df[k] = pd.to_datetime(df[k], errors='coerce')\<close>\<close>

definition assign_datetime :: "date_parser \<Rightarrow> string \<Rightarrow> row list \<Rightarrow> row list" where
  "assign_datetime parse k rows =
     map2 (set_col k) (to_datetime parse (map (col k) rows)) rows"

text \<open>
  \<^verbatim>\<open>sort_values(by=k, ascending=False)\<close> on a column of time stamps: the records with a
  time stamp in order, then those with \<^verbatim>\<open>NaT\<close> as they stood (\<^verbatim>\<open>na_position='last'\<close>).
\<close>

definition sort_values_desc :: "int sorter \<Rightarrow> string \<Rightarrow> row list \<Rightarrow> row list" where
  "sort_values_desc srt k rows =
     srt (time_key k) (filter (\<lambda>r. is_time (col k r)) rows)
       @ filter (\<lambda>r. \<not> is_time (col k r)) rows"

text \<open>
  The same call on a column nobody converted: texts are compared as texts, time stamps as
  time stamps, and comparing one with the other is a \<^verbatim>\<open>TypeError\<close>.
\<close>

definition sort_column_desc :: "pylib \<Rightarrow> string \<Rightarrow> row list \<Rightarrow> exn + row list" where
  "sort_column_desc lib k rows =
     (let vals = filter (\<lambda>r. \<not> is_null (col k r)) rows;
          nulls = filter (\<lambda>r. is_null (col k r)) rows
      in if \<forall>r \<in> set vals. is_text (col k r)
           then Inr (lib_sort_text_desc lib (text_key k) vals @ nulls)
         else if \<forall>r \<in> set vals. is_time (col k r)
           then Inr (lib_sort_time_desc lib (time_key k) vals @ nulls)
         else Inl TypeError)"

section \<open>The Palo Alto scraper: the run and the final table\<close>

text \<open>
  \<open>pp_start\<close> is the start of the browser and the navigation (inside the \<^verbatim>\<open>try\<close>
  here); \<open>pp_wait_table\<close> says whether the wait of 60 seconds found the table, and
  \<open>pp_fallback_table\<close> what \<^verbatim>\<open>find_elements\<close> finds after the sleep of 30 seconds that
  follows a failed wait; the same for the rows; \<open>pp_scroll\<close> is the scroll script,
  \<open>pp_debug\<close> the screen shot, the console log and the page dump; \<open>pp_soup\<close> is the
  table of the parsed page, if there is one: its \<^verbatim>\<open>tbody\<close>s, each the list of its rows,
  each the list of its cells. The "Load More" loop swallows every exception and only
  changes what the page holds afterwards.
\<close>

record palo_page =
  pp_start :: "exn option"
  pp_wait_table :: bool
  pp_fallback_table :: "exn + bool"
  pp_scroll :: "exn option"
  pp_wait_rows :: bool
  pp_fallback_rows :: "exn + bool"
  pp_debug :: "exn option"
  pp_soup :: "td list list list option"

text \<open>The exception, if any, on the way from the start to the parsed page.\<close>

definition palo_browse :: "palo_page \<Rightarrow> exn option" where
  "palo_browse page =
     (case pp_start page of
        Some e \<Rightarrow> Some e
      | None \<Rightarrow>
          (case (if pp_wait_table page then Inr True else pp_fallback_table page) of
             Inl e \<Rightarrow> Some e
           | Inr found \<Rightarrow>
               if \<not> found then Some PyException
               else
                 (case pp_scroll page of
                    Some e \<Rightarrow> Some e
                  | None \<Rightarrow>
                      (case (if pp_wait_rows page then Inr True else pp_fallback_rows page) of
                         Inl e \<Rightarrow> Some e
                       | Inr found' \<Rightarrow>
                           if \<not> found' then Some PyException else pp_debug page))))"

text \<open>
  The four statements on a table that is not empty: sort by \<open>Unique ID\<close>, keep the first
  record of every \<open>Unique ID\<close>, turn \<open>Published Date\<close> into time stamps, sort by it
  downwards. Every record of this scraper has a text as \<open>Unique ID\<close>.
\<close>

definition palo_dedup :: "string sorter \<Rightarrow> row list \<Rightarrow> row list" where
  "palo_dedup srt data =
     drop_duplicates (text_key ''Unique ID'') (srt (text_key ''Unique ID'') data)"

definition palo_frame :: "pylib \<Rightarrow> row list \<Rightarrow> row list" where
  "palo_frame lib data =
     sort_values_desc (lib_sort_time_desc lib) ''Published Date''
       (assign_datetime (lib_parse lib) ''Published Date''
          (palo_dedup (lib_sort_text lib) data))"

definition scrape_palo_alto :: "pylib \<Rightarrow> palo_page \<Rightarrow> exn + row list" where
  "scrape_palo_alto lib page =
     (case palo_browse page of
        Some e \<Rightarrow> Inr []
      | None \<Rightarrow>
          (case pp_soup page of
             None \<Rightarrow> Inr []
           | Some tbodies \<Rightarrow>
               if tbodies = [] then Inr []
               else if concat tbodies = [] then Inr []
               else
                 (case palo_rows (lib_float lib) (concat tbodies) [] of
                    (Some e, data) \<Rightarrow> Inr data
                  | (None, data) \<Rightarrow> Inr (if data = [] then [] else palo_frame lib data))))"

section \<open>The query bots (cisco_queries.py, nvidia_queries.py, palo_alto_queries.py)\<close>

text \<open>
  The table a bot is handed: its column labels and its records. A bot returns a table or
  raises, and it may assign to the table it was handed: the model returns the answer and
  that table as it is after the call.

  Each bot tries its rules in order. The rules after "latest" (severity, product, URL or
  CVE, year, versions) only read the table, through masks and regular expressions; they
  are the argument \<open>later\<close> of the model.
\<close>

record frame =
  df_columns :: "string list"
  df_records :: "row list"

definition clean_text :: "string \<Rightarrow> string" where
  "clean_text t = py_strip (py_lower t)"

definition missing_columns :: "string list \<Rightarrow> frame \<Rightarrow> string list" where
  "missing_columns required df = filter (\<lambda>c. c \<notin> set (df_columns df)) required"

text \<open>\<^verbatim>\<open>pd.DataFrame([{"Response": msg}])\<close>\<close>

definition response :: "string \<Rightarrow> frame" where
  "response msg = \<lparr>df_columns = [''Response''], df_records = [[(''Response'', Str msg)]]\<rparr>"

text \<open>The cross mark that opens the message, in UTF-8.\<close>

definition cross_mark :: string where
  "cross_mark = [CHR 0xE2, CHR 0x9D, CHR 0x8C]"

definition missing_message :: "string list \<Rightarrow> string" where
  "missing_message missing =
     cross_mark @ '' Missing required columns: '' @ py_join '', '' missing @ ''.''"

definition asks_latest :: "string \<Rightarrow> bool" where
  "asks_latest question = (py_in ''latest'' question \<or> py_in ''recent'' question)"

definition latest_n :: "string \<Rightarrow> nat" where
  "latest_n question =
     (if py_in ''10'' question then 10 else if py_in ''5'' question then 5 else 5)"

definition cisco_required :: "string list" where
  "cisco_required =
     [''oem_name'', ''vulnerability'', ''severity'', ''url'', ''last_updated'',
      ''severity_level'']"

definition nvidia_required :: "string list" where
  "nvidia_required =
     [''title'', ''bulletin_id'', ''severity'', ''cve_identifier(s)'', ''publish_date'',
      ''last_updated'', ''url'', ''severity_level'']"

definition palo_alto_required :: "string list" where
  "palo_alto_required =
     [''product_name'', ''vulnerability'', ''published_date'', ''severity_level'',
      ''unique_id'', ''affected_versions'', ''unaffected_versions'']"

text \<open>
  The Cisco and the Palo Alto bot are the same up to the rule "latest", but for the required
  columns and the date column: \<open>last_updated\<close> for Cisco, \<open>published_date\<close> for Palo Alto.
\<close>

definition dated_bot ::
  "string list \<Rightarrow> string \<Rightarrow> pylib \<Rightarrow> (string \<Rightarrow> frame \<Rightarrow> exn + frame) \<Rightarrow> string \<Rightarrow> frame
     \<Rightarrow> (exn + frame) \<times> frame" where
  "dated_bot required date_col lib later question df =
     (let q = clean_text question; missing = missing_columns required df in
      if missing \<noteq> [] then (Inr (response (missing_message missing)), df)
      else
        (let df' = df\<lparr>df_records := assign_datetime (lib_parse lib) date_col (df_records df)\<rparr>
         in if asks_latest q then
              (Inr (df'\<lparr>df_records :=
                         take (latest_n q)
                           (sort_values_desc (lib_sort_time_desc lib) date_col
                              (df_records df'))\<rparr>), df')
            else (later q df', df')))"

definition query_cisco_bot ::
  "pylib \<Rightarrow> (string \<Rightarrow> frame \<Rightarrow> exn + frame) \<Rightarrow> string \<Rightarrow> frame \<Rightarrow> (exn + frame) \<times> frame" where
  "query_cisco_bot = dated_bot cisco_required ''last_updated''"

definition query_palo_alto_bot ::
  "pylib \<Rightarrow> (string \<Rightarrow> frame \<Rightarrow> exn + frame) \<Rightarrow> string \<Rightarrow> frame \<Rightarrow> (exn + frame) \<times> frame" where
  "query_palo_alto_bot = dated_bot palo_alto_required ''published_date''"

text \<open>
  The NVIDIA bot assigns nothing and sorts \<open>publish_date\<close> as it finds it. Its message
  has a second sentence.
\<close>

definition query_nvidia_bot ::
  "pylib \<Rightarrow> (string \<Rightarrow> frame \<Rightarrow> exn + frame) \<Rightarrow> string \<Rightarrow> frame \<Rightarrow> (exn + frame) \<times> frame" where
  "query_nvidia_bot lib later question df =
     (let q = clean_text question; missing = missing_columns nvidia_required df in
      if missing \<noteq> [] then
        (Inr (response (missing_message missing
                          @ '' Please ensure the data includes these columns.'')), df)
      else if asks_latest q then
        (case sort_column_desc lib ''publish_date'' (df_records df) of
           Inl e \<Rightarrow> (Inl e, df)
         | Inr rs \<Rightarrow> (Inr (df\<lparr>df_records := take (latest_n q) rs\<rparr>), df))
      else (later q df, df))"

section \<open>Sample runs\<close>

text \<open>
  Concrete pages, answers and tables on which the theorems below are instantiated. The
  library functions of a sample run: \<^verbatim>\<open>float\<close> and the date parser know the few texts
  the samples use, and the sorters are the stable ones.
\<close>

definition sample_lib :: pylib where
  "sample_lib =
     \<lparr>lib_float = map_of [(''9.3'', Finite (93 / 10)), (''8.8'', Finite (88 / 10)),
                          (''5.1'', Finite (51 / 10)), (''2.0'', Finite 2),
                          (''inf'', PosInf), (''-inf'', NegInf), (''nan'', NotANumber)],
      lib_sort_text = stable_asc,
      lib_sort_text_desc = stable_desc,
      lib_sort_time_desc = stable_desc,
      lib_parse = (\<lambda>column. map_of [(''2025-05-08'', 20250508), (''2025-05-07'', 20250507),
                                     (''2025-04-09'', 20250409)])\<rparr>"

text \<open>An answer of the NVD service with one record, and a network that always gives it.\<close>

definition sample_answer :: json where
  "sample_answer =
     JDict [(''vulnerabilities'', JList [JDict [(''cve'',
        JDict [(''metrics'', JDict [(''cvssMetricV31'', JList [JDict [(''cvssData'',
                  JDict [(''baseScore'', JNum (98 / 10)),
                         (''baseSeverity'', JStr ''CRITICAL'')])]])]),
               (''descriptions'', JList [JDict [(''lang'', JStr ''en''),
                  (''value'', JStr ''A flaw in the web UI.'')]])])]])]"

definition sample_net :: network where
  "sample_net = (\<lambda>reqs url. Response 200 (Some sample_answer))"

text \<open>A Cisco listing of two advisories that share their first CVE.\<close>

definition sample_cisco_page :: cisco_page where
  "sample_cisco_page =
     \<lparr>cp_setup = None, cp_get = None, cp_wait = None,
      cp_rows = Inr
        [\<lparr>ctr_advisory = Some (''Advisory A'', Some ''https://sec.example/a''),
          ctr_impact = Some ''Critical'', ctr_cve = Some ''CVE-2025-20188'',
          ctr_updated = Some (''2025 May 08'', None), ctr_version = Some ''1.0''\<rparr>,
         \<lparr>ctr_advisory = Some (''Advisory B'', Some ''https://sec.example/b''),
          ctr_impact = Some ''Critical'', ctr_cve = Some ''CVE-2025-20188 CVE-2025-20189'',
          ctr_updated = Some (''2025 May 07'', None), ctr_version = Some ''1.0''\<rparr>]\<rparr>"

definition plain_td :: "string \<Rightarrow> td" where
  "plain_td t = \<lparr>td_text = t, td_a = None, td_divs = [], td_data = None\<rparr>"

definition link_td :: "string \<Rightarrow> string \<Rightarrow> td" where
  "link_td t h = \<lparr>td_text = t, td_a = Some (t, Some h), td_divs = [], td_data = None\<rparr>"

definition divs_td :: "string list \<Rightarrow> td" where
  "divs_td ds = \<lparr>td_text = concat ds, td_a = None, td_divs = ds, td_data = None\<rparr>"

text \<open>An Intel listing: one advisory, and one row with three cells only.\<close>

definition sample_intel_page :: intel_page where
  "sample_intel_page =
     \<lparr>ip_setup = None, ip_get = None, ip_wait_body = None,
      ip_view_all = Some TimeoutException, ip_ready = None,
      ip_rows =
        [[link_td ''Intel Graphics Advisory'' ''/content/www/us/en/security-center/a.html'',
          plain_td ''INTEL-SA-01259 CVE-2025-20101'', plain_td ''May 13, 2025'',
          plain_td ''May 13, 2025''],
         [plain_td ''x'', plain_td ''y'', plain_td ''z'']]\<rparr>"

definition sample_dell_page :: dell_page where
  "sample_dell_page =
     \<lparr>dp_start = None, dp_get = None, dp_select = None,
      dp_rows =
        [[\<lparr>dtd_badge = Some ''Custom impact text'', dtd_link = None, dtd_ellipses = None,
           dtd_named = None\<rparr>,
          \<lparr>dtd_badge = None, dtd_link = Some (''DSA-2025-101'', Some ''/support/kbdoc/1''),
           dtd_ellipses = None, dtd_named = None\<rparr>,
          \<lparr>dtd_badge = None, dtd_link = None, dtd_ellipses = None, dtd_named = None\<rparr>,
          \<lparr>dtd_badge = None, dtd_link = None, dtd_ellipses = Some ''N/A'',
           dtd_named = None\<rparr>,
          \<lparr>dtd_badge = None, dtd_link = None, dtd_ellipses = None,
           dtd_named = Some ''MAY 08 2025''\<rparr>,
          \<lparr>dtd_badge = None, dtd_link = None, dtd_ellipses = None,
           dtd_named = Some ''MAY 09 2025''\<rparr>]]\<rparr>"

definition sample_adobe_page :: adobe_page where
  "sample_adobe_page =
     \<lparr>ap_start = None, ap_get = None, ap_wait = None,
      ap_acrobat = Inr [Inr [''APSB25-14 Acrobat'', ''03/11/2025'', ''03/11/2025'']],
      ap_h4 = Inr [\<lparr>as_name = Inr ''Adobe Commerce'',
                    as_rows = Inr [Inr [''APSB25-26 Commerce'', ''04/08/2025'',
                                        ''04/08/2025'']]\<rparr>]\<rparr>"


text \<open>
  An NVIDIA table of three bulletins: the severity cells hold the vendor's special token
  (as attribute), \<open>High\<close> and a word outside the list.
\<close>

definition nvidia_tr :: "string \<Rightarrow> string option \<Rightarrow> string \<Rightarrow> td list" where
  "nvidia_tr title sev_data sev_text =
     [link_td title ''https://nvidia.custhelp.com/app/answers/detail/a_id/5648'',
      plain_td ''5648'',
      \<lparr>td_text = sev_text, td_a = None, td_divs = [], td_data = sev_data\<rparr>,
      plain_td ''CVE-2025-23254'', plain_td ''29 Apr 2025'', plain_td ''29 Apr 2025'']"

definition sample_nvidia_page :: nvidia_page where
  "sample_nvidia_page =
     \<lparr>np_setup = None, np_get = None, np_wait_body = None, np_wait_table = None,
      np_attempt = (\<lambda>i. Inr
        [Inr (nvidia_tr ''Bulletin A'' (Some ''NVIDIA products are not affected'') ''''),
         Inr (nvidia_tr ''Bulletin B'' None ''High''),
         Inr (nvidia_tr ''Bulletin C'' None ''Severe'')])\<rparr>"

text \<open>
  A Palo Alto table of three advisories: the older one stands first on the page, and the
  third repeats the identifier of the second under another title.
\<close>

definition palo_tr :: "string \<Rightarrow> string \<Rightarrow> string \<Rightarrow> td list" where
  "palo_tr cvss summary published =
     [plain_td cvss, link_td summary ''/CVE-2025-0128'',
      divs_td [''PAN-OS'', ''11.2''], divs_td [''< 11.2.3''], divs_td [''>= 11.2.3''],
      plain_td published, plain_td published]"

definition sample_palo_page :: palo_page where
  "sample_palo_page =
     \<lparr>pp_start = None, pp_wait_table = True, pp_fallback_table = Inr False,
      pp_scroll = None, pp_wait_rows = True, pp_fallback_rows = Inr False,
      pp_debug = None,
      pp_soup = Some [[palo_tr ''5.1'' ''CVE-2025-0120 Privilege escalation'' ''2025-04-09'',
                       palo_tr ''8.8'' ''CVE-2025-0128 Denial of service'' ''2025-05-08'',
                       palo_tr ''I'' ''CVE-2025-0128 Bulletin'' ''2025-05-07'']]\<rparr>"

text \<open>
  The same table with a second row whose link has no \<^verbatim>\<open>href\<close>: reading it raises in
  the middle of the rows.
\<close>

definition link_no_href :: "string \<Rightarrow> td" where
  "link_no_href t = \<lparr>td_text = t, td_a = Some (t, None), td_divs = [], td_data = None\<rparr>"

definition broken_palo_page :: palo_page where
  "broken_palo_page =
     sample_palo_page
       \<lparr>pp_soup :=
          Some [[palo_tr ''5.1'' ''CVE-2025-0120 Privilege escalation'' ''2025-04-09'',
                 (palo_tr ''8.8'' ''CVE-2025-0128 Denial of service'' ''2025-05-08'')
                   [1 := link_no_href ''CVE-2025-0128 Denial of service''],
                 palo_tr ''I'' ''CVE-2025-0128 Bulletin'' ''2025-05-07'']]\<rparr>"

text \<open>
  An Intel listing whose cells hold no-break spaces (\<^verbatim>\<open>&nbsp;\<close>, U+00A0): around the
  title, and between the advisory number and the CVE identifier.
\<close>

definition nbsp :: string where
  "nbsp = [CHR 0xC2, CHR 0xA0]"

definition nbsp_intel_page :: intel_page where
  "nbsp_intel_page =
     sample_intel_page
       \<lparr>ip_rows :=
          [[link_td (nbsp @ ''Intel Graphics Advisory'' @ nbsp)
              ''/content/www/us/en/security-center/a.html'',
            plain_td (''INTEL-SA-01259'' @ nbsp @ ''CVE-2025-20101''),
            plain_td ''May 13, 2025'', plain_td ''May 13, 2025'']]\<rparr>"

text \<open>
  Two harvested Palo Alto records with one identifier, the first occurrence first.
\<close>

definition first_record :: row where
  "first_record = [(''Unique ID'', Str ''CVE-2025-0128''), (''Vulnerability'', Str ''first'')]"

definition second_record :: row where
  "second_record = [(''Unique ID'', Str ''CVE-2025-0128''), (''Vulnerability'', Str ''second'')]"

text \<open>
  A harvest of 18 records, newest identifier first as the vendor lists them: the first two
  share their identifier. The heap sort of a sample run sorts its stretch by insertion.
\<close>

definition other_record :: "string \<Rightarrow> row" where
  "other_record uid = [(''Unique ID'', Str uid), (''Vulnerability'', Str ''other'')]"

definition harvest18 :: "row list" where
  "harvest18 =
     first_record # second_record #
     map other_record
       [''CVE-2025-0127'', ''CVE-2025-0126'', ''CVE-2025-0125'', ''CVE-2025-0124'',
        ''CVE-2025-0123'', ''CVE-2025-0122'', ''CVE-2025-0121'', ''CVE-2025-0120'',
        ''CVE-2025-0119'', ''CVE-2025-0118'', ''CVE-2025-0117'', ''CVE-2025-0116'',
        ''CVE-2025-0115'', ''CVE-2025-0114'', ''CVE-2025-0113'', ''CVE-2025-0112'']"

definition sample_heap :: "(row, string) range_sorter" where
  "sample_heap f lo hi xs =
     take lo xs @ sort_key f (take (hi + 1 - lo) (drop lo xs)) @ drop (hi + 1) xs"

text \<open>
  Tables for the bots, with the dates of the specification's example in the date column:
  2025-05-07, 2025-05-08, N/A, 2025-05-07.
\<close>

definition cisco_record :: "string \<Rightarrow> string \<Rightarrow> string \<Rightarrow> row" where
  "cisco_record title sev updated =
     [(''oem_name'', Str ''Cisco''), (''vulnerability'', Str title), (''severity'', Str sev),
      (''url'', Str ''https://sec.cloudapps.cisco.com/security/center/x''),
      (''last_updated'', Str updated), (''severity_level'', Str (py_lower sev))]"

definition sample_cisco_frame :: frame where
  "sample_cisco_frame =
     \<lparr>df_columns = cisco_required,
      df_records =
        [cisco_record ''Advisory A'' ''Critical'' ''2025-05-07'',
         cisco_record ''Advisory B'' ''Medium'' ''2025-05-08'',
         cisco_record ''Advisory C'' ''High'' ''N/A'',
         cisco_record ''Advisory D'' ''High'' ''2025-05-07'']\<rparr>"

definition nvidia_record :: "string \<Rightarrow> string \<Rightarrow> row" where
  "nvidia_record title published =
     [(''title'', Str title), (''bulletin_id'', Str ''5648''), (''severity'', Str ''High''),
      (''cve_identifier(s)'', Str ''CVE-2025-23254''), (''publish_date'', Str published),
      (''last_updated'', Str published),
      (''url'', Str ''https://nvidia.custhelp.com/app/answers/detail/a_id/5648''),
      (''severity_level'', Str ''high'')]"

definition sample_nvidia_frame :: frame where
  "sample_nvidia_frame =
     \<lparr>df_columns = nvidia_required,
      df_records =
        [nvidia_record ''Bulletin A'' ''2025-05-07'',
         nvidia_record ''Bulletin B'' ''2025-05-08'',
         nvidia_record ''Bulletin C'' ''N/A'',
         nvidia_record ''Bulletin D'' ''2025-05-07'']\<rparr>"

text \<open>The later rules of a sample run answer with the table itself.\<close>

definition sample_later :: "string \<Rightarrow> frame \<Rightarrow> exn + frame" where
  "sample_later q df = Inr df"

text \<open>A table with two columns only: every bot misses required columns in it.\<close>

definition narrow_frame :: frame where
  "narrow_frame =
     \<lparr>df_columns = [''title'', ''url''],
      df_records =
        [[(''title'', Str ''Bulletin A''),
          (''url'', Str ''https://nvidia.custhelp.com/app/answers/detail/a_id/5648'')]]\<rparr>"

section \<open>Properties of the NVD client\<close>

lemma fetch_nvd_data_cases:
  "fst (fetch_nvd_data key net cve_id reqs) =
     Inr (if key = [] then na_triple
          else (case nvd_request (net reqs (nvd_url cve_id)) of
                  Inl e \<Rightarrow> na_triple | Inr r \<Rightarrow> r))"
  by (simp add: fetch_nvd_data_def split: sum.split)

lemma nvd_parse_absent:
  "map_of kvs ''vulnerabilities'' = None \<or> map_of kvs ''vulnerabilities'' = Some (JList [])
     \<Longrightarrow> nvd_parse (JDict kvs) = Inr na_triple"
proof (cases "map_of kvs ''vulnerabilities''")
  case None
  then have "''vulnerabilities'' \<notin> set (map fst kvs)"
    by (simp add: map_of_eq_None_iff)
  then show ?thesis
    by (simp add: nvd_parse_def bind_exn_def)
next
  case (Some v)
  assume "map_of kvs ''vulnerabilities'' = None \<or> map_of kvs ''vulnerabilities'' = Some (JList [])"
  with Some have v: "v = JList []" by simp
  from Some have "''vulnerabilities'' \<in> set (map fst kvs)"
    by (metis map_of_eq_None_iff option.distinct(1) set_map)
  with Some v show ?thesis
    by (simp add: nvd_parse_def bind_exn_def)
qed

text \<open>
  C4. The lookup never raises, and every failure ends in the triple of \<open>N/A\<close>: no API
  key (then no request is made either), no answer from the network, an error status (a rate
  limit is 403 or 429), a body that is not JSON, and an answer without a record.
\<close>

theorem fetch_nvd_data_fails_soft:
  "(\<exists>r. fst (fetch_nvd_data key net cve_id reqs) = Inr r) \<and>
   (key = [] \<longrightarrow> fetch_nvd_data key net cve_id reqs = (Inr na_triple, reqs)) \<and>
   (key \<noteq> [] \<and> net reqs (nvd_url cve_id) = RequestFailed \<longrightarrow>
      fst (fetch_nvd_data key net cve_id reqs) = Inr na_triple) \<and>
   (key \<noteq> [] \<and> net reqs (nvd_url cve_id) = Response st body \<and> 400 \<le> st \<and> st < 600 \<longrightarrow>
      fst (fetch_nvd_data key net cve_id reqs) = Inr na_triple) \<and>
   (key \<noteq> [] \<and> net reqs (nvd_url cve_id) = Response st None \<longrightarrow>
      fst (fetch_nvd_data key net cve_id reqs) = Inr na_triple) \<and>
   (key \<noteq> [] \<and> net reqs (nvd_url cve_id) = Response st (Some (JDict kvs)) \<and>
    (map_of kvs ''vulnerabilities'' = None \<or> map_of kvs ''vulnerabilities'' = Some (JList []))
      \<longrightarrow> fst (fetch_nvd_data key net cve_id reqs) = Inr na_triple)"
proof -
  have total: "\<exists>r. fst (fetch_nvd_data key net cve_id reqs) = Inr r"
    by (simp add: fetch_nvd_data_cases)
  have nokey: "key = [] \<longrightarrow> fetch_nvd_data key net cve_id reqs = (Inr na_triple, reqs)"
    by (simp add: fetch_nvd_data_def)
  have failed: "key \<noteq> [] \<and> net reqs (nvd_url cve_id) = RequestFailed \<longrightarrow>
      fst (fetch_nvd_data key net cve_id reqs) = Inr na_triple"
    by (simp add: fetch_nvd_data_cases nvd_request_def)
  have status: "key \<noteq> [] \<and> net reqs (nvd_url cve_id) = Response st body \<and> 400 \<le> st \<and> st < 600 \<longrightarrow>
      fst (fetch_nvd_data key net cve_id reqs) = Inr na_triple"
    by (simp add: fetch_nvd_data_cases nvd_request_def)
  have nojson: "key \<noteq> [] \<and> net reqs (nvd_url cve_id) = Response st None \<longrightarrow>
      fst (fetch_nvd_data key net cve_id reqs) = Inr na_triple"
    by (simp add: fetch_nvd_data_cases nvd_request_def)
  have absent: "key \<noteq> [] \<and> net reqs (nvd_url cve_id) = Response st (Some (JDict kvs)) \<and>
    (map_of kvs ''vulnerabilities'' = None \<or> map_of kvs ''vulnerabilities'' = Some (JList []))
      \<longrightarrow> fst (fetch_nvd_data key net cve_id reqs) = Inr na_triple"
    by (auto simp add: fetch_nvd_data_cases nvd_request_def nvd_parse_absent)
  from total nokey failed status nojson absent show ?thesis by blast
qed

theorem fetch_nvd_data_fails_soft_witness:
  "fetch_nvd_data [] (\<lambda>l u. RequestFailed) ''CVE-2025-23254'' [] = (Inr na_triple, []) \<and>
   fst (fetch_nvd_data ''k'' (\<lambda>l u. RequestFailed) ''CVE-2025-23254'' []) = Inr na_triple \<and>
   fst (fetch_nvd_data ''k'' (\<lambda>l u. Response 429 None) ''CVE-2025-23254'' []) = Inr na_triple \<and>
   fst (fetch_nvd_data ''k'' (\<lambda>l u. Response 200 None) ''CVE-2025-23254'' []) = Inr na_triple \<and>
   fst (fetch_nvd_data ''k''
          (\<lambda>l u. Response 200 (Some (JDict [(''vulnerabilities'', JList [])])))
          ''CVE-2025-23254'' []) = Inr na_triple"
proof -
  have a: "fetch_nvd_data [] (\<lambda>l u. RequestFailed) ''CVE-2025-23254'' [] = (Inr na_triple, [])"
    using fetch_nvd_data_fails_soft [of "[]" "\<lambda>l u. RequestFailed" "''CVE-2025-23254''" "[]"]
    by simp
  have b: "fst (fetch_nvd_data ''k'' (\<lambda>l u. RequestFailed) ''CVE-2025-23254'' []) = Inr na_triple"
    using fetch_nvd_data_fails_soft [of "''k''" "\<lambda>l u. RequestFailed" "''CVE-2025-23254''" "[]"]
    by simp
  have c: "fst (fetch_nvd_data ''k'' (\<lambda>l u. Response 429 None) ''CVE-2025-23254'' []) = Inr na_triple"
    using fetch_nvd_data_fails_soft
      [of "''k''" "\<lambda>l u. Response 429 None" "''CVE-2025-23254''" "[]" 429 None]
    by simp
  have d: "fst (fetch_nvd_data ''k'' (\<lambda>l u. Response 200 None) ''CVE-2025-23254'' []) = Inr na_triple"
    using fetch_nvd_data_fails_soft
      [of "''k''" "\<lambda>l u. Response 200 None" "''CVE-2025-23254''" "[]" 200]
    by simp
  have e: "fst (fetch_nvd_data ''k''
          (\<lambda>l u. Response 200 (Some (JDict [(''vulnerabilities'', JList [])])))
          ''CVE-2025-23254'' []) = Inr na_triple"
    using fetch_nvd_data_fails_soft
      [of "''k''" "\<lambda>l u. Response 200 (Some (JDict [(''vulnerabilities'', JList [])]))"
          "''CVE-2025-23254''" "[]" 200 _ "[(''vulnerabilities'', JList [])]"]
    by simp
  from a b c d e show ?thesis by blast
qed

section \<open>The loops of the Cisco, Intel and Dell scrapers\<close>

lemma snd_enrich_severity:
  "snd (enrich_severity key net c fb reqs) =
     reqs @ (if key \<noteq> [] \<and> c \<noteq> ''N/A'' then [nvd_url c] else [])"
  by (simp add: enrich_severity_def enrich_def fetch_nvd_data_def split: sum.split prod.split)

lemma enrich_severity_reqs:
  "enrich_severity key net c fb reqs = (res, reqs') \<Longrightarrow>
     reqs' = reqs @ (if key \<noteq> [] \<and> c \<noteq> ''N/A'' then [nvd_url c] else [])"
  using snd_enrich_severity [of key net c fb reqs] by simp

lemma cisco_rows_ok:
  "cisco_rows key net trs data reqs = (Inr t, reqs') \<Longrightarrow>
     t = data @ map cisco_dict trs \<and>
     reqs' = reqs @ (if key = [] then []
                     else map nvd_url (filter (\<lambda>c. c \<noteq> ''N/A'') (map cisco_cve_id trs)))"
proof (induction trs arbitrary: data reqs)
  case Nil
  then show ?case by simp
next
  case (Cons tr trs)
  obtain res r1 where e: "enrich_severity key net (cisco_cve_id tr) ''N/A'' reqs = (res, r1)"
    by (cases "enrich_severity key net (cisco_cve_id tr) ''N/A'' reqs")
  from Cons.prems e obtain sev where res: "res = Inr sev"
    by (cases res) auto
  from Cons.prems e res have rec: "cisco_rows key net trs (data @ [cisco_dict tr]) r1 = (Inr t, reqs')"
    by simp
  from enrich_severity_reqs [OF e]
  have r1: "r1 = reqs @ (if key \<noteq> [] \<and> cisco_cve_id tr \<noteq> ''N/A'' then [nvd_url (cisco_cve_id tr)] else [])" .
  from Cons.IH [OF rec] r1 show ?case by auto
qed

lemma cisco_rows_no_key:
  "cisco_rows [] net trs data reqs = (Inr (data @ map cisco_dict trs), reqs)"
  by (induction trs arbitrary: data)
     (simp_all add: enrich_severity_def enrich_def fetch_nvd_data_def bind_exn_def
        nvd_severity_text_def na_triple_def)


lemma intel_rows_harvest:
  "intel_rows key net trs data reqs = (Inr t, reqs') \<Longrightarrow>
     (\<exists>new. t = data @ new \<and>
        list_all2 (\<lambda>r cols. \<exists>u. intel_url (cols ! 0) = Inr u \<and> r = intel_dict cols u) new
          (filter (\<lambda>cols. 4 \<le> length cols) trs)) \<and>
     reqs' = reqs @ (if key = [] then []
                     else map nvd_url (filter (\<lambda>c. c \<noteq> ''N/A'')
                            (map intel_cve_id (filter (\<lambda>cols. 4 \<le> length cols) trs))))"
proof (induction trs arbitrary: data reqs)
  case Nil
  then show ?case by simp
next
  case (Cons cols trs)
  let ?R = "\<lambda>r cols. \<exists>u. intel_url (cols ! 0) = Inr u \<and> r = intel_dict cols u"
  show ?case
  proof (cases "length cols < 4")
    case True
    with Cons.prems have "intel_rows key net trs data reqs = (Inr t, reqs')" by simp
    from Cons.IH [OF this] True show ?thesis by simp
  next
    case False
    from Cons.prems False obtain u where u: "intel_url (cols ! 0) = Inr u"
      by (cases "intel_url (cols ! 0)") auto
    obtain res r1 where e: "enrich_severity key net (intel_cve_id cols) ''N/A'' reqs = (res, r1)"
      by (cases "enrich_severity key net (intel_cve_id cols) ''N/A'' reqs")
    from Cons.prems False u e obtain sev where res: "res = Inr sev"
      by (cases res) auto
    from Cons.prems False u e res
    have rec: "intel_rows key net trs (data @ [intel_dict cols u]) r1 = (Inr t, reqs')"
      by simp
    from enrich_severity_reqs [OF e]
    have r1: "r1 = reqs @ (if key \<noteq> [] \<and> intel_cve_id cols \<noteq> ''N/A''
                           then [nvd_url (intel_cve_id cols)] else [])" .
    from Cons.IH [OF rec] obtain new where
      new: "t = (data @ [intel_dict cols u]) @ new"
        "list_all2 ?R new (filter (\<lambda>cols. 4 \<le> length cols) trs)"
      and rq: "reqs' = r1 @ (if key = [] then []
                     else map nvd_url (filter (\<lambda>c. c \<noteq> ''N/A'')
                            (map intel_cve_id (filter (\<lambda>cols. 4 \<le> length cols) trs))))"
      by blast
    have "t = data @ (intel_dict cols u # new)" using new(1) by simp
    moreover have "list_all2 ?R (intel_dict cols u # new)
          (filter (\<lambda>cols. 4 \<le> length cols) (cols # trs))"
      using new(2) False u by auto
    ultimately show ?thesis using rq r1 False by auto
  qed
qed

lemma dell_rows_harvest:
  "dell_rows key net trs data reqs = (Inr t, reqs') \<Longrightarrow>
     (\<exists>new. t = data @ new \<and>
        list_all2 (\<lambda>r cells. \<exists>u s rq. dell_url (cells ! 1) = Inr u \<and>
                      fst (enrich_severity key net (dell_cve_id cells)
                             (text_or_na (dtd_badge (cells ! 0))) rq) = Inr s \<and>
                      r = dell_dict cells u s) new
          (filter (\<lambda>cells. 6 \<le> length cells) trs)) \<and>
     reqs' = reqs @ (if key = [] then []
                     else map nvd_url (filter (\<lambda>c. c \<noteq> ''N/A'')
                            (map dell_cve_id (filter (\<lambda>cells. 6 \<le> length cells) trs))))"
proof (induction trs arbitrary: data reqs)
  case Nil
  then show ?case by simp
next
  case (Cons cells trs)
  let ?R = "\<lambda>r cells. \<exists>u s rq. dell_url (cells ! 1) = Inr u \<and>
                      fst (enrich_severity key net (dell_cve_id cells)
                             (text_or_na (dtd_badge (cells ! 0))) rq) = Inr s \<and>
                      r = dell_dict cells u s"
  show ?case
  proof (cases "length cells < 6")
    case True
    with Cons.prems have "dell_rows key net trs data reqs = (Inr t, reqs')" by simp
    from Cons.IH [OF this] True show ?thesis by simp
  next
    case False
    from Cons.prems False obtain u where u: "dell_url (cells ! 1) = Inr u"
      by (cases "dell_url (cells ! 1)") auto
    obtain res r1 where e: "enrich_severity key net (dell_cve_id cells)
                               (text_or_na (dtd_badge (cells ! 0))) reqs = (res, r1)"
      by (cases "enrich_severity key net (dell_cve_id cells)
                   (text_or_na (dtd_badge (cells ! 0))) reqs")
    from Cons.prems False u e obtain sev where res: "res = Inr sev"
      by (cases res) auto
    from Cons.prems False u e res
    have rec: "dell_rows key net trs (data @ [dell_dict cells u sev]) r1 = (Inr t, reqs')"
      by simp
    from enrich_severity_reqs [OF e]
    have r1: "r1 = reqs @ (if key \<noteq> [] \<and> dell_cve_id cells \<noteq> ''N/A''
                           then [nvd_url (dell_cve_id cells)] else [])" .
    from Cons.IH [OF rec] obtain new where
      new: "t = (data @ [dell_dict cells u sev]) @ new"
        "list_all2 ?R new (filter (\<lambda>cells. 6 \<le> length cells) trs)"
      and rq: "reqs' = r1 @ (if key = [] then []
                     else map nvd_url (filter (\<lambda>c. c \<noteq> ''N/A'')
                            (map dell_cve_id (filter (\<lambda>cells. 6 \<le> length cells) trs))))"
      by blast
    have "t = data @ (dell_dict cells u sev # new)" using new(1) by simp
    moreover have "?R (dell_dict cells u sev) cells"
      using u e res by (intro exI [of _ u] exI [of _ sev] exI [of _ reqs]) simp
    then have "list_all2 ?R (dell_dict cells u sev # new)
          (filter (\<lambda>cells. 6 \<le> length cells) (cells # trs))"
      using new(2) False by simp
    ultimately show ?thesis using rq r1 False by auto
  qed
qed

lemma intel_rows_ok:
  "intel_rows key net trs data reqs = (Inr t, reqs') \<Longrightarrow>
     (\<exists>new. t = data @ new \<and>
        list_all2 (\<lambda>r cols. \<exists>u. r = intel_dict cols u) new
          (filter (\<lambda>cols. 4 \<le> length cols) trs)) \<and>
     reqs' = reqs @ (if key = [] then []
                     else map nvd_url (filter (\<lambda>c. c \<noteq> ''N/A'')
                            (map intel_cve_id (filter (\<lambda>cols. 4 \<le> length cols) trs))))"
proof -
  assume "intel_rows key net trs data reqs = (Inr t, reqs')"
  from intel_rows_harvest [OF this] obtain new where
    n: "t = data @ new"
      "list_all2 (\<lambda>r cols. \<exists>u. intel_url (cols ! 0) = Inr u \<and> r = intel_dict cols u) new
          (filter (\<lambda>cols. 4 \<le> length cols) trs)"
    and r: "reqs' = reqs @ (if key = [] then []
                     else map nvd_url (filter (\<lambda>c. c \<noteq> ''N/A'')
                            (map intel_cve_id (filter (\<lambda>cols. 4 \<le> length cols) trs))))"
    by blast
  from n(2) have "list_all2 (\<lambda>r cols. \<exists>u. r = intel_dict cols u) new
          (filter (\<lambda>cols. 4 \<le> length cols) trs)"
    by (rule list_all2_mono) blast
  with n(1) r show ?thesis by blast
qed

lemma dell_rows_ok:
  "dell_rows key net trs data reqs = (Inr t, reqs') \<Longrightarrow>
     (\<exists>new. t = data @ new \<and>
        list_all2 (\<lambda>r cells. \<exists>u s. r = dell_dict cells u s) new
          (filter (\<lambda>cells. 6 \<le> length cells) trs)) \<and>
     reqs' = reqs @ (if key = [] then []
                     else map nvd_url (filter (\<lambda>c. c \<noteq> ''N/A'')
                            (map dell_cve_id (filter (\<lambda>cells. 6 \<le> length cells) trs))))"
proof -
  assume "dell_rows key net trs data reqs = (Inr t, reqs')"
  from dell_rows_harvest [OF this] obtain new where
    n: "t = data @ new"
      "list_all2 (\<lambda>r cells. \<exists>u s rq. dell_url (cells ! 1) = Inr u \<and>
                      fst (enrich_severity key net (dell_cve_id cells)
                             (text_or_na (dtd_badge (cells ! 0))) rq) = Inr s \<and>
                      r = dell_dict cells u s) new
          (filter (\<lambda>cells. 6 \<le> length cells) trs)"
    and r: "reqs' = reqs @ (if key = [] then []
                     else map nvd_url (filter (\<lambda>c. c \<noteq> ''N/A'')
                            (map dell_cve_id (filter (\<lambda>cells. 6 \<le> length cells) trs))))"
    by blast
  from n(2) have "list_all2 (\<lambda>r cells. \<exists>u s. r = dell_dict cells u s) new
          (filter (\<lambda>cells. 6 \<le> length cells) trs)"
    by (rule list_all2_mono) blast
  with n(1) r show ?thesis by blast
qed

section \<open>Whole runs of the Cisco, Intel and Dell scrapers\<close>

lemma scrape_cisco_ok:
  assumes "scrape_cisco key net page reqs = (Inr t, reqs')" and "t \<noteq> []"
  shows "\<exists>trs. cp_rows page = Inr trs \<and> t = map cisco_dict trs \<and>
           reqs' = reqs @ (if key = [] then []
                           else map nvd_url (filter (\<lambda>c. c \<noteq> ''N/A'') (map cisco_cve_id trs)))"
proof -
  from assms have s: "cp_setup page = None"
    by (auto simp: scrape_cisco_def split: option.splits)
  with assms have x: "except_webdriver (cisco_try key net page reqs) = (Inr t, reqs')"
    by (simp add: scrape_cisco_def)
  with assms(2) have y: "cisco_try key net page reqs = (Inr t, reqs')"
    by (auto simp: except_webdriver_def split: prod.splits sum.splits if_splits)
  then obtain trs where trs: "cp_rows page = Inr trs" "trs \<noteq> []"
     and r: "cisco_rows key net trs [] reqs = (Inr t, reqs')"
    using assms(2)
    by (auto simp: cisco_try_def split: option.splits sum.splits if_splits)
  from cisco_rows_ok [OF r] trs show ?thesis by simp
qed

lemma scrape_intel_ok:
  assumes "scrape_intel key net page reqs = (Inr t, reqs')" and "t \<noteq> []"
  shows "list_all2 (\<lambda>r cols. \<exists>u. r = intel_dict cols u) t
           (filter (\<lambda>cols. 4 \<le> length cols) (take 100 (ip_rows page))) \<and>
         reqs' = reqs @ (if key = [] then []
                         else map nvd_url (filter (\<lambda>c. c \<noteq> ''N/A'')
                                (map intel_cve_id
                                   (filter (\<lambda>cols. 4 \<le> length cols) (take 100 (ip_rows page))))))"
proof -
  from assms have s: "ip_setup page = None"
    by (auto simp: scrape_intel_def split: option.splits)
  with assms have x: "except_webdriver (intel_try key net page reqs) = (Inr t, reqs')"
    by (simp add: scrape_intel_def)
  with assms(2) have y: "intel_try key net page reqs = (Inr t, reqs')"
    by (auto simp: except_webdriver_def split: prod.splits sum.splits if_splits)
  then have r: "intel_rows key net (take 100 (ip_rows page)) [] reqs = (Inr t, reqs')"
    using assms(2)
    by (auto simp: intel_try_def split: option.splits sum.splits if_splits)
  from intel_rows_ok [OF r] show ?thesis by simp
qed

lemma scrape_dell_ok:
  assumes "scrape_dell key net page reqs = (Inr t, reqs')" and "t \<noteq> []"
  shows "list_all2 (\<lambda>r cells. \<exists>u s. r = dell_dict cells u s) t
           (filter (\<lambda>cells. 6 \<le> length cells) (take 100 (dp_rows page))) \<and>
         reqs' = reqs @ (if key = [] then []
                         else map nvd_url (filter (\<lambda>c. c \<noteq> ''N/A'')
                                (map dell_cve_id
                                   (filter (\<lambda>cells. 6 \<le> length cells) (take 100 (dp_rows page))))))"
proof -
  from assms have s: "dp_start page = None"
    by (auto simp: scrape_dell_def split: option.splits)
  with assms have y: "dell_try key net page reqs = (Inr t, reqs')"
    by (auto simp: scrape_dell_def split: prod.splits sum.splits)
  then have r: "dell_rows key net (take 100 (dp_rows page)) [] reqs = (Inr t, reqs')"
    using assms(2)
    by (auto simp: dell_try_def split: option.splits sum.splits if_splits)
  from dell_rows_ok [OF r] show ?thesis by simp
qed



lemmas eval_strings =
  py_split_def py_split_on_def py_strip_def is_space_def unicode_spaces_def is_cont_def
  startswith_def py_capitalize_def py_lower_def lower_char_def upper_char_def text_or_na_def

lemmas eval_nvd =
  enrich_severity_def enrich_def fetch_nvd_data_def nvd_request_def nvd_parse_def
  cvss_field_def bind_exn_def nvd_severity_text_def na_triple_def nvd_url_def first_cve_def
  sample_net_def sample_answer_def

lemmas eval_cisco =
  scrape_cisco_def cisco_try_def except_webdriver_def is_webdriver_def cisco_cve_id_def
  cisco_dict_def cisco_last_updated_def sample_cisco_page_def

lemmas eval_cells = plain_td_def link_td_def divs_td_def

lemmas eval_intel =
  scrape_intel_def intel_try_def except_webdriver_def is_webdriver_def intel_cve_id_def
  intel_dict_def intel_url_def sample_intel_page_def

lemmas eval_dell =
  scrape_dell_def dell_try_def dell_cve_id_def dell_dict_def dell_url_def
  sample_dell_page_def

lemma sample_cisco_run:
  "scrape_cisco ''k'' sample_net sample_cisco_page [] =
     (Inr [[(''OEM Name'', Str ''Cisco''), (''Vulnerability'', Str ''Advisory A''),
            (''Description'', Str ''Critical''), (''URL'', Str ''https://sec.example/a''),
            (''Last Updated'', Str ''2025 May 08'')],
           [(''OEM Name'', Str ''Cisco''), (''Vulnerability'', Str ''Advisory B''),
            (''Description'', Str ''Critical''), (''URL'', Str ''https://sec.example/b''),
            (''Last Updated'', Str ''2025 May 07'')]],
      [nvd_url ''CVE-2025-20188'', nvd_url ''CVE-2025-20188''])"
  by (simp add: eval_cisco eval_nvd eval_strings)

lemma sample_intel_run:
  "scrape_intel ''k'' sample_net sample_intel_page [] =
     (Inr [[(''OEM Name'', Str ''Intel''), (''Vulnerability'', Str ''Intel Graphics Advisory''),
            (''Published Date'', Str ''May 13, 2025''),
            (''URL'', Str ''https://www.intel.com/content/www/us/en/security-center/a.html''),
            (''Last Updated'', Str ''May 13, 2025'')]],
      [nvd_url ''CVE-2025-20101''])"
  by (simp add: eval_intel eval_nvd eval_strings eval_cells)

lemma sample_dell_run:
  "scrape_dell ''k'' sample_net sample_dell_page [] =
     (Inr [[(''OEM Name'', Str ''Dell''), (''Vulnerability'', Str ''DSA-2025-101''),
            (''Description'', Str ''Custom impact text''),
            (''Published Date'', Str ''MAY 08 2025''), (''Unique ID'', Str ''N/A''),
            (''URL'', Str ''https://www.dell.com/support/kbdoc/1''),
            (''Last Updated'', Str ''MAY 09 2025'')]],
      [])"
  by (simp add: eval_dell eval_nvd eval_strings)

section \<open>Enrichment look-ups per run\<close>

text \<open>
  C7, as the code has it. The scrapers keep no memory of the identifiers they looked up:
  a run that returns rows has asked the NVD once for every harvested row with a CVE
  identifier (the first of the row), in the order of the rows; with no API key it has asked
  nothing.
\<close>

theorem lookup_per_row:
  "(scrape_cisco key net cpage reqs = (Inr t, reqs') \<and> t \<noteq> [] \<longrightarrow>
      (\<exists>trs. cp_rows cpage = Inr trs \<and>
         reqs' = reqs @ (if key = [] then []
                         else map nvd_url (filter (\<lambda>c. c \<noteq> ''N/A'') (map cisco_cve_id trs))))) \<and>
   (scrape_intel key net ipage reqs = (Inr t, reqs') \<and> t \<noteq> [] \<longrightarrow>
      reqs' = reqs @ (if key = [] then []
                      else map nvd_url (filter (\<lambda>c. c \<noteq> ''N/A'')
                             (map intel_cve_id
                                (filter (\<lambda>cols. 4 \<le> length cols) (take 100 (ip_rows ipage))))))) \<and>
   (scrape_dell key net dpage reqs = (Inr t, reqs') \<and> t \<noteq> [] \<longrightarrow>
      reqs' = reqs @ (if key = [] then []
                      else map nvd_url (filter (\<lambda>c. c \<noteq> ''N/A'')
                             (map dell_cve_id
                                (filter (\<lambda>cells. 6 \<le> length cells) (take 100 (dp_rows dpage)))))))"
  using scrape_cisco_ok [of key net cpage reqs t reqs']
        scrape_intel_ok [of key net ipage reqs t reqs']
        scrape_dell_ok [of key net dpage reqs t reqs']
  by blast


theorem lookup_per_row_witness:
  "(\<exists>trs. cp_rows sample_cisco_page = Inr trs \<and>
      snd (scrape_cisco ''k'' sample_net sample_cisco_page []) =
        [] @ (if ''k'' = [] then []
              else map nvd_url (filter (\<lambda>c. c \<noteq> ''N/A'') (map cisco_cve_id trs)))) \<and>
   snd (scrape_intel ''k'' sample_net sample_intel_page []) =
     [] @ (if ''k'' = [] then []
           else map nvd_url (filter (\<lambda>c. c \<noteq> ''N/A'')
                  (map intel_cve_id
                     (filter (\<lambda>cols. 4 \<le> length cols) (take 100 (ip_rows sample_intel_page)))))) \<and>
   snd (scrape_dell ''k'' sample_net sample_dell_page []) =
     [] @ (if ''k'' = [] then []
           else map nvd_url (filter (\<lambda>c. c \<noteq> ''N/A'')
                  (map dell_cve_id
                     (filter (\<lambda>cells. 6 \<le> length cells) (take 100 (dp_rows sample_dell_page))))))"
proof -
  note c = lookup_per_row [of "''k''" sample_net sample_cisco_page "[]" _ _
             sample_intel_page sample_dell_page, THEN conjunct1, rule_format,
             OF conjI, OF sample_cisco_run]
  note i = lookup_per_row [of "''k''" sample_net sample_cisco_page "[]" _ _
             sample_intel_page sample_dell_page, THEN conjunct2, THEN conjunct1, rule_format,
             OF conjI, OF sample_intel_run]
  note d = lookup_per_row [of "''k''" sample_net sample_cisco_page "[]" _ _
             sample_intel_page sample_dell_page, THEN conjunct2, THEN conjunct2, rule_format,
             OF conjI, OF sample_dell_run]
  have "\<exists>trs. cp_rows sample_cisco_page = Inr trs \<and>
      snd (scrape_cisco ''k'' sample_net sample_cisco_page []) =
        [] @ (if ''k'' = [] then []
              else map nvd_url (filter (\<lambda>c. c \<noteq> ''N/A'') (map cisco_cve_id trs)))"
    using c by (simp add: sample_cisco_run)
  moreover have "snd (scrape_intel ''k'' sample_net sample_intel_page []) =
     [] @ (if ''k'' = [] then []
           else map nvd_url (filter (\<lambda>c. c \<noteq> ''N/A'')
                  (map intel_cve_id
                     (filter (\<lambda>cols. 4 \<le> length cols) (take 100 (ip_rows sample_intel_page))))))"
    using i by (simp add: sample_intel_run)
  moreover have "snd (scrape_dell ''k'' sample_net sample_dell_page []) =
     [] @ (if ''k'' = [] then []
           else map nvd_url (filter (\<lambda>c. c \<noteq> ''N/A'')
                  (map dell_cve_id
                     (filter (\<lambda>cells. 6 \<le> length cells) (take 100 (dp_rows sample_dell_page))))))"
    using d by (simp add: sample_dell_run)
  ultimately show ?thesis by blast
qed

text \<open>
  C7 as stated fails: on the sample listing, whose two advisories share CVE-2025-20188, the
  run asks the NVD for that identifier twice.
\<close>

theorem lookup_repeated_counterexample:
  "snd (scrape_cisco ''k'' sample_net sample_cisco_page []) =
     [nvd_url ''CVE-2025-20188'', nvd_url ''CVE-2025-20188''] \<and>
   \<not> distinct (snd (scrape_cisco ''k'' sample_net sample_cisco_page []))"
  by (simp add: sample_cisco_run)

section \<open>Sample runs of the Adobe and Palo Alto scrapers, and sorted tables\<close>



lemmas eval_frame =
  palo_frame_def palo_dedup_def drop_duplicates_def sort_values_desc_def assign_datetime_def
  to_datetime_def set_col_def col_def text_key_def time_key_def stable_asc_def
  stable_desc_def sample_lib_def

lemmas eval_palo =
  scrape_palo_alto_def palo_browse_def palo_dict_def palo_url_def palo_cve_id_def
  palo_summary_def palo_severity_def div_texts_def sample_palo_page_def palo_tr_def

lemma sample_palo_run:
  "scrape_palo_alto sample_lib sample_palo_page =
     Inr [[(''Product Name'', Str ''PAN-OS''), (''Product Version'', Str ''11.2''),
           (''OEM Name'', Str ''Palo Alto Networks''),
           (''Vulnerability'', Str ''CVE-2025-0128 Denial of service''),
           (''Description'', Str ''CVE-2025-0128''),
           (''Published Date'', Timestamp 20250508),
           (''Last Updated'', Str ''2025-05-08''),
           (''Unique ID'', Str ''CVE-2025-0128''),
           (''URL'', Str ''https://security.paloaltonetworks.com/CVE-2025-0128''),
           (''Severity Level'', Str ''High''),
           (''Affected Versions'', Str ''< 11.2.3''),
           (''Unaffected Versions'', Str ''>= 11.2.3'')],
          [(''Product Name'', Str ''PAN-OS''), (''Product Version'', Str ''11.2''),
           (''OEM Name'', Str ''Palo Alto Networks''),
           (''Vulnerability'', Str ''CVE-2025-0120 Privilege escalation''),
           (''Description'', Str ''CVE-2025-0120''),
           (''Published Date'', Timestamp 20250409),
           (''Last Updated'', Str ''2025-04-09''),
           (''Unique ID'', Str ''CVE-2025-0120''),
           (''URL'', Str ''https://security.paloaltonetworks.com/CVE-2025-0128''),
           (''Severity Level'', Str ''Medium''),
           (''Affected Versions'', Str ''< 11.2.3''),
           (''Unaffected Versions'', Str ''>= 11.2.3'')]]"
  by (simp add: eval_palo eval_frame eval_strings eval_cells)


lemma sorter_set:
  "sorts_descending srt \<Longrightarrow> set (srt f xs) = set xs"
  "sorts_ascending srt' \<Longrightarrow> set (srt' f xs) = set xs"
  by (metis sorts_descending_def mset_eq_setD) (metis sorts_ascending_def mset_eq_setD)




lemma stable_desc_sorts: "sorts_descending (stable_desc :: ('k::linorder) sorter)"
  by (simp add: sorts_descending_def stable_desc_def rev_map [symmetric] sorted_sort_key
        del: rev_map)

lemma stable_asc_sorts: "sorts_ascending (stable_asc :: ('k::linorder) sorter)"
  by (simp add: sorts_ascending_def stable_asc_def)




section \<open>Duplicates in the Palo Alto table\<close>

lemma dds_subset: "set (drop_duplicates_seen key seen xs) \<subseteq> set xs"
  by (induction xs arbitrary: seen) auto

lemma dds_keys: "set (map key (drop_duplicates_seen key seen xs)) = set (map key xs) - set seen"
  by (induction xs arbitrary: seen) auto

lemma dds_distinct: "distinct (map key (drop_duplicates_seen key seen xs))"
proof (induction xs arbitrary: seen)
  case Nil
  then show ?case by simp
next
  case (Cons x xs)
  have "key x \<notin> set (map key (drop_duplicates_seen key (key x # seen) xs))"
    unfolding dds_keys by simp
  with Cons show ?case by simp
qed

lemma dds_first:
  "r \<in> set (drop_duplicates_seen key seen xs) \<Longrightarrow> find (\<lambda>x. key x = key r) xs = Some r"
proof (induction xs arbitrary: seen)
  case Nil
  then show ?case by simp
next
  case (Cons x xs)
  show ?case
  proof (cases "key x \<in> set seen")
    case True
    with Cons.prems have r: "r \<in> set (drop_duplicates_seen key seen xs)" by simp
    then have "key r \<in> set (map key (drop_duplicates_seen key seen xs))" by simp
    then have "key r \<notin> set seen" unfolding dds_keys by simp
    with True have "key x \<noteq> key r" by auto
    with Cons.IH [OF r] show ?thesis by simp
  next
    case False
    show ?thesis
    proof (cases "r = x")
      case True
      then show ?thesis by simp
    next
      case ne: False
      with Cons.prems False
      have r: "r \<in> set (drop_duplicates_seen key (key x # seen) xs)" by simp
      then have "key r \<in> set (map key (drop_duplicates_seen key (key x # seen) xs))" by simp
      then have "key r \<noteq> key x" unfolding dds_keys by simp
      with Cons.IH [OF r] show ?thesis by simp
    qed
  qed
qed

lemma find_filter:
  "find P xs = (case filter P xs of [] \<Rightarrow> None | x # ys \<Rightarrow> Some x)"
  by (induction xs) auto

lemma stable_find:
  "stable srt \<Longrightarrow> find (\<lambda>x. f x = k) (srt f xs) = find (\<lambda>x. f x = k) xs"
  by (simp add: find_filter stable_def)

lemma palo_dedup_ids:
  assumes "sorts_ascending srt"
  shows "distinct (map (text_key ''Unique ID'') (palo_dedup srt data))"
    and "set (map (text_key ''Unique ID'') (palo_dedup srt data)) =
           set (map (text_key ''Unique ID'') data)"
proof -
  have s: "set (srt (text_key ''Unique ID'') data) = set data"
    using assms by (metis sorts_ascending_def mset_eq_setD)
  show "distinct (map (text_key ''Unique ID'') (palo_dedup srt data))"
    by (simp add: palo_dedup_def drop_duplicates_def dds_distinct)
  show "set (map (text_key ''Unique ID'') (palo_dedup srt data)) =
          set (map (text_key ''Unique ID'') data)"
    unfolding palo_dedup_def drop_duplicates_def dds_keys using s by simp
qed

lemma palo_dedup_subset:
  assumes "sorts_ascending srt"
  shows "set (palo_dedup srt data) \<subseteq> set data"
proof -
  have "set (srt (text_key ''Unique ID'') data) = set data"
    using assms by (metis sorts_ascending_def mset_eq_setD)
  then show ?thesis
    unfolding palo_dedup_def drop_duplicates_def
    using dds_subset [of "text_key ''Unique ID''" "[]" "srt (text_key ''Unique ID'') data"]
    by simp
qed

text \<open>
  C5, as the code has it. The vendor is the same in every record of the Palo Alto table, so
  the key is the \<open>Unique ID\<close>. After the sort and \<^verbatim>\<open>drop_duplicates\<close> every
  identifier of the harvest stands in exactly one record, and that record is one of the
  harvested ones. It is the first occurrence in harvested order if the sort is stable.
\<close>

theorem dedup_one_per_id:
  "sorts_ascending srt \<longrightarrow>
     distinct (map (text_key ''Unique ID'') (palo_dedup srt data)) \<and>
     set (map (text_key ''Unique ID'') (palo_dedup srt data)) =
       set (map (text_key ''Unique ID'') data) \<and>
     set (palo_dedup srt data) \<subseteq> set data \<and>
     (stable srt \<longrightarrow>
        (\<forall>r \<in> set (palo_dedup srt data).
           find (\<lambda>x. text_key ''Unique ID'' x = text_key ''Unique ID'' r) data = Some r))"
proof
  assume asc: "sorts_ascending srt"
  let ?k = "text_key ''Unique ID''"
  have s: "set (srt ?k data) = set data"
    using asc by (metis sorts_ascending_def mset_eq_setD)
  have d: "distinct (map ?k (palo_dedup srt data))"
    by (simp add: palo_dedup_def drop_duplicates_def dds_distinct)
  have k: "set (map ?k (palo_dedup srt data)) = set (map ?k data)"
    unfolding palo_dedup_def drop_duplicates_def dds_keys using s by simp
  have sub: "set (palo_dedup srt data) \<subseteq> set data"
    unfolding palo_dedup_def drop_duplicates_def using dds_subset [of ?k "[]" "srt ?k data"] s
    by simp
  have first: "find (\<lambda>x. ?k x = ?k r) data = Some r"
    if st: "stable srt" and r: "r \<in> set (palo_dedup srt data)" for r
  proof -
    from r have "find (\<lambda>x. ?k x = ?k r) (srt ?k data) = Some r"
      unfolding palo_dedup_def drop_duplicates_def by (rule dds_first)
    with stable_find [OF st, of ?k "?k r" data] show ?thesis by simp
  qed
  from d k sub first
  show "distinct (map ?k (palo_dedup srt data)) \<and>
     set (map ?k (palo_dedup srt data)) = set (map ?k data) \<and>
     set (palo_dedup srt data) \<subseteq> set data \<and>
     (stable srt \<longrightarrow>
        (\<forall>r \<in> set (palo_dedup srt data). find (\<lambda>x. ?k x = ?k r) data = Some r))"
    by blast
qed

lemma stable_asc_stable: "stable (stable_asc :: ('k::linorder) sorter)"
  by (simp add: stable_def stable_asc_def sort_key_stable)

lemmas eval_records = first_record_def second_record_def

theorem dedup_one_per_id_witness:
  "sorts_ascending (stable_asc :: string sorter) \<and> stable (stable_asc :: string sorter) \<and>
   palo_dedup stable_asc [first_record, second_record] = [first_record] \<and>
   find (\<lambda>x. text_key ''Unique ID'' x = text_key ''Unique ID'' first_record)
     [first_record, second_record] = Some first_record"
proof -
  have run: "palo_dedup stable_asc [first_record, second_record] = [first_record]"
    by (simp add: palo_dedup_def drop_duplicates_def stable_asc_def text_key_def col_def
          eval_records)
  from dedup_one_per_id [of stable_asc "[first_record, second_record]"]
    stable_asc_sorts [where 'k = string] stable_asc_stable [where 'k = string]
  have "\<forall>r \<in> set (palo_dedup stable_asc [first_record, second_record]).
          find (\<lambda>x. text_key ''Unique ID'' x = text_key ''Unique ID'' r)
            [first_record, second_record] = Some r"
    by blast
  with run have "find (\<lambda>x. text_key ''Unique ID'' x = text_key ''Unique ID'' first_record)
     [first_record, second_record] = Some first_record"
    by simp
  with run stable_asc_sorts [where 'k = string] stable_asc_stable [where 'k = string]
  show ?thesis by blast
qed

lemmas eval_quicksort =
  np_quicksort_def quick_range.simps qs_partition_def median3_def hoare.simps scan_up.simps
  scan_down.simps insertion_sort.simps insert_at.simps swap_def Let_def

lemma key_simps:
  "text_key ''Unique ID'' first_record = ''CVE-2025-0128''"
  "text_key ''Unique ID'' second_record = ''CVE-2025-0128''"
  "text_key ''Unique ID'' (other_record u) = u"
  by (simp_all add: text_key_def col_def first_record_def second_record_def other_record_def)

lemma np_sorted18:
  "np_quicksort sample_heap (text_key ''Unique ID'') harvest18 =
     map other_record
       [''CVE-2025-0112'', ''CVE-2025-0113'', ''CVE-2025-0114'', ''CVE-2025-0115'',
        ''CVE-2025-0116'', ''CVE-2025-0117'', ''CVE-2025-0118'', ''CVE-2025-0119'',
        ''CVE-2025-0120'', ''CVE-2025-0121'', ''CVE-2025-0122'', ''CVE-2025-0123'',
        ''CVE-2025-0124'', ''CVE-2025-0125'', ''CVE-2025-0126'', ''CVE-2025-0127'']
     @ [second_record, first_record]"
  by (simp add: harvest18_def eval_quicksort key_simps)

text \<open>
  C5 as stated fails. The sort by \<open>Unique ID\<close> runs before the duplicates are dropped,
  and the default sort of pandas does not keep the order of equal keys once a table has
  more than 16 rows. In a harvest of 18 records, newest identifier first, whose first two
  records share CVE-2025-0128, the median-of-three step moves the first record behind the
  second, and the second occurrence is the one kept.
\<close>

theorem dedup_first_counterexample:
  "length harvest18 = 18 \<and>
   find (\<lambda>x. text_key ''Unique ID'' x = ''CVE-2025-0128'') harvest18 = Some first_record \<and>
   first_record \<noteq> second_record \<and>
   find (\<lambda>x. text_key ''Unique ID'' x = ''CVE-2025-0128'')
     (palo_dedup (np_quicksort sample_heap) harvest18) = Some second_record \<and>
   first_record \<notin> set (palo_dedup (np_quicksort sample_heap) harvest18)"
proof -
  have d: "palo_dedup (np_quicksort sample_heap) harvest18 =
     map other_record
       [''CVE-2025-0112'', ''CVE-2025-0113'', ''CVE-2025-0114'', ''CVE-2025-0115'',
        ''CVE-2025-0116'', ''CVE-2025-0117'', ''CVE-2025-0118'', ''CVE-2025-0119'',
        ''CVE-2025-0120'', ''CVE-2025-0121'', ''CVE-2025-0122'', ''CVE-2025-0123'',
        ''CVE-2025-0124'', ''CVE-2025-0125'', ''CVE-2025-0126'', ''CVE-2025-0127'']
     @ [second_record]"
    by (simp add: palo_dedup_def drop_duplicates_def np_sorted18 key_simps)
  have l: "length harvest18 = 18"
    by (simp add: harvest18_def)
  have f: "find (\<lambda>x. text_key ''Unique ID'' x = ''CVE-2025-0128'') harvest18 =
      Some first_record"
    by (simp add: harvest18_def key_simps)
  have n: "first_record \<noteq> second_record"
    by (simp add: eval_records)
  have k: "find (\<lambda>x. text_key ''Unique ID'' x = ''CVE-2025-0128'')
     (palo_dedup (np_quicksort sample_heap) harvest18) = Some second_record"
    by (simp add: d key_simps)
  have m: "first_record \<notin> set (palo_dedup (np_quicksort sample_heap) harvest18)"
    by (simp add: d eval_records other_record_def)
  from l f n k m show ?thesis by (intro conjI)
qed

section \<open>The records of the Palo Alto table\<close>

lemma palo_rows_records:
  "palo_rows fl trs data = (ex, out) \<Longrightarrow>
     \<forall>r \<in> set out. r \<in> set data \<or>
        (\<exists>cols \<in> set trs. length cols = 7 \<and> (\<exists>u c. r = palo_dict fl cols u c))"
proof (induction trs arbitrary: data)
  case Nil
  then show ?case by simp
next
  case (Cons cols trs)
  show ?case
  proof (cases "length cols \<noteq> 7")
    case True
    with Cons.prems have "palo_rows fl trs data = (ex, out)" by simp
    from Cons.IH [OF this] show ?thesis by auto
  next
    case False
    show ?thesis
    proof (cases "palo_url (cols ! 1)")
      case (Inl e)
      with Cons.prems False show ?thesis by auto
    next
      case (Inr u)
      show ?thesis
      proof (cases "palo_cve_id (palo_summary (cols ! 1))")
        case (Inl e)
        with Cons.prems False Inr show ?thesis by auto
      next
        case c: (Inr c)
        with Cons.prems False Inr
        have "palo_rows fl trs (data @ [palo_dict fl cols u c]) = (ex, out)" by simp
        from Cons.IH [OF this] False show ?thesis by auto
      qed
    qed
  qed
qed

lemma col_set_col: "k' \<noteq> k \<Longrightarrow> col k' (set_col k v r) = col k' r"
proof -
  assume ne: "k' \<noteq> k"
  have "map_of (map (\<lambda>kc. if fst kc = k then (k, v) else kc) r) k' = map_of r k'"
    using ne by (induction r) auto
  with ne show ?thesis
    by (simp add: col_def set_col_def map_add_def split: option.split)
qed

lemma col_set_col_same: "col k (set_col k v r) = v"
proof (cases "k \<in> set (map fst r)")
  case True
  then have "map_of (map (\<lambda>kc. if fst kc = k then (k, v) else kc) r) k = Some v"
    by (induction r) auto
  with True show ?thesis by (simp add: col_def set_col_def)
next
  case False
  then have "map_of r k = None" by (simp add: map_of_eq_None_iff)
  with False show ?thesis by (simp add: col_def set_col_def map_add_def)
qed

lemma assign_datetime_length: "length (assign_datetime parse k rows) = length rows"
  by (simp add: assign_datetime_def to_datetime_def)

lemma assign_datetime_nth:
  assumes "i < length rows"
  shows "assign_datetime parse k rows ! i =
           set_col k (to_datetime parse (map (col k) rows) ! i) (rows ! i)"
  using assms by (simp add: assign_datetime_def to_datetime_def)

lemma assign_datetime_other:
  "i < length rows \<Longrightarrow> k' \<noteq> k \<Longrightarrow>
     col k' (assign_datetime parse k rows ! i) = col k' (rows ! i)"
  by (simp add: assign_datetime_nth col_set_col)

lemma assign_datetime_column:
  "map (col k) (assign_datetime parse k rows) = to_datetime parse (map (col k) rows)"
proof (rule nth_equalityI)
  show "length (map (col k) (assign_datetime parse k rows)) =
          length (to_datetime parse (map (col k) rows))"
    by (simp add: assign_datetime_length to_datetime_def)
next
  fix i
  assume "i < length (map (col k) (assign_datetime parse k rows))"
  then have i: "i < length rows" by (simp add: assign_datetime_length)
  then show "map (col k) (assign_datetime parse k rows) ! i =
          to_datetime parse (map (col k) rows) ! i"
    by (simp add: assign_datetime_length assign_datetime_nth col_set_col_same)
qed

lemma assign_datetime_rows:
  "r \<in> set (assign_datetime parse k rows) \<Longrightarrow> \<exists>v r0. r0 \<in> set rows \<and> r = set_col k v r0"
  by (auto simp: assign_datetime_def dest!: set_zip_rightD)

lemma palo_severity_values:
  "palo_severity fl c \<in> {''Critical'', ''High'', ''Medium'', ''Low'', ''Informational'', ''N/A''}"
  by (simp add: palo_severity_def split: option.split)

lemma col_palo_dict:
  "col ''Severity Level'' (palo_dict fl cols u c) =
     Str (palo_severity fl (py_strip (td_text (cols ! 0))))"
  by (simp add: col_def palo_dict_def Let_def)

lemma palo_frame_rows:
  assumes "sorts_ascending (lib_sort_text lib)" "sorts_descending (lib_sort_time_desc lib)"
    and "r \<in> set (palo_frame lib data)"
  shows "\<exists>v r0. r0 \<in> set data \<and> r = set_col ''Published Date'' v r0"
proof -
  let ?d = "palo_dedup (lib_sort_text lib) data"
  let ?a = "assign_datetime (lib_parse lib) ''Published Date'' ?d"
  have "set (sort_values_desc (lib_sort_time_desc lib) ''Published Date'' ?a) = set ?a"
    using sorter_set(1) [OF assms(2)] by (auto simp: sort_values_desc_def)
  with assms(3) have "r \<in> set ?a" by (simp add: palo_frame_def)
  then obtain v r0 where r0: "r0 \<in> set ?d" "r = set_col ''Published Date'' v r0"
    using assign_datetime_rows by blast
  from palo_dedup_subset [OF assms(1), of data] r0(1)
  have "r0 \<in> set data" by blast
  with r0 show ?thesis by blast
qed

lemma scrape_palo_alto_cases:
  "scrape_palo_alto lib page = Inr t \<Longrightarrow>
     t = [] \<or>
     (\<exists>tb ex data. pp_soup page = Some tb \<and> palo_browse page = None \<and>
        palo_rows (lib_float lib) (concat tb) [] = (ex, data) \<and>
        (ex = None \<longrightarrow> t = palo_frame lib data) \<and> (ex \<noteq> None \<longrightarrow> t = data))"
  by (auto simp: scrape_palo_alto_def split: option.splits if_splits prod.splits)

lemma scrape_palo_alto_rows:
  assumes "sorts_ascending (lib_sort_text lib)" "sorts_descending (lib_sort_time_desc lib)"
    and "scrape_palo_alto lib page = Inr t" and "r \<in> set t"
  shows "\<exists>tb cols. pp_soup page = Some tb \<and> cols \<in> set (concat tb) \<and> length cols = 7 \<and>
           col ''Severity Level'' r =
             Str (palo_severity (lib_float lib) (py_strip (td_text (cols ! 0))))"
proof -
  from scrape_palo_alto_cases [OF assms(3)] assms(4)
  obtain tb ex data where tb: "pp_soup page = Some tb"
      and pr: "palo_rows (lib_float lib) (concat tb) [] = (ex, data)"
      and t: "ex = None \<longrightarrow> t = palo_frame lib data" "ex \<noteq> None \<longrightarrow> t = data"
    by auto
  from palo_rows_records [OF pr]
  have recs: "\<forall>r \<in> set data. \<exists>cols \<in> set (concat tb). length cols = 7 \<and>
                (\<exists>u c. r = palo_dict (lib_float lib) cols u c)"
    by simp
  have "\<exists>r0 \<in> set data. col ''Severity Level'' r = col ''Severity Level'' r0"
  proof (cases ex)
    case None
    with assms(4) t have "r \<in> set (palo_frame lib data)" by simp
    from palo_frame_rows [OF assms(1,2) this] show ?thesis
      by (auto simp: col_set_col)
  next
    case (Some e)
    with assms(4) t have "r \<in> set data" by simp
    then show ?thesis by blast
  qed
  with recs tb show ?thesis
    by (metis col_palo_dict)
qed


lemma palo_rows_harvest:
  "palo_rows fl trs data = (ex, out) \<Longrightarrow>
     \<exists>new seen rest. out = data @ new \<and> trs = seen @ rest \<and> (ex = None \<longrightarrow> rest = []) \<and>
       list_all2 (\<lambda>r cols. \<exists>u c. palo_url (cols ! 1) = Inr u \<and>
                     palo_cve_id (palo_summary (cols ! 1)) = Inr c \<and>
                     r = palo_dict fl cols u c)
         new (filter (\<lambda>cols. length cols = 7) seen)"
proof (induction trs arbitrary: data)
  case Nil
  then show ?case by simp
next
  case (Cons cols trs)
  let ?R = "\<lambda>r cols. \<exists>u c. palo_url (cols ! 1) = Inr u \<and>
                     palo_cve_id (palo_summary (cols ! 1)) = Inr c \<and>
                     r = palo_dict fl cols u c"
  show ?case
  proof (cases "length cols \<noteq> 7")
    case True
    with Cons.prems have "palo_rows fl trs data = (ex, out)" by simp
    from Cons.IH [OF this] obtain new seen rest where
      h: "out = data @ new" "trs = seen @ rest" "ex = None \<longrightarrow> rest = []"
         "list_all2 ?R new (filter (\<lambda>cols. length cols = 7) seen)"
      by blast
    from h True have "out = data @ new \<and> cols # trs = (cols # seen) @ rest \<and>
        (ex = None \<longrightarrow> rest = []) \<and>
        list_all2 ?R new (filter (\<lambda>cols. length cols = 7) (cols # seen))"
      by simp
    then show ?thesis by blast
  next
    case False
    have stop: ?thesis if "out = data" "ex \<noteq> None"
    proof -
      from that have "out = data @ [] \<and> cols # trs = [] @ (cols # trs) \<and>
        (ex = None \<longrightarrow> cols # trs = []) \<and>
        list_all2 ?R [] (filter (\<lambda>cols. length cols = 7) [])"
        by simp
      then show ?thesis by blast
    qed
    show ?thesis
    proof (cases "palo_url (cols ! 1)")
      case (Inl e)
      with Cons.prems False have "out = data" "ex \<noteq> None" by auto
      then show ?thesis by (rule stop)
    next
      case (Inr u)
      show ?thesis
      proof (cases "palo_cve_id (palo_summary (cols ! 1))")
        case (Inl e)
        with Cons.prems False Inr have "out = data" "ex \<noteq> None" by auto
        then show ?thesis by (rule stop)
      next
        case c: (Inr c)
        with Cons.prems False Inr
        have "palo_rows fl trs (data @ [palo_dict fl cols u c]) = (ex, out)" by simp
        from Cons.IH [OF this] obtain new seen rest where
          h: "out = (data @ [palo_dict fl cols u c]) @ new" "trs = seen @ rest"
             "ex = None \<longrightarrow> rest = []"
             "list_all2 ?R new (filter (\<lambda>cols. length cols = 7) seen)"
          by blast
        from h False Inr c
        have "out = data @ (palo_dict fl cols u c # new) \<and> cols # trs = (cols # seen) @ rest \<and>
          (ex = None \<longrightarrow> rest = []) \<and>
          list_all2 ?R (palo_dict fl cols u c # new)
            (filter (\<lambda>cols. length cols = 7) (cols # seen))"
          by simp
        then show ?thesis by blast
      qed
    qed
  qed
qed

lemma list_all2_left_member:
  "list_all2 R xs ys \<Longrightarrow> x \<in> set xs \<Longrightarrow> \<exists>y \<in> set ys. R x y"
  by (induction rule: list_all2_induct) auto

lemma scrape_palo_alto_own_row:
  assumes "sorts_ascending (lib_sort_text lib)" "sorts_descending (lib_sort_time_desc lib)"
    and "scrape_palo_alto lib page = Inr t" and "r \<in> set t"
  shows "\<exists>tb cols u c. pp_soup page = Some tb \<and> cols \<in> set (concat tb) \<and> length cols = 7 \<and>
           palo_url (cols ! 1) = Inr u \<and> palo_cve_id (palo_summary (cols ! 1)) = Inr c \<and>
           (r = palo_dict (lib_float lib) cols u c \<or>
            (\<exists>v. r = set_col ''Published Date'' v (palo_dict (lib_float lib) cols u c))) \<and>
           col ''Severity Level'' r =
             Str (palo_severity (lib_float lib) (py_strip (td_text (cols ! 0))))"
proof -
  from scrape_palo_alto_cases [OF assms(3)] assms(4)
  obtain tb ex data where tb: "pp_soup page = Some tb"
      and pr: "palo_rows (lib_float lib) (concat tb) [] = (ex, data)"
      and t: "ex = None \<longrightarrow> t = palo_frame lib data" "ex \<noteq> None \<longrightarrow> t = data"
    by auto
  from palo_rows_harvest [OF pr] obtain seen rest where
    sr: "concat tb = seen @ rest"
    and l: "list_all2 (\<lambda>r cols. \<exists>u c. palo_url (cols ! 1) = Inr u \<and>
                     palo_cve_id (palo_summary (cols ! 1)) = Inr c \<and>
                     r = palo_dict (lib_float lib) cols u c)
         data (filter (\<lambda>cols. length cols = 7) seen)"
    by auto
  have "\<exists>r0 \<in> set data. r = r0 \<or> (\<exists>v. r = set_col ''Published Date'' v r0)"
  proof (cases ex)
    case None
    with assms(4) t have "r \<in> set (palo_frame lib data)" by simp
    from palo_frame_rows [OF assms(1,2) this] show ?thesis by blast
  next
    case (Some e)
    with assms(4) t have "r \<in> set data" by simp
    then show ?thesis by blast
  qed
  then obtain r0 where r0: "r0 \<in> set data"
      "r = r0 \<or> (\<exists>v. r = set_col ''Published Date'' v r0)"
    by blast
  from list_all2_left_member [OF l r0(1)] obtain cols u c where
    cols: "cols \<in> set seen" "length cols = 7" "palo_url (cols ! 1) = Inr u"
      "palo_cve_id (palo_summary (cols ! 1)) = Inr c"
      "r0 = palo_dict (lib_float lib) cols u c"
    by auto
  from cols(1) sr have mem: "cols \<in> set (concat tb)" by simp
  from r0(2) cols(5) have sev: "col ''Severity Level'' r =
      Str (palo_severity (lib_float lib) (py_strip (td_text (cols ! 0))))"
    by (auto simp: col_set_col col_palo_dict)
  from tb mem cols r0(2) sev show ?thesis by blast
qed


section \<open>The severity of a Palo Alto record\<close>

lemma lower_char_i: "lower_char ch = CHR ''i'' \<Longrightarrow> ch = CHR ''i'' \<or> ch = CHR ''I''"
  by (simp add: lower_char_def split: if_splits)

lemma lower_is_i: "py_lower c = ''i'' \<longleftrightarrow> c = ''i'' \<or> c = ''I''"
proof
  assume l: "py_lower c = ''i''"
  then obtain ch where c: "c = [ch]" and lc: "lower_char ch = CHR ''i''"
    by (cases c) (auto simp: py_lower_def)
  from lower_char_i [OF lc] c show "c = ''i'' \<or> c = ''I''" by auto
next
  assume "c = ''i'' \<or> c = ''I''"
  then show "py_lower c = ''i''"
    by (auto simp: py_lower_def lower_char_def)
qed

lemma palo_severity_cases:
  "palo_severity fl c =
     (if c = ''I'' \<or> c = ''i'' then ''Informational''
      else case fl c of
             None \<Rightarrow> ''N/A''
           | Some (Finite s) \<Rightarrow>
               if 9 \<le> s then ''Critical'' else if 7 \<le> s then ''High''
               else if 4 \<le> s then ''Medium'' else ''Low''
           | Some PosInf \<Rightarrow> ''Critical''
           | Some NegInf \<Rightarrow> ''Low''
           | Some NotANumber \<Rightarrow> ''Low'')"
  using lower_is_i [of c]
  by (auto simp: palo_severity_def split: option.split pyfloat.split)


text \<open>
  C2. The severity of a Palo Alto record is a function of the text of the first cell: the
  token I in either case gives Informational; any other text that \<^verbatim>\<open>float\<close> reads as
  the number \<open>s\<close> gives the level of the thresholds 9, 7 and 4. (An infinity is above or
  below every threshold, not-a-number is below none and ends in the last branch, and a
  text \<^verbatim>\<open>float\<close> rejects gives \<open>N/A\<close>.) Every record of the returned table is the
  record built from one harvested row of seven cells, with at most its published date
  replaced by the time stamp, and carries the severity so derived from the first cell of
  that same row.
\<close>

theorem palo_severity_thresholds:
  "(c = ''I'' \<or> c = ''i'' \<longrightarrow> palo_severity fl c = ''Informational'') \<and>
   (c \<noteq> ''I'' \<and> c \<noteq> ''i'' \<and> fl c = Some (Finite s) \<longrightarrow>
      (9 \<le> s \<longrightarrow> palo_severity fl c = ''Critical'') \<and>
      (7 \<le> s \<and> s < 9 \<longrightarrow> palo_severity fl c = ''High'') \<and>
      (4 \<le> s \<and> s < 7 \<longrightarrow> palo_severity fl c = ''Medium'') \<and>
      (s < 4 \<longrightarrow> palo_severity fl c = ''Low'')) \<and>
   (c \<noteq> ''I'' \<and> c \<noteq> ''i'' \<and> fl c = Some PosInf \<longrightarrow> palo_severity fl c = ''Critical'') \<and>
   (c \<noteq> ''I'' \<and> c \<noteq> ''i'' \<and> fl c = Some NegInf \<longrightarrow> palo_severity fl c = ''Low'') \<and>
   (c \<noteq> ''I'' \<and> c \<noteq> ''i'' \<and> fl c = Some NotANumber \<longrightarrow> palo_severity fl c = ''Low'') \<and>
   (c \<noteq> ''I'' \<and> c \<noteq> ''i'' \<and> fl c = None \<longrightarrow> palo_severity fl c = ''N/A'') \<and>
   (sorts_ascending (lib_sort_text lib) \<and> sorts_descending (lib_sort_time_desc lib) \<and>
    scrape_palo_alto lib page = Inr t \<longrightarrow>
      (\<forall>r \<in> set t. \<exists>tb cols u c.
          pp_soup page = Some tb \<and> cols \<in> set (concat tb) \<and> length cols = 7 \<and>
          palo_url (cols ! 1) = Inr u \<and> palo_cve_id (palo_summary (cols ! 1)) = Inr c \<and>
          (r = palo_dict (lib_float lib) cols u c \<or>
           (\<exists>v. r = set_col ''Published Date'' v (palo_dict (lib_float lib) cols u c))) \<and>
          col ''Severity Level'' r =
            Str (palo_severity (lib_float lib) (py_strip (td_text (cols ! 0))))))"
proof -
  have a: "c = ''I'' \<or> c = ''i'' \<longrightarrow> palo_severity fl c = ''Informational''"
    by (simp add: palo_severity_cases)
  have b: "c \<noteq> ''I'' \<and> c \<noteq> ''i'' \<and> fl c = Some (Finite s) \<longrightarrow>
      (9 \<le> s \<longrightarrow> palo_severity fl c = ''Critical'') \<and>
      (7 \<le> s \<and> s < 9 \<longrightarrow> palo_severity fl c = ''High'') \<and>
      (4 \<le> s \<and> s < 7 \<longrightarrow> palo_severity fl c = ''Medium'') \<and>
      (s < 4 \<longrightarrow> palo_severity fl c = ''Low'')"
    by (simp add: palo_severity_cases)
  have d: "c \<noteq> ''I'' \<and> c \<noteq> ''i'' \<and> fl c = Some PosInf \<longrightarrow> palo_severity fl c = ''Critical''"
    "c \<noteq> ''I'' \<and> c \<noteq> ''i'' \<and> fl c = Some NegInf \<longrightarrow> palo_severity fl c = ''Low''"
    "c \<noteq> ''I'' \<and> c \<noteq> ''i'' \<and> fl c = Some NotANumber \<longrightarrow> palo_severity fl c = ''Low''"
    "c \<noteq> ''I'' \<and> c \<noteq> ''i'' \<and> fl c = None \<longrightarrow> palo_severity fl c = ''N/A''"
    by (simp_all add: palo_severity_cases)
  have e: "sorts_ascending (lib_sort_text lib) \<and> sorts_descending (lib_sort_time_desc lib) \<and>
    scrape_palo_alto lib page = Inr t \<longrightarrow>
      (\<forall>r \<in> set t. \<exists>tb cols u c.
          pp_soup page = Some tb \<and> cols \<in> set (concat tb) \<and> length cols = 7 \<and>
          palo_url (cols ! 1) = Inr u \<and> palo_cve_id (palo_summary (cols ! 1)) = Inr c \<and>
          (r = palo_dict (lib_float lib) cols u c \<or>
           (\<exists>v. r = set_col ''Published Date'' v (palo_dict (lib_float lib) cols u c))) \<and>
          col ''Severity Level'' r =
            Str (palo_severity (lib_float lib) (py_strip (td_text (cols ! 0)))))"
    using scrape_palo_alto_own_row [of lib page t] by (intro impI ballI) (elim conjE)
  from a b d e show ?thesis by (intro conjI)
qed

theorem palo_severity_thresholds_witness:
  "palo_severity (lib_float sample_lib) ''I'' = ''Informational'' \<and>
   palo_severity (lib_float sample_lib) ''9.3'' = ''Critical'' \<and>
   palo_severity (lib_float sample_lib) ''8.8'' = ''High'' \<and>
   palo_severity (lib_float sample_lib) ''5.1'' = ''Medium'' \<and>
   palo_severity (lib_float sample_lib) ''2.0'' = ''Low'' \<and>
   palo_severity (lib_float sample_lib) ''inf'' = ''Critical'' \<and>
   palo_severity (lib_float sample_lib) ''-inf'' = ''Low'' \<and>
   palo_severity (lib_float sample_lib) ''nan'' = ''Low'' \<and>
   palo_severity (lib_float sample_lib) ''n/a'' = ''N/A'' \<and>
   (\<exists>t tb cols u c v. scrape_palo_alto sample_lib sample_palo_page = Inr t \<and> t \<noteq> [] \<and>
      pp_soup sample_palo_page = Some tb \<and> cols \<in> set (concat tb) \<and> length cols = 7 \<and>
      palo_url (cols ! 1) = Inr u \<and> palo_cve_id (palo_summary (cols ! 1)) = Inr c \<and>
      hd t = set_col ''Published Date'' v (palo_dict (lib_float sample_lib) cols u c) \<and>
      col ''Severity Level'' (hd t) =
        Str (palo_severity (lib_float sample_lib) (py_strip (td_text (cols ! 0)))))"
proof -
  have fl: "lib_float sample_lib ''9.3'' = Some (Finite (93 / 10))"
      "lib_float sample_lib ''8.8'' = Some (Finite (88 / 10))"
      "lib_float sample_lib ''5.1'' = Some (Finite (51 / 10))"
      "lib_float sample_lib ''2.0'' = Some (Finite 2)"
      "lib_float sample_lib ''inf'' = Some PosInf"
      "lib_float sample_lib ''-inf'' = Some NegInf"
      "lib_float sample_lib ''nan'' = Some NotANumber"
      "lib_float sample_lib ''n/a'' = None"
    by (simp_all add: sample_lib_def)
  have a: "palo_severity (lib_float sample_lib) ''I'' = ''Informational''"
    using palo_severity_thresholds [of "''I''" "lib_float sample_lib"] by simp
  have b: "palo_severity (lib_float sample_lib) ''9.3'' = ''Critical''"
    using palo_severity_thresholds [of "''9.3''" "lib_float sample_lib" "93 / 10"] fl by simp
  have c: "palo_severity (lib_float sample_lib) ''8.8'' = ''High''"
    using palo_severity_thresholds [of "''8.8''" "lib_float sample_lib" "88 / 10"] fl by simp
  have d: "palo_severity (lib_float sample_lib) ''5.1'' = ''Medium''"
    using palo_severity_thresholds [of "''5.1''" "lib_float sample_lib" "51 / 10"] fl by simp
  have e: "palo_severity (lib_float sample_lib) ''2.0'' = ''Low''"
    using palo_severity_thresholds [of "''2.0''" "lib_float sample_lib" 2] fl by simp
  have f: "palo_severity (lib_float sample_lib) ''inf'' = ''Critical''"
    using palo_severity_thresholds [of "''inf''" "lib_float sample_lib"] fl by simp
  have g: "palo_severity (lib_float sample_lib) ''-inf'' = ''Low''"
    using palo_severity_thresholds [of "''-inf''" "lib_float sample_lib"] fl by simp
  have h: "palo_severity (lib_float sample_lib) ''nan'' = ''Low''"
    using palo_severity_thresholds [of "''nan''" "lib_float sample_lib"] fl by simp
  have i: "palo_severity (lib_float sample_lib) ''n/a'' = ''N/A''"
    using palo_severity_thresholds [of "''n/a''" "lib_float sample_lib"] fl by simp
  have sorts: "sorts_ascending (lib_sort_text sample_lib)"
      "sorts_descending (lib_sort_time_desc sample_lib)"
    by (simp_all add: sample_lib_def stable_asc_sorts stable_desc_sorts)
  obtain t where t: "scrape_palo_alto sample_lib sample_palo_page = Inr t" "t \<noteq> []"
    by (simp add: sample_palo_run)
  then have mem: "hd t \<in> set t" by simp
  from t(1) have time: "is_time (col ''Published Date'' (hd t))"
    by (auto simp: sample_palo_run col_def)
  note last = palo_severity_thresholds [of "''I''" "lib_float sample_lib" 0 sample_lib
      sample_palo_page t, THEN conjunct2, THEN conjunct2, THEN conjunct2, THEN conjunct2,
      THEN conjunct2, THEN conjunct2, rule_format,
      OF conjI [OF sorts(1) conjI [OF sorts(2) t(1)]] mem]
  from last obtain tb cols u c where r: "pp_soup sample_palo_page = Some tb"
      "cols \<in> set (concat tb)"
      "length cols = 7" "palo_url (cols ! 1) = Inr u"
      "palo_cve_id (palo_summary (cols ! 1)) = Inr c"
      "hd t = palo_dict (lib_float sample_lib) cols u c \<or>
       (\<exists>v. hd t = set_col ''Published Date'' v (palo_dict (lib_float sample_lib) cols u c))"
      "col ''Severity Level'' (hd t) =
         Str (palo_severity (lib_float sample_lib) (py_strip (td_text (cols ! 0))))"
    by (elim exE conjE)
  have "hd t \<noteq> palo_dict (lib_float sample_lib) cols u c"
  proof
    assume "hd t = palo_dict (lib_float sample_lib) cols u c"
    with time show False by (simp add: col_def palo_dict_def Let_def)
  qed
  with r(6) obtain v where
    v: "hd t = set_col ''Published Date'' v (palo_dict (lib_float sample_lib) cols u c)"
    by (elim disjE exE) simp_all
  from t r(1-5) v r(7)
  have "\<exists>t tb cols u c v. scrape_palo_alto sample_lib sample_palo_page = Inr t \<and> t \<noteq> [] \<and>
      pp_soup sample_palo_page = Some tb \<and> cols \<in> set (concat tb) \<and> length cols = 7 \<and>
      palo_url (cols ! 1) = Inr u \<and> palo_cve_id (palo_summary (cols ! 1)) = Inr c \<and>
      hd t = set_col ''Published Date'' v (palo_dict (lib_float sample_lib) cols u c) \<and>
      col ''Severity Level'' (hd t) =
        Str (palo_severity (lib_float sample_lib) (py_strip (td_text (cols ! 0))))"
    by (intro exI conjI)
  with a b c d e f g h i show ?thesis by (intro conjI)
qed

section \<open>The records of the NVIDIA, Adobe, Cisco, Intel and Dell tables\<close>

lemma nvidia_pass_records:
  "nvidia_pass rs data = Inr (out, fin) \<Longrightarrow>
     \<forall>r \<in> set out. r \<in> set data \<or> (\<exists>cols title href. r = nvidia_dict cols title href)"
proof (induction rs data rule: nvidia_pass.induct)
  case (1 data)
  then show ?case by simp
next
  case (2 e rs data)
  then show ?case by (simp split: if_splits)
next
  case (3 cols rs data)
  show ?case
  proof (cases "6 \<le> length cols")
    case True
    with "3.prems" obtain title href where a: "td_a (cols ! 0) = Some (title, href)"
      by (cases "td_a (cols ! 0)") auto
    with "3.prems" True
    have "nvidia_pass rs (data @ [nvidia_dict cols title href]) = Inr (out, fin)" by simp
    from "3.IH"(1) [OF True a refl this] show ?thesis by auto
  next
    case False
    with "3.prems" have "nvidia_pass rs data = Inr (out, fin)" by simp
    from "3.IH"(2) [OF False this] show ?thesis .
  qed
qed

lemma nvidia_attempts_records:
  "nvidia_attempts attempt n i data = Inr out \<Longrightarrow>
     \<forall>r \<in> set out. r \<in> set data \<or> (\<exists>cols title href. r = nvidia_dict cols title href)"
proof (induction n arbitrary: i data)
  case 0
  then show ?case by simp
next
  case (Suc n)
  show ?case
  proof (cases "attempt i")
    case (Inl e)
    with Suc.prems have "nvidia_attempts attempt n (Suc i) data = Inr out"
      by (simp split: if_splits)
    from Suc.IH [OF this] show ?thesis .
  next
    case (Inr rs)
    with Suc.prems obtain data' fin where p: "nvidia_pass rs data = Inr (data', fin)"
      by (cases "nvidia_pass rs data") auto
    note recs = nvidia_pass_records [OF p]
    show ?thesis
    proof (cases fin)
      case True
      with Suc.prems Inr p have "out = data'" by simp
      with recs show ?thesis by simp
    next
      case False
      with Suc.prems Inr p have "nvidia_attempts attempt n (Suc i) data' = Inr out" by simp
      from Suc.IH [OF this] recs show ?thesis by blast
    qed
  qed
qed

lemma scrape_nvidia_records:
  assumes "scrape_nvidia page = Inr t" and "r \<in> set t"
  shows "\<exists>cols title href. r = nvidia_dict cols title href"
proof -
  from assms have "nvidia_try page = Inr t"
    by (auto simp: scrape_nvidia_def except_webdriver_def
          split: option.splits sum.splits if_splits)
  then have "nvidia_attempts (np_attempt page) 3 0 [] = Inr t"
    by (auto simp: nvidia_try_def split: option.splits)
  from nvidia_attempts_records [OF this] assms(2) show ?thesis by simp
qed

lemma nvidia_severity_valid: "nvidia_severity c \<in> set valid_severities"
  by (simp add: nvidia_severity_def Let_def valid_severities_def)

lemma nvidia_dict_severity:
  "col ''Severity'' (nvidia_dict cols title href) = Str (nvidia_severity (cols ! 2))"
  "map_of (nvidia_dict cols title href) ''Severity Level'' = None"
  by (simp_all add: col_def nvidia_dict_def)

lemma adobe_rows_record:
  "r \<in> set (adobe_rows name rs data) \<Longrightarrow>
     r \<in> set data \<or> (\<exists>n cols. r = adobe_dict n cols)"
  by (induction name rs data rule: adobe_rows.induct) (auto split: if_splits)

lemma adobe_rows_records:
  "\<forall>r \<in> set (adobe_rows name rs data).
      r \<in> set data \<or> (\<exists>n cols. r = adobe_dict n cols)"
  using adobe_rows_record by blast

lemma adobe_sections_records:
  "\<forall>r \<in> set (adobe_sections ss data).
      r \<in> set data \<or> (\<exists>n cols. r = adobe_dict n cols)"
proof (induction ss arbitrary: data)
  case Nil
  then show ?case by simp
next
  case (Cons s ss)
  show ?case
  proof (cases "as_name s")
    case (Inl e)
    then show ?thesis by simp
  next
    case (Inr name)
    show ?thesis
    proof (cases "as_rows s")
      case (Inl e)
      with Inr Cons.IH [of data] show ?thesis by simp
    next
      case rs: (Inr rs)
      from Cons.IH [of "adobe_rows (py_strip name) rs data"]
        adobe_rows_records [of "py_strip name" rs data] Inr rs
      show ?thesis by auto
    qed
  qed
qed

lemma scrape_adobe_records:
  assumes "scrape_adobe page = Inr t" and "r \<in> set t"
  shows "\<exists>n cols. r = adobe_dict n cols"
proof -
  let ?data = "case ap_acrobat page of Inl e \<Rightarrow> []
               | Inr rs \<Rightarrow> adobe_rows ''Adobe Acrobat'' rs []"
  have d: "\<forall>r \<in> set ?data. \<exists>n cols. r = adobe_dict n cols"
    using adobe_rows_records [of "''Adobe Acrobat''" _ "[]"] by (auto split: sum.splits)
  from assms have "r \<in> set ?data \<or> (\<exists>ss. ap_h4 page = Inr ss \<and> r \<in> set (adobe_sections ss ?data))"
    by (auto simp: scrape_adobe_def Let_def split: option.splits sum.splits)
  with d adobe_sections_records show ?thesis by blast
qed

lemma list_all2_setD:
  "list_all2 P xs ys \<Longrightarrow> x \<in> set xs \<Longrightarrow> \<exists>y \<in> set ys. P x y"
  by (induction rule: list_all2_induct) auto

lemma no_severity_field:
  "map_of (cisco_dict tr) ''Severity Level'' = None"
  "map_of (cisco_dict tr) ''Severity'' = None"
  "map_of (intel_dict cols u) ''Severity Level'' = None"
  "map_of (intel_dict cols u) ''Severity'' = None"
  "map_of (dell_dict cells u s) ''Severity Level'' = None"
  "map_of (dell_dict cells u s) ''Severity'' = None"
  by (simp_all add: cisco_dict_def intel_dict_def dell_dict_def)

lemma scrape_cisco_records:
  assumes "fst (scrape_cisco key net page reqs) = Inr t" and "r \<in> set t"
  shows "\<exists>tr. r = cisco_dict tr"
proof -
  obtain reqs' where "scrape_cisco key net page reqs = (Inr t, reqs')"
    using assms(1) by (cases "scrape_cisco key net page reqs") auto
  moreover from assms(2) have "t \<noteq> []" by auto
  ultimately show ?thesis using scrape_cisco_ok assms(2) by fastforce
qed

lemma scrape_intel_records:
  assumes "fst (scrape_intel key net page reqs) = Inr t" and "r \<in> set t"
  shows "\<exists>cols u. r = intel_dict cols u"
proof -
  obtain reqs' where "scrape_intel key net page reqs = (Inr t, reqs')"
    using assms(1) by (cases "scrape_intel key net page reqs") auto
  moreover from assms(2) have "t \<noteq> []" by auto
  ultimately have "list_all2 (\<lambda>r cols. \<exists>u. r = intel_dict cols u) t
           (filter (\<lambda>cols. 4 \<le> length cols) (take 100 (ip_rows page)))"
    using scrape_intel_ok by blast
  from list_all2_setD [OF this assms(2)] show ?thesis by blast
qed

lemma scrape_dell_records:
  assumes "fst (scrape_dell key net page reqs) = Inr t" and "r \<in> set t"
  shows "\<exists>cells u s. r = dell_dict cells u s"
proof -
  obtain reqs' where "scrape_dell key net page reqs = (Inr t, reqs')"
    using assms(1) by (cases "scrape_dell key net page reqs") auto
  moreover from assms(2) have "t \<noteq> []" by auto
  ultimately have "list_all2 (\<lambda>r cells. \<exists>u s. r = dell_dict cells u s) t
           (filter (\<lambda>cells. 6 \<le> length cells) (take 100 (dp_rows page)))"
    using scrape_dell_ok by blast
  from list_all2_setD [OF this assms(2)] show ?thesis by blast
qed

section \<open>The severity a scraper writes\<close>

text \<open>
  C1, as the code has it. Three scrapers write a severity, and what they write is one of a
  fixed list of tokens: the Palo Alto scraper one of the five levels or \<open>N/A\<close>; the NVIDIA
  scraper (in its column \<open>Severity\<close>) a member of its list of valid severities, which
  holds two of the vendor's own phrases; the Adobe scraper \<open>N/A\<close>. Unknown is written
  \<open>N/A\<close> throughout. The records of the Cisco, Intel and Dell scrapers have no severity
  column at all.
\<close>

theorem severity_tokens:
  "(sorts_ascending (lib_sort_text lib) \<and> sorts_descending (lib_sort_time_desc lib) \<and>
    scrape_palo_alto lib ppage = Inr t \<longrightarrow>
      (\<forall>r \<in> set t. col ''Severity Level'' r \<in>
          Str ` {''Critical'', ''High'', ''Medium'', ''Low'', ''Informational'', ''N/A''})) \<and>
   (scrape_nvidia npage = Inr t \<longrightarrow>
      (\<forall>r \<in> set t. map_of r ''Severity Level'' = None \<and>
          col ''Severity'' r \<in>
            Str ` {''N/A'', ''None'', ''NVIDIA products are not affected'', ''Low'', ''Medium'',
                   ''High'', ''Critical''})) \<and>
   (scrape_adobe apage = Inr t \<longrightarrow> (\<forall>r \<in> set t. col ''Severity Level'' r = Str ''N/A'')) \<and>
   (fst (scrape_cisco key net cpage reqs) = Inr t \<longrightarrow>
      (\<forall>r \<in> set t. map_of r ''Severity Level'' = None \<and> map_of r ''Severity'' = None)) \<and>
   (fst (scrape_intel key net ipage reqs) = Inr t \<longrightarrow>
      (\<forall>r \<in> set t. map_of r ''Severity Level'' = None \<and> map_of r ''Severity'' = None)) \<and>
   (fst (scrape_dell key net dpage reqs) = Inr t \<longrightarrow>
      (\<forall>r \<in> set t. map_of r ''Severity Level'' = None \<and> map_of r ''Severity'' = None))"
proof -
  have palo: "col ''Severity Level'' r \<in>
          Str ` {''Critical'', ''High'', ''Medium'', ''Low'', ''Informational'', ''N/A''}"
    if "sorts_ascending (lib_sort_text lib)" "sorts_descending (lib_sort_time_desc lib)"
       "scrape_palo_alto lib ppage = Inr t" "r \<in> set t" for r
  proof -
    from scrape_palo_alto_rows [OF that]
    have "\<exists>c. col ''Severity Level'' r = Str (palo_severity (lib_float lib) c)"
      by (elim exE conjE) (rule exI)
    then obtain c where "col ''Severity Level'' r = Str (palo_severity (lib_float lib) c)" ..
    with palo_severity_values [of "lib_float lib" c]
    show ?thesis by (simp only: image_eqI)
  qed
  have nvidia: "map_of r ''Severity Level'' = None \<and>
          col ''Severity'' r \<in>
            Str ` {''N/A'', ''None'', ''NVIDIA products are not affected'', ''Low'', ''Medium'',
                   ''High'', ''Critical''}"
    if "scrape_nvidia npage = Inr t" "r \<in> set t" for r
  proof -
    from scrape_nvidia_records [OF that] obtain cols title href
      where r: "r = nvidia_dict cols title href" by blast
    have "nvidia_severity (cols ! 2) \<in> {''N/A'', ''None'', ''NVIDIA products are not affected'',
            ''Low'', ''Medium'', ''High'', ''Critical''}"
      using nvidia_severity_valid [of "cols ! 2"] by (simp add: valid_severities_def)
    with r show ?thesis by (simp only: nvidia_dict_severity) blast
  qed
  have adobe: "col ''Severity Level'' r = Str ''N/A''"
    if "scrape_adobe apage = Inr t" "r \<in> set t" for r
    using scrape_adobe_records [OF that] by (auto simp: col_def adobe_dict_def)
  have cisco: "map_of r ''Severity Level'' = None \<and> map_of r ''Severity'' = None"
    if "fst (scrape_cisco key net cpage reqs) = Inr t" "r \<in> set t" for r
    using scrape_cisco_records [OF that] no_severity_field by auto
  have intel: "map_of r ''Severity Level'' = None \<and> map_of r ''Severity'' = None"
    if "fst (scrape_intel key net ipage reqs) = Inr t" "r \<in> set t" for r
    using scrape_intel_records [OF that] no_severity_field by auto
  have dell: "map_of r ''Severity Level'' = None \<and> map_of r ''Severity'' = None"
    if "fst (scrape_dell key net dpage reqs) = Inr t" "r \<in> set t" for r
    using scrape_dell_records [OF that] no_severity_field by auto
  from palo nvidia adobe cisco intel dell show ?thesis by blast
qed


lemmas eval_nvidia =
  scrape_nvidia_def nvidia_try_def except_webdriver_def nvidia_dict_def nvidia_severity_def
  valid_severities_def clean_publish_date_def sample_nvidia_page_def nvidia_tr_def
  eval_nat_numeral

lemma sample_nvidia_run:
  "scrape_nvidia sample_nvidia_page =
     Inr [[(''Title'', Str ''Bulletin A''), (''Bulletin ID'', Str ''5648''),
           (''Severity'', Str ''NVIDIA products are not affected''),
           (''CVE Identifier(s)'', Str ''CVE-2025-23254''),
           (''Publish Date'', Str ''29 Apr 2025''), (''Last Updated'', Str ''29 Apr 2025''),
           (''URL'', Str ''https://nvidia.custhelp.com/app/answers/detail/a_id/5648'')],
          [(''Title'', Str ''Bulletin B''), (''Bulletin ID'', Str ''5648''),
           (''Severity'', Str ''High''),
           (''CVE Identifier(s)'', Str ''CVE-2025-23254''),
           (''Publish Date'', Str ''29 Apr 2025''), (''Last Updated'', Str ''29 Apr 2025''),
           (''URL'', Str ''https://nvidia.custhelp.com/app/answers/detail/a_id/5648'')],
          [(''Title'', Str ''Bulletin C''), (''Bulletin ID'', Str ''5648''),
           (''Severity'', Str ''N/A''),
           (''CVE Identifier(s)'', Str ''CVE-2025-23254''),
           (''Publish Date'', Str ''29 Apr 2025''), (''Last Updated'', Str ''29 Apr 2025''),
           (''URL'', Str ''https://nvidia.custhelp.com/app/answers/detail/a_id/5648'')]]"
  by (simp add: eval_nvidia eval_strings eval_cells)

lemma sample_adobe_run:
  "scrape_adobe sample_adobe_page =
     Inr [[(''Section'', Str ''Adobe Acrobat''), (''Title'', Str ''APSB25-14 Acrobat''),
           (''Posted'', Str ''03/11/2025''), (''Updated'', Str ''03/11/2025''),
           (''Severity Level'', Str ''N/A'')],
          [(''Section'', Str ''Adobe Commerce''), (''Title'', Str ''APSB25-26 Commerce''),
           (''Posted'', Str ''04/08/2025''), (''Updated'', Str ''04/08/2025''),
           (''Severity Level'', Str ''N/A'')]]"
  by (simp add: scrape_adobe_def sample_adobe_page_def adobe_dict_def eval_strings)

theorem severity_tokens_witness:
  "(\<exists>t. scrape_palo_alto sample_lib sample_palo_page = Inr t \<and> t \<noteq> [] \<and>
        col ''Severity Level'' (hd t) \<in>
          Str ` {''Critical'', ''High'', ''Medium'', ''Low'', ''Informational'', ''N/A''}) \<and>
   (\<exists>t. scrape_nvidia sample_nvidia_page = Inr t \<and> t \<noteq> [] \<and>
        map_of (hd t) ''Severity Level'' = None \<and>
        col ''Severity'' (hd t) \<in>
          Str ` {''N/A'', ''None'', ''NVIDIA products are not affected'', ''Low'', ''Medium'',
                 ''High'', ''Critical''}) \<and>
   (\<exists>t. scrape_adobe sample_adobe_page = Inr t \<and> t \<noteq> [] \<and>
        col ''Severity Level'' (hd t) = Str ''N/A'') \<and>
   (\<exists>t. fst (scrape_cisco ''k'' sample_net sample_cisco_page []) = Inr t \<and> t \<noteq> [] \<and>
        map_of (hd t) ''Severity Level'' = None \<and> map_of (hd t) ''Severity'' = None) \<and>
   (\<exists>t. fst (scrape_intel ''k'' sample_net sample_intel_page []) = Inr t \<and> t \<noteq> [] \<and>
        map_of (hd t) ''Severity Level'' = None \<and> map_of (hd t) ''Severity'' = None) \<and>
   (\<exists>t. fst (scrape_dell ''k'' sample_net sample_dell_page []) = Inr t \<and> t \<noteq> [] \<and>
        map_of (hd t) ''Severity Level'' = None \<and> map_of (hd t) ''Severity'' = None)"
proof -
  have sorts: "sorts_ascending (lib_sort_text sample_lib)"
      "sorts_descending (lib_sort_time_desc sample_lib)"
    by (simp_all add: sample_lib_def stable_asc_sorts stable_desc_sorts)
  note inst = severity_tokens [of sample_lib sample_palo_page _ sample_nvidia_page
      sample_adobe_page "''k''" sample_net sample_cisco_page "[]" sample_intel_page
      sample_dell_page]
  obtain tp where tp: "scrape_palo_alto sample_lib sample_palo_page = Inr tp" "tp \<noteq> []"
    by (simp add: sample_palo_run)
  obtain tn where tn: "scrape_nvidia sample_nvidia_page = Inr tn" "tn \<noteq> []"
    by (simp add: sample_nvidia_run)
  obtain ta where ta: "scrape_adobe sample_adobe_page = Inr ta" "ta \<noteq> []"
    by (simp add: sample_adobe_run)
  obtain tc where tc: "fst (scrape_cisco ''k'' sample_net sample_cisco_page []) = Inr tc"
      "tc \<noteq> []"
    by (simp add: sample_cisco_run)
  obtain ti where ti: "fst (scrape_intel ''k'' sample_net sample_intel_page []) = Inr ti"
      "ti \<noteq> []"
    by (simp add: sample_intel_run)
  obtain td where td: "fst (scrape_dell ''k'' sample_net sample_dell_page []) = Inr td"
      "td \<noteq> []"
    by (simp add: sample_dell_run)
  have hd: "hd tp \<in> set tp" "hd tn \<in> set tn" "hd ta \<in> set ta" "hd tc \<in> set tc"
      "hd ti \<in> set ti" "hd td \<in> set td"
    using tp tn ta tc ti td by simp_all
  from inst [of tp] sorts tp hd(1)
  have p: "col ''Severity Level'' (hd tp) \<in>
          Str ` {''Critical'', ''High'', ''Medium'', ''Low'', ''Informational'', ''N/A''}"
    by blast
  from inst [of tn] tn hd(2)
  have n: "map_of (hd tn) ''Severity Level'' = None \<and>
        col ''Severity'' (hd tn) \<in>
          Str ` {''N/A'', ''None'', ''NVIDIA products are not affected'', ''Low'', ''Medium'',
                 ''High'', ''Critical''}"
    by blast
  from inst [of ta] ta hd(3)
  have a: "col ''Severity Level'' (hd ta) = Str ''N/A''"
    by blast
  from inst [of tc] tc hd(4)
  have c: "map_of (hd tc) ''Severity Level'' = None \<and> map_of (hd tc) ''Severity'' = None"
    by blast
  from inst [of ti] ti hd(5)
  have i: "map_of (hd ti) ''Severity Level'' = None \<and> map_of (hd ti) ''Severity'' = None"
    by blast
  from inst [of td] td hd(6)
  have d: "map_of (hd td) ''Severity Level'' = None \<and> map_of (hd td) ''Severity'' = None"
    by blast
  have e1: "\<exists>t. scrape_palo_alto sample_lib sample_palo_page = Inr t \<and> t \<noteq> [] \<and>
        col ''Severity Level'' (hd t) \<in>
          Str ` {''Critical'', ''High'', ''Medium'', ''Low'', ''Informational'', ''N/A''}"
    using tp p by (intro exI [of _ tp] conjI)
  have e2: "\<exists>t. scrape_nvidia sample_nvidia_page = Inr t \<and> t \<noteq> [] \<and>
        map_of (hd t) ''Severity Level'' = None \<and>
        col ''Severity'' (hd t) \<in>
          Str ` {''N/A'', ''None'', ''NVIDIA products are not affected'', ''Low'', ''Medium'',
                 ''High'', ''Critical''}"
    using tn n by (intro exI [of _ tn] conjI) (elim conjE, assumption)+
  have e3: "\<exists>t. scrape_adobe sample_adobe_page = Inr t \<and> t \<noteq> [] \<and>
        col ''Severity Level'' (hd t) = Str ''N/A''"
    using ta a by (intro exI [of _ ta] conjI)
  have e4: "\<exists>t. fst (scrape_cisco ''k'' sample_net sample_cisco_page []) = Inr t \<and> t \<noteq> [] \<and>
        map_of (hd t) ''Severity Level'' = None \<and> map_of (hd t) ''Severity'' = None"
    using tc c by (intro exI [of _ tc] conjI) (elim conjE, assumption)+
  have e5: "\<exists>t. fst (scrape_intel ''k'' sample_net sample_intel_page []) = Inr t \<and> t \<noteq> [] \<and>
        map_of (hd t) ''Severity Level'' = None \<and> map_of (hd t) ''Severity'' = None"
    using ti i by (intro exI [of _ ti] conjI) (elim conjE, assumption)+
  have e6: "\<exists>t. fst (scrape_dell ''k'' sample_net sample_dell_page []) = Inr t \<and> t \<noteq> [] \<and>
        map_of (hd t) ''Severity Level'' = None \<and> map_of (hd t) ''Severity'' = None"
    using td d by (intro exI [of _ td] conjI) (elim conjE, assumption)+
  from e1 e2 e3 e4 e5 e6 show ?thesis by (intro conjI)
qed

text \<open>
  C1 as stated fails. The NVIDIA scraper keeps the vendor's phrase "NVIDIA products are not
  affected" in the severity of a record, and that phrase is none of the six values.
\<close>

theorem severity_tokens_counterexample:
  "map_sum id (map (col ''Severity'')) (scrape_nvidia sample_nvidia_page) =
     Inr [Str ''NVIDIA products are not affected'', Str ''High'', Str ''N/A''] \<and>
   ''NVIDIA products are not affected'' \<notin>
     {''Critical'', ''High'', ''Medium'', ''Low'', ''Informational'', ''Unknown''}"
  by (simp add: sample_nvidia_run col_def)

section \<open>Time-outs and pages without the expected rows\<close>














section \<open>The cap on the rows and their order\<close>




section \<open>The query bots: missing columns, the table handed in, the latest advisories\<close>

lemma py_in_nil: "py_in [] s"
  by (cases s) (simp_all add: startswith_def)

lemma py_in_self: "py_in p p"
  by (cases p) (simp_all add: startswith_def)

lemma py_in_append_right: "py_in p b \<Longrightarrow> py_in p (a @ b)"
  by (induction a) simp_all

lemma startswith_append: "startswith a p \<Longrightarrow> startswith (a @ b) p"
proof -
  assume "startswith a p"
  then have t: "take (length p) a = p" by (simp add: startswith_def)
  have "length (take (length p) a) \<le> length a" by simp
  with t have "length p \<le> length a" by simp
  with t show ?thesis by (simp add: startswith_def)
qed

lemma py_in_append_left: "py_in p a \<Longrightarrow> py_in p (a @ b)"
proof (induction a)
  case Nil
  then show ?case by (simp add: py_in_nil)
next
  case (Cons c cs)
  then show ?case using startswith_append [of "c # cs" p b] by auto
qed

lemma py_in_join: "c \<in> set xs \<Longrightarrow> py_in c (py_join sep xs)"
proof (induction sep xs rule: py_join.induct)
  case (1 sep)
  then show ?case by simp
next
  case (2 sep x)
  then show ?case by (simp add: py_in_self)
next
  case (3 sep x y ys)
  show ?case
  proof (cases "c = x")
    case True
    then show ?thesis by (simp add: py_in_append_left py_in_self)
  next
    case False
    with 3 have "py_in c (py_join sep (y # ys))" by simp
    then show ?thesis by (simp add: py_in_append_right)
  qed
qed

lemma missing_message_names:
  "c \<in> set missing \<Longrightarrow> py_in c (missing_message missing)"
  unfolding missing_message_def
  by (intro py_in_append_right py_in_append_left py_in_join)

lemma missing_message_title:
  "py_in ''Missing required columns'' (missing_message missing)"
proof -
  have "py_in ''Missing required columns'' '' Missing required columns: ''"
    by (simp add: startswith_def)
  then show ?thesis
    unfolding missing_message_def
    by (intro py_in_append_right py_in_append_left)
qed

lemma dated_bot_missing:
  "missing_columns required df \<noteq> [] \<Longrightarrow>
     dated_bot required date_col lib later question df =
       (Inr (response (missing_message (missing_columns required df))), df)"
  by (simp add: dated_bot_def Let_def)

text \<open>
  C10. A table that lacks required columns is answered, by each of the three bots, with a
  table of the one column \<open>Response\<close> and one row; its message holds the words "Missing
  required columns" and the names of the required columns the table does not have, joined
  by commas. Nothing is raised, and the table is left as it was.
\<close>

theorem missing_columns_answer:
  "(missing_columns cisco_required df \<noteq> [] \<longrightarrow>
      query_cisco_bot lib later question df =
        (Inr (response (missing_message (missing_columns cisco_required df))), df)) \<and>
   (missing_columns palo_alto_required df \<noteq> [] \<longrightarrow>
      query_palo_alto_bot lib later question df =
        (Inr (response (missing_message (missing_columns palo_alto_required df))), df)) \<and>
   (missing_columns nvidia_required df \<noteq> [] \<longrightarrow>
      query_nvidia_bot lib later question df =
        (Inr (response (missing_message (missing_columns nvidia_required df)
                          @ '' Please ensure the data includes these columns.'')), df)) \<and>
   df_columns (response msg) = [''Response''] \<and>
   df_records (response msg) = [[(''Response'', Str msg)]] \<and>
   set (missing_columns required df) = set required - set (df_columns df) \<and>
   missing_message missing =
     cross_mark @ '' Missing required columns: '' @ py_join '', '' missing @ ''.'' \<and>
   py_in ''Missing required columns'' (missing_message missing) \<and>
   (c \<in> set missing \<longrightarrow> py_in c (missing_message missing))"
proof -
  have cisco: "missing_columns cisco_required df \<noteq> [] \<longrightarrow>
      query_cisco_bot lib later question df =
        (Inr (response (missing_message (missing_columns cisco_required df))), df)"
    by (simp add: query_cisco_bot_def dated_bot_missing)
  have palo: "missing_columns palo_alto_required df \<noteq> [] \<longrightarrow>
      query_palo_alto_bot lib later question df =
        (Inr (response (missing_message (missing_columns palo_alto_required df))), df)"
    by (simp add: query_palo_alto_bot_def dated_bot_missing)
  have nvidia: "missing_columns nvidia_required df \<noteq> [] \<longrightarrow>
      query_nvidia_bot lib later question df =
        (Inr (response (missing_message (missing_columns nvidia_required df)
                          @ '' Please ensure the data includes these columns.'')), df)"
    by (simp add: query_nvidia_bot_def Let_def)
  have resp: "df_columns (response msg) = [''Response'']"
      "df_records (response msg) = [[(''Response'', Str msg)]]"
    by (simp_all add: response_def)
  have miss: "set (missing_columns required df) = set required - set (df_columns df)"
    by (auto simp: missing_columns_def)
  have msg: "missing_message missing =
     cross_mark @ '' Missing required columns: '' @ py_join '', '' missing @ ''.''"
    by (simp add: missing_message_def)
  have names: "c \<in> set missing \<longrightarrow> py_in c (missing_message missing)"
    by (simp add: missing_message_names)
  from cisco palo nvidia resp miss msg missing_message_title [of missing] names
  show ?thesis by (intro conjI) assumption+
qed


theorem missing_columns_answer_witness:
  "missing_columns cisco_required narrow_frame =
     [''oem_name'', ''vulnerability'', ''severity'', ''last_updated'', ''severity_level''] \<and>
   query_cisco_bot sample_lib sample_later ''latest 5'' narrow_frame =
     (Inr (response (cross_mark @ '' Missing required columns: oem_name, vulnerability, severity, last_updated, severity_level.'')),
      narrow_frame) \<and>
   query_palo_alto_bot sample_lib sample_later ''latest 5'' narrow_frame =
     (Inr (response (cross_mark @ '' Missing required columns: product_name, vulnerability, published_date, severity_level, unique_id, affected_versions, unaffected_versions.'')),
      narrow_frame) \<and>
   query_nvidia_bot sample_lib sample_later ''latest 5'' narrow_frame =
     (Inr (response (cross_mark @ '' Missing required columns: bulletin_id, severity, cve_identifier(s), publish_date, last_updated, severity_level. Please ensure the data includes these columns.'')),
      narrow_frame) \<and>
   py_in ''severity''
     (missing_message (missing_columns cisco_required narrow_frame))"
proof -
  have c: "missing_columns cisco_required narrow_frame =
     [''oem_name'', ''vulnerability'', ''severity'', ''last_updated'', ''severity_level'']"
    by (simp add: missing_columns_def cisco_required_def narrow_frame_def)
  have p: "missing_columns palo_alto_required narrow_frame = palo_alto_required"
    by (simp add: missing_columns_def palo_alto_required_def narrow_frame_def)
  have n: "missing_columns nvidia_required narrow_frame =
     [''bulletin_id'', ''severity'', ''cve_identifier(s)'', ''publish_date'', ''last_updated'',
      ''severity_level'']"
    by (simp add: missing_columns_def nvidia_required_def narrow_frame_def)
  note inst = missing_columns_answer [where df = narrow_frame and lib = sample_lib
      and later = sample_later and question = "''latest 5''" and c = "''severity''"
      and missing = "missing_columns cisco_required narrow_frame"
      and msg = "[]" and required = cisco_required]
  from inst c have qc: "query_cisco_bot sample_lib sample_later ''latest 5'' narrow_frame =
     (Inr (response (missing_message [''oem_name'', ''vulnerability'', ''severity'',
        ''last_updated'', ''severity_level''])), narrow_frame)"
    by simp
  from inst p have qp: "query_palo_alto_bot sample_lib sample_later ''latest 5'' narrow_frame =
     (Inr (response (missing_message palo_alto_required)), narrow_frame)"
    by (simp add: palo_alto_required_def)
  from inst n have qn: "query_nvidia_bot sample_lib sample_later ''latest 5'' narrow_frame =
     (Inr (response (missing_message [''bulletin_id'', ''severity'', ''cve_identifier(s)'',
        ''publish_date'', ''last_updated'', ''severity_level'']
          @ '' Please ensure the data includes these columns.'')), narrow_frame)"
    by simp
  have mem: "''severity'' \<in> set (missing_columns cisco_required narrow_frame)"
    by (simp add: c)
  from inst have imp: "''severity'' \<in> set (missing_columns cisco_required narrow_frame) \<longrightarrow>
      py_in ''severity'' (missing_message (missing_columns cisco_required narrow_frame))"
    by (elim conjE)
  from imp mem have nm: "py_in ''severity''
     (missing_message (missing_columns cisco_required narrow_frame))"
    by (rule mp)
  from qc have qc': "query_cisco_bot sample_lib sample_later ''latest 5'' narrow_frame =
     (Inr (response (cross_mark @ '' Missing required columns: oem_name, vulnerability, severity, last_updated, severity_level.'')),
      narrow_frame)"
    by (simp add: missing_message_def)
  from qp have qp': "query_palo_alto_bot sample_lib sample_later ''latest 5'' narrow_frame =
     (Inr (response (cross_mark @ '' Missing required columns: product_name, vulnerability, published_date, severity_level, unique_id, affected_versions, unaffected_versions.'')),
      narrow_frame)"
    by (simp add: missing_message_def palo_alto_required_def)
  from qn have qn': "query_nvidia_bot sample_lib sample_later ''latest 5'' narrow_frame =
     (Inr (response (cross_mark @ '' Missing required columns: bulletin_id, severity, cve_identifier(s), publish_date, last_updated, severity_level. Please ensure the data includes these columns.'')),
      narrow_frame)"
    by (simp add: missing_message_def)
  from c qc' qp' qn' nm show ?thesis by (intro conjI)
qed

lemma dated_bot_table:
  "snd (dated_bot required k lib later question df) =
     (if missing_columns required df \<noteq> [] then df
      else df\<lparr>df_records := assign_datetime (lib_parse lib) k (df_records df)\<rparr>)"
  by (simp add: dated_bot_def Let_def)

lemma dated_bot_effect:
  shows "df_columns (snd (dated_bot required k lib later question df)) = df_columns df"
    and "length (df_records (snd (dated_bot required k lib later question df))) =
           length (df_records df)"
    and "\<forall>i < length (df_records df). \<forall>k'. k' \<noteq> k \<longrightarrow>
           col k' (df_records (snd (dated_bot required k lib later question df)) ! i) =
             col k' (df_records df ! i)"
    and "missing_columns required df = [] \<longrightarrow>
           map (col k) (df_records (snd (dated_bot required k lib later question df))) =
             to_datetime (lib_parse lib) (map (col k) (df_records df))"
    and "missing_columns required df \<noteq> [] \<longrightarrow>
           snd (dated_bot required k lib later question df) = df"
  unfolding dated_bot_table
  by (simp_all add: assign_datetime_length assign_datetime_other assign_datetime_column)

lemma query_nvidia_bot_table: "snd (query_nvidia_bot lib later question df) = df"
  by (simp add: query_nvidia_bot_def Let_def split: sum.split)

text \<open>
  C9, as the code has it. The NVIDIA bot hands the table back as it got it. The Cisco and
  the Palo Alto bot do so when a required column is missing; otherwise they assign to the
  date column of the table they were handed (\<open>last_updated\<close>, \<open>published_date\<close>): its
  cells become what \<^verbatim>\<open>to_datetime\<close> makes of them. The column labels, the number of
  records and the cells of every other column stay.
\<close>

theorem query_table_effect:
  "snd (query_nvidia_bot lib later question df) = df \<and>
   df_columns (snd (query_cisco_bot lib later question df)) = df_columns df \<and>
   length (df_records (snd (query_cisco_bot lib later question df))) =
     length (df_records df) \<and>
   (\<forall>i < length (df_records df). \<forall>k. k \<noteq> ''last_updated'' \<longrightarrow>
      col k (df_records (snd (query_cisco_bot lib later question df)) ! i) =
        col k (df_records df ! i)) \<and>
   (missing_columns cisco_required df = [] \<longrightarrow>
      map (col ''last_updated'') (df_records (snd (query_cisco_bot lib later question df))) =
        to_datetime (lib_parse lib) (map (col ''last_updated'') (df_records df))) \<and>
   (missing_columns cisco_required df \<noteq> [] \<longrightarrow>
      snd (query_cisco_bot lib later question df) = df) \<and>
   df_columns (snd (query_palo_alto_bot lib later question df)) = df_columns df \<and>
   length (df_records (snd (query_palo_alto_bot lib later question df))) =
     length (df_records df) \<and>
   (\<forall>i < length (df_records df). \<forall>k. k \<noteq> ''published_date'' \<longrightarrow>
      col k (df_records (snd (query_palo_alto_bot lib later question df)) ! i) =
        col k (df_records df ! i)) \<and>
   (missing_columns palo_alto_required df = [] \<longrightarrow>
      map (col ''published_date'')
          (df_records (snd (query_palo_alto_bot lib later question df))) =
        to_datetime (lib_parse lib) (map (col ''published_date'') (df_records df))) \<and>
   (missing_columns palo_alto_required df \<noteq> [] \<longrightarrow>
      snd (query_palo_alto_bot lib later question df) = df)"
  unfolding query_cisco_bot_def query_palo_alto_bot_def
  by (intro conjI query_nvidia_bot_table dated_bot_effect)

lemmas eval_bots =
  clean_text_def missing_columns_def asks_latest_def latest_n_def cisco_required_def
  nvidia_required_def palo_alto_required_def sample_cisco_frame_def sample_nvidia_frame_def
  cisco_record_def nvidia_record_def narrow_frame_def sample_later_def

theorem query_table_effect_witness:
  "missing_columns cisco_required sample_cisco_frame = [] \<and>
   map (col ''last_updated'')
     (df_records (snd (query_cisco_bot sample_lib sample_later ''critical severity''
        sample_cisco_frame))) =
     [Timestamp 20250507, Timestamp 20250508, NaT, Timestamp 20250507] \<and>
   col ''vulnerability''
     (df_records (snd (query_cisco_bot sample_lib sample_later ''critical severity''
        sample_cisco_frame)) ! 2) = Str ''Advisory C'' \<and>
   missing_columns palo_alto_required sample_cisco_frame \<noteq> [] \<and>
   snd (query_palo_alto_bot sample_lib sample_later ''critical severity'' sample_cisco_frame) =
     sample_cisco_frame \<and>
   snd (query_nvidia_bot sample_lib sample_later ''critical severity'' sample_nvidia_frame) =
     sample_nvidia_frame"
proof -
  note inst = query_table_effect [of sample_lib sample_later "''critical severity''"
      sample_cisco_frame]
  have c: "missing_columns cisco_required sample_cisco_frame = []"
    by (simp add: eval_bots)
  have p: "missing_columns palo_alto_required sample_cisco_frame \<noteq> []"
    by (simp add: eval_bots)
  have len: "(2::nat) < length (df_records sample_cisco_frame)"
    by (simp add: eval_bots)
  from inst c have "map (col ''last_updated'')
     (df_records (snd (query_cisco_bot sample_lib sample_later ''critical severity''
        sample_cisco_frame))) =
     to_datetime (lib_parse sample_lib)
       (map (col ''last_updated'') (df_records sample_cisco_frame))"
    by simp
  then have dates: "map (col ''last_updated'')
     (df_records (snd (query_cisco_bot sample_lib sample_later ''critical severity''
        sample_cisco_frame))) =
     [Timestamp 20250507, Timestamp 20250508, NaT, Timestamp 20250507]"
    by (simp add: eval_bots to_datetime_def col_def sample_lib_def)
  from inst len have "col ''vulnerability''
     (df_records (snd (query_cisco_bot sample_lib sample_later ''critical severity''
        sample_cisco_frame)) ! 2) = col ''vulnerability'' (df_records sample_cisco_frame ! 2)"
    by simp
  then have other: "col ''vulnerability''
     (df_records (snd (query_cisco_bot sample_lib sample_later ''critical severity''
        sample_cisco_frame)) ! 2) = Str ''Advisory C''"
    by (simp add: eval_bots col_def)
  from inst p have palo: "snd (query_palo_alto_bot sample_lib sample_later
      ''critical severity'' sample_cisco_frame) = sample_cisco_frame"
    by simp
  from query_table_effect [of sample_lib sample_later "''critical severity''"
      sample_nvidia_frame]
  have nv: "snd (query_nvidia_bot sample_lib sample_later ''critical severity''
      sample_nvidia_frame) = sample_nvidia_frame"
    by simp
  from c dates other p palo nv show ?thesis by (intro conjI)
qed

theorem query_changes_table_counterexample:
  "snd (query_cisco_bot sample_lib sample_later ''critical severity'' sample_cisco_frame) \<noteq>
     sample_cisco_frame \<and>
   map (col ''last_updated'') (df_records sample_cisco_frame) =
     [Str ''2025-05-07'', Str ''2025-05-08'', Str ''N/A'', Str ''2025-05-07''] \<and>
   map (col ''last_updated'')
     (df_records (snd (query_cisco_bot sample_lib sample_later ''critical severity''
        sample_cisco_frame))) =
     [Timestamp 20250507, Timestamp 20250508, NaT, Timestamp 20250507]"
proof -
  have c: "missing_columns cisco_required sample_cisco_frame = []"
    by (simp add: eval_bots)
  have before: "map (col ''last_updated'') (df_records sample_cisco_frame) =
     [Str ''2025-05-07'', Str ''2025-05-08'', Str ''N/A'', Str ''2025-05-07'']"
    by (simp add: eval_bots col_def)
  have after: "map (col ''last_updated'')
     (df_records (snd (query_cisco_bot sample_lib sample_later ''critical severity''
        sample_cisco_frame))) =
     [Timestamp 20250507, Timestamp 20250508, NaT, Timestamp 20250507]"
    using c
    by (simp add: query_cisco_bot_def dated_bot_table assign_datetime_column before
          to_datetime_def sample_lib_def)
  from before after
  have "snd (query_cisco_bot sample_lib sample_later ''critical severity'' sample_cisco_frame)
          \<noteq> sample_cisco_frame"
    by auto
  with before after show ?thesis by (intro conjI)
qed

text \<open>
  C6 at the dates of the specification's example. The NVIDIA bot sorts the column
  \<open>publish_date\<close> as the texts it holds: the record without a date comes first, before
  2025-05-08. The Cisco bot, which parses its date column first, answers the same dates
  with 2025-05-08 first and the record without a date last.
\<close>

theorem nvidia_latest_text_order:
  "(case fst (query_nvidia_bot sample_lib sample_later ''Show latest 5 advisories''
              sample_nvidia_frame) of
      Inl e \<Rightarrow> []
    | Inr t \<Rightarrow> map (\<lambda>r. (col ''title'' r, col ''publish_date'' r)) (df_records t)) =
     [(Str ''Bulletin C'', Str ''N/A''), (Str ''Bulletin B'', Str ''2025-05-08''),
      (Str ''Bulletin A'', Str ''2025-05-07''), (Str ''Bulletin D'', Str ''2025-05-07'')] \<and>
   (case fst (query_cisco_bot sample_lib sample_later ''Show latest 5 advisories''
              sample_cisco_frame) of
      Inl e \<Rightarrow> []
    | Inr t \<Rightarrow> map (\<lambda>r. (col ''vulnerability'' r, col ''last_updated'' r)) (df_records t)) =
     [(Str ''Advisory B'', Timestamp 20250508), (Str ''Advisory A'', Timestamp 20250507),
      (Str ''Advisory D'', Timestamp 20250507), (Str ''Advisory C'', NaT)]"
proof -
  have q: "clean_text ''Show latest 5 advisories'' = ''show latest 5 advisories''"
    by (simp add: clean_text_def eval_strings)
  have l: "asks_latest ''show latest 5 advisories''"
    by (simp add: asks_latest_def startswith_def)
  have n: "latest_n ''show latest 5 advisories'' = 5"
    by (simp add: latest_n_def startswith_def)
  have nv: "missing_columns nvidia_required sample_nvidia_frame = []"
    by (simp add: eval_bots)
  have ci: "missing_columns cisco_required sample_cisco_frame = []"
    by (simp add: eval_bots)
  have s: "sort_column_desc sample_lib ''publish_date'' (df_records sample_nvidia_frame) =
     Inr [nvidia_record ''Bulletin C'' ''N/A'', nvidia_record ''Bulletin B'' ''2025-05-08'',
          nvidia_record ''Bulletin A'' ''2025-05-07'', nvidia_record ''Bulletin D'' ''2025-05-07'']"
    by (simp add: sort_column_desc_def sample_nvidia_frame_def nvidia_record_def col_def
          text_key_def stable_desc_def sample_lib_def)
  have a: "assign_datetime (lib_parse sample_lib) ''last_updated''
             (df_records sample_cisco_frame) =
     [set_col ''last_updated'' (Timestamp 20250507) (cisco_record ''Advisory A'' ''Critical'' ''2025-05-07''),
      set_col ''last_updated'' (Timestamp 20250508) (cisco_record ''Advisory B'' ''Medium'' ''2025-05-08''),
      set_col ''last_updated'' NaT (cisco_record ''Advisory C'' ''High'' ''N/A''),
      set_col ''last_updated'' (Timestamp 20250507) (cisco_record ''Advisory D'' ''High'' ''2025-05-07'')]"
    by (simp add: assign_datetime_def to_datetime_def sample_cisco_frame_def cisco_record_def
          col_def sample_lib_def)
  have nres: "(case fst (query_nvidia_bot sample_lib sample_later ''Show latest 5 advisories''
              sample_nvidia_frame) of
      Inl e \<Rightarrow> []
    | Inr t \<Rightarrow> map (\<lambda>r. (col ''title'' r, col ''publish_date'' r)) (df_records t)) =
     [(Str ''Bulletin C'', Str ''N/A''), (Str ''Bulletin B'', Str ''2025-05-08''),
      (Str ''Bulletin A'', Str ''2025-05-07''), (Str ''Bulletin D'', Str ''2025-05-07'')]"
    by (simp add: query_nvidia_bot_def Let_def q l n nv s) (simp add: nvidia_record_def col_def)
  have cres: "(case fst (query_cisco_bot sample_lib sample_later ''Show latest 5 advisories''
              sample_cisco_frame) of
      Inl e \<Rightarrow> []
    | Inr t \<Rightarrow> map (\<lambda>r. (col ''vulnerability'' r, col ''last_updated'' r)) (df_records t)) =
     [(Str ''Advisory B'', Timestamp 20250508), (Str ''Advisory A'', Timestamp 20250507),
      (Str ''Advisory D'', Timestamp 20250507), (Str ''Advisory C'', NaT)]"
    by (simp add: query_cisco_bot_def dated_bot_def Let_def q l n ci a)
       (simp add: sort_values_desc_def set_col_def cisco_record_def col_def time_key_def
          stable_desc_def sample_lib_def)
  from nres cres show ?thesis by (intro conjI)
qed

end
